(* ===== verification/Prelude.thy ===== *)
theory Prelude
  imports Complex_Main "HOL-Library.AList" "HOL-Library.Sublist"
begin

text \<open>
  Shared vocabulary of the development: the strings of the JavaScript runtime (lists of code
  units below 256, so the Latin-1 part of a JavaScript string), the string methods the sources
  call, insertion-ordered maps (\<open>Map\<close> objects and property lists) as association lists, the
  number type, and results of computations that may throw.
\<close>

named_theorems run_defs \<open>definitions the simplifier unfolds to run an effectful operation\<close>

subsection \<open>Code units and string methods\<close>

type_synonym code = nat

definition code_of :: "char \<Rightarrow> nat" where
  "code_of c = of_char c"

definition in_range :: "nat \<Rightarrow> nat \<Rightarrow> char \<Rightarrow> bool" where
  "in_range lo hi c \<longleftrightarrow> lo \<le> code_of c \<and> code_of c \<le> hi"

definition is_digit :: "char \<Rightarrow> bool" where
  "is_digit c \<longleftrightarrow> in_range 48 57 c"

definition is_upper :: "char \<Rightarrow> bool" where
  "is_upper c \<longleftrightarrow> in_range 65 90 c"

definition is_lower :: "char \<Rightarrow> bool" where
  "is_lower c \<longleftrightarrow> in_range 97 122 c"

definition is_alnum :: "char \<Rightarrow> bool" where
  "is_alnum c \<longleftrightarrow> is_digit c \<or> is_upper c \<or> is_lower c"

text \<open>White space and line terminators of ECMAScript below code point 256.\<close>

definition is_space :: "char \<Rightarrow> bool" where
  "is_space c \<longleftrightarrow> in_range 9 13 c \<or> code_of c = 32 \<or> code_of c = 160"

text \<open>\<open>toLowerCase\<close> on one Latin-1 code unit.\<close>

definition lower_char :: "char \<Rightarrow> char" where
  "lower_char c =
     (if is_upper c \<or> (in_range 192 222 c \<and> code_of c \<noteq> 215)
      then char_of (code_of c + 32) else c)"

definition to_lower :: "string \<Rightarrow> string" where
  "to_lower s = map lower_char s"

definition trim_start :: "string \<Rightarrow> string" where
  "trim_start s = dropWhile is_space s"

definition trim_end :: "string \<Rightarrow> string" where
  "trim_end s = rev (dropWhile is_space (rev s))"

definition trim :: "string \<Rightarrow> string" where
  "trim s = trim_end (trim_start s)"

text \<open>\<open>String.prototype.includes\<close>, \<open>startsWith\<close>, \<open>endsWith\<close>.\<close>

fun str_includes :: "string \<Rightarrow> string \<Rightarrow> bool" where
  "str_includes [] t = (t = [])"
| "str_includes (c # s) t = (prefix t (c # s) \<or> str_includes s t)"

definition starts_with :: "string \<Rightarrow> string \<Rightarrow> bool" where
  "starts_with s p = prefix p s"

definition ends_with :: "string \<Rightarrow> string \<Rightarrow> bool" where
  "ends_with s p = suffix p s"

text \<open>\<open>indexOf\<close> of a single character; \<open>None\<close> stands for \<open>-1\<close>.\<close>

fun index_of :: "char \<Rightarrow> string \<Rightarrow> nat option" where
  "index_of c [] = None"
| "index_of c (d # s) = (if c = d then Some 0 else map_option Suc (index_of c s))"

fun join :: "string \<Rightarrow> string list \<Rightarrow> string" where
  "join sep [] = []"
| "join sep [x] = x"
| "join sep (x # y # xs) = x @ sep @ join sep (y # xs)"

text \<open>\<open>split\<close> at a one-character separator.\<close>

fun split_on :: "char \<Rightarrow> string \<Rightarrow> string list" where
  "split_on d [] = [[]]"
| "split_on d (c # s) =
     (if c = d then [] # split_on d s
      else (case split_on d s of [] \<Rightarrow> [[c]] | l # ls \<Rightarrow> (c # l) # ls))"

abbreviation split_lf :: "string \<Rightarrow> string list" where
  "split_lf \<equiv> split_on (CHR 0x0A)"

subsection \<open>Decimal notation\<close>

definition digit_char :: "nat \<Rightarrow> char" where
  "digit_char d = char_of (48 + d)"

fun show_nat :: "nat \<Rightarrow> string" where
  "show_nat n = (if n < 10 then [digit_char n] else show_nat (n div 10) @ [digit_char (n mod 10)])"

declare show_nat.simps [simp del]

definition show_int :: "int \<Rightarrow> string" where
  "show_int i = (if i < 0 then ''-'' @ show_nat (nat (- i)) else show_nat (nat i))"

subsection \<open>Lemmas on strings\<close>

lemma str_includes_sublist: "str_includes s t \<longleftrightarrow> sublist t s"
  by (induction s) (auto simp: sublist_Cons_right)

lemma code_of_char_of [simp]: "n < 256 \<Longrightarrow> code_of (char_of n) = n"
  by (simp add: code_of_def)

lemma code_of_inject [simp]: "code_of c = code_of d \<longleftrightarrow> c = d"
  by (simp add: code_of_def)

lemma code_of_less: "code_of c < 256"
  by (simp add: code_of_def nat_of_char_less_256)

lemma lower_char_idem [simp]: "lower_char (lower_char c) = lower_char c"
  using code_of_less [of c]
  by (auto simp: lower_char_def is_upper_def in_range_def)

lemma is_lower_lower_char: "is_lower (lower_char c) \<Longrightarrow> is_lower c \<or> is_upper c"
  using code_of_less [of c]
  by (auto simp: lower_char_def is_upper_def is_lower_def in_range_def split: if_splits)

lemma to_lower_idem [simp]: "to_lower (to_lower s) = to_lower s"
  by (simp add: to_lower_def)

lemma to_lower_append [simp]: "to_lower (s @ t) = to_lower s @ to_lower t"
  by (simp add: to_lower_def)

lemma set_trim_subset: "set (trim s) \<subseteq> set s"
  by (auto simp: trim_def trim_end_def trim_start_def dest!: set_dropWhileD)

lemma is_digit_digit_char [simp]: "d < 10 \<Longrightarrow> is_digit (digit_char d)"
  by (simp add: is_digit_def in_range_def digit_char_def)

lemma show_nat_digits: "c \<in> set (show_nat n) \<Longrightarrow> is_digit c"
proof (induction n rule: show_nat.induct)
  case (1 n)
  then show ?case
    by (cases "n < 10") (auto simp: show_nat.simps [of n])
qed

lemma show_nat_not_Nil [simp]: "show_nat n \<noteq> []"
  by (subst show_nat.simps) simp

lemma split_on_not_Nil [simp]: "split_on d s \<noteq> []"
  by (cases s) (auto split: list.splits)

lemma join_Cons: "xs \<noteq> [] \<Longrightarrow> join sep (x # xs) = x @ sep @ join sep xs"
  by (cases xs) auto

lemma join_split_on: "join [d] (split_on d s) = s"
proof (induction s)
  case (Cons c s)
  then show ?case
    by (cases "split_on d s"; cases "tl (split_on d s)") (auto simp: join_Cons)
qed simp

lemma split_on_append_sep: "d \<notin> set l \<Longrightarrow> split_on d (l @ d # s) = l # split_on d s"
  by (induction l) auto

lemma split_on_single: "d \<notin> set l \<Longrightarrow> split_on d l = [l]"
  by (induction l) auto

lemma split_on_join: "ls \<noteq> [] \<Longrightarrow> (\<And>l. l \<in> set ls \<Longrightarrow> d \<notin> set l) \<Longrightarrow> split_on d (join [d] ls) = ls"
proof (induction ls)
  case (Cons l ls)
  then show ?case
    by (cases ls) (auto simp: split_on_single split_on_append_sep join_Cons)
qed simp

lemma split_on_no_sep: "l \<in> set (split_on d s) \<Longrightarrow> d \<notin> set l"
  by (induction d s arbitrary: l rule: split_on.induct) (auto split: list.splits if_splits)

lemma trim_snoc_space:
  assumes "is_space c"
  shows "trim (l @ [c]) = trim l"
proof (cases "\<forall>x \<in> set l. is_space x")
  case True
  then have "dropWhile is_space l = []" by simp
  with True assms show ?thesis by (auto simp: trim_def trim_start_def trim_end_def dest: set_dropWhileD)
qed (use assms in \<open>auto simp: trim_def trim_start_def trim_end_def dropWhile_append\<close>)

lemma set_join: "set (join sep xs) \<subseteq> set sep \<union> \<Union> (set ` set xs)"
  by (induction sep xs rule: join.induct) auto

subsection \<open>Insertion-ordered maps\<close>

text \<open>
  A \<open>Map\<close> and the own properties of an object keep their keys in insertion order; setting a
  key that is present replaces the value in place. \<open>AList.update\<close> does exactly this.
  \<open>new Map(entries)\<close> sets the entries one after the other.
\<close>

type_synonym ('k, 'v) jsmap = "('k \<times> 'v) list"

definition map_set :: "'k \<Rightarrow> 'v \<Rightarrow> ('k, 'v) jsmap \<Rightarrow> ('k, 'v) jsmap" where
  "map_set k v m = AList.update k v m"

definition map_delete :: "'k \<Rightarrow> ('k, 'v) jsmap \<Rightarrow> ('k, 'v) jsmap" where
  "map_delete k m = filter (\<lambda>e. fst e \<noteq> k) m"

definition map_new :: "('k \<times> 'v) list \<Rightarrow> ('k, 'v) jsmap" where
  "map_new es = fold (\<lambda>(k, v) m. map_set k v m) es []"

definition map_wf :: "('k, 'v) jsmap \<Rightarrow> bool" where
  "map_wf m \<longleftrightarrow> distinct (map fst m)"

lemma map_of_map_set [simp]: "map_of (map_set k v m) = (map_of m)(k \<mapsto> v)"
  by (simp add: map_set_def update_conv')

lemma map_set_Nil: "map_set k v [] = [(k, v)]"
  by (simp add: map_set_def)

lemma map_set_Cons: "map_set k v ((k', w) # m) = (if k' = k then (k, v) # m else (k', w) # map_set k v m)"
  by (simp add: map_set_def)

lemma map_wf_Nil [simp, intro]: "map_wf []"
  by (simp add: map_wf_def)

lemma map_wf_map_set [simp, intro]: "map_wf m \<Longrightarrow> map_wf (map_set k v m)"
  by (simp add: map_wf_def map_set_def distinct_update)

lemma map_wf_map_delete [simp, intro]: "map_wf m \<Longrightarrow> map_wf (map_delete k m)"
  by (simp add: map_wf_def map_delete_def distinct_map_filter)

lemma map_of_map_delete [simp]: "map_of (map_delete k m) = (map_of m)(k := None)"
  by (induction m) (auto simp: map_delete_def)

lemma keys_map_set: "fst ` set (map_set k v m) = insert k (fst ` set m)"
  by (simp add: map_set_def dom_update)

lemma fold_map_set_wf: "map_wf m \<Longrightarrow> map_wf (fold (\<lambda>(k, v) m. map_set k v m) es m)"
  by (induction es arbitrary: m) auto

lemma map_wf_map_new [simp, intro]: "map_wf (map_new es)"
  by (simp add: map_new_def fold_map_set_wf)

lemma map_set_fresh: "k \<notin> fst ` set m \<Longrightarrow> map_set k v m = m @ [(k, v)]"
  by (induction m) (auto simp: map_set_def)

lemma fold_map_set_fresh:
  "distinct (map fst es) \<Longrightarrow> fst ` set es \<inter> fst ` set m = {} \<Longrightarrow>
   fold (\<lambda>(k, v) m. map_set k v m) es m = m @ es"
proof (induction es arbitrary: m)
  case (Cons e es)
  obtain k v where e: "e = (k, v)" by (cases e)
  have "map_set k v m = m @ [(k, v)]"
    using Cons.prems e by (intro map_set_fresh) auto
  moreover have "fst ` set es \<inter> fst ` set (m @ [(k, v)]) = {}"
    using Cons.prems e by auto
  ultimately show ?case
    using Cons.IH [of "m @ [(k, v)]"] Cons.prems(1) e by simp
qed simp

lemma map_set_map: "map (\<lambda>(k, v). (k, f v)) (map_set k v m) = map_set k (f v) (map (\<lambda>(k, v). (k, f v)) m)"
  by (induction m) (auto simp: map_set_def)

lemma map_delete_map: "map (\<lambda>(k, v). (k, f v)) (map_delete k m) = map_delete k (map (\<lambda>(k, v). (k, f v)) m)"
  by (induction m) (auto simp: map_delete_def)

lemma set_map_set: "set (map_set k v m) \<subseteq> insert (k, v) (set m)"
proof (induction m)
  case (Cons e m)
  then show ?case by (cases e) (auto simp: map_set_def)
qed (simp add: map_set_def)

lemma set_map_delete: "set (map_delete k m) \<subseteq> set m"
  by (auto simp: map_delete_def)

text \<open>Building a map from the entries of a map gives that map back.\<close>

lemma map_new_wf_id: "map_wf m \<Longrightarrow> map_new m = m"
  using fold_map_set_fresh [of m "[]"] by (simp add: map_new_def map_wf_def)

lemma map_of_fold_map_set:
  "map_of (fold (\<lambda>(k, v) m. map_set k v m) es m) = map_of m ++ map_of (rev es)"
  by (induction es arbitrary: m) (auto simp: map_add_def fun_eq_iff split: option.splits)

lemma map_of_map_new: "map_of (map_new es) = map_of (rev es)"
  by (simp add: map_new_def map_of_fold_map_set)

subsection \<open>Computations that may throw\<close>

text \<open>
  A computation on a store \<open>'s\<close> returns the thrown error or the value, and the store it leaves
  behind in both cases: an exception does not undo the writes that came before it.
\<close>

type_synonym ('s, 'e, 'a) io = "'s \<Rightarrow> ('e + 'a) \<times> 's"

definition ret :: "'a \<Rightarrow> ('s, 'e, 'a) io" where
  "ret x = (\<lambda>s. (Inr x, s))"

definition throw :: "'e \<Rightarrow> ('s, 'e, 'a) io" where
  "throw e = (\<lambda>s. (Inl e, s))"

definition bind :: "('s, 'e, 'a) io \<Rightarrow> ('a \<Rightarrow> ('s, 'e, 'b) io) \<Rightarrow> ('s, 'e, 'b) io" where
  "bind m f = (\<lambda>s. case m s of (Inl e, s') \<Rightarrow> (Inl e, s') | (Inr x, s') \<Rightarrow> f x s')"

lemma ret_apply [simp]: "ret x s = (Inr x, s)"
  by (simp add: ret_def)

lemma throw_apply [simp]: "throw e s = (Inl e, s)"
  by (simp add: throw_def)

lemma bind_Inr [simp]: "m s = (Inr x, s') \<Longrightarrow> bind m f s = f x s'"
  by (simp add: bind_def)

lemma bind_Inl [simp]: "m s = (Inl e, s') \<Longrightarrow> bind m f s = (Inl e, s')"
  by (simp add: bind_def)

lemma bind_assoc: "bind (bind m f) g = bind m (\<lambda>x. bind (f x) g)"
  by (auto simp: bind_def fun_eq_iff split: sum.splits prod.splits)

declare bind_def [run_defs]

subsection \<open>Lists\<close>

lemma map_id_iff: "map f xs = xs \<longleftrightarrow> list_all (\<lambda>x. f x = x) xs"
  by (induction xs) auto

lemma map_filter_id_iff: "map f (filter P xs) = xs \<longleftrightarrow> (\<forall>x\<in>set xs. P x \<and> f x = x)"
proof (induction xs)
  case (Cons x xs)
  have "length (map f (filter P xs)) < length (x # xs)" by (simp add: le_imp_less_Suc)
  then have "map f (filter P xs) \<noteq> x # xs" by (metis less_irrefl)
  with Cons show ?case by auto
qed simp

lemma list_all_update: "list_all P xs \<Longrightarrow> P y \<Longrightarrow> list_all P (xs[i := y])"
  by (auto simp: list_all_iff dest: set_update_subset_insert [THEN subsetD])

end
