(* ===== verification/Js_Value.thy ===== *)
theory Js_Value
  imports Prelude
begin

text \<open>
  Values of the JavaScript runtime as the sources handle them: numbers (IEEE doubles as exact
  rationals with the special values), dates, strings, arrays and plain objects, with property
  access, object spread, truthiness, conversion to numbers and strings and what survives a
  \<open>JSON.stringify\<close> followed by a \<open>JSON.parse\<close>. The two zeros of IEEE are one value here.
\<close>

subsection \<open>Numbers\<close>

datatype jsnum = NaN | PosInf | NegInf | Fin rat

fun ilog2 :: "nat \<Rightarrow> nat" where
  "ilog2 n = (if n \<le> 1 then 0 else Suc (ilog2 (n div 2)))"

declare ilog2.simps [simp del]

definition pow2 :: "int \<Rightarrow> rat" where
  "pow2 e = (if 0 \<le> e then 2 ^ nat e else 1 / 2 ^ nat (- e))"

definition pow10 :: "int \<Rightarrow> rat" where
  "pow10 e = (if 0 \<le> e then 10 ^ nat e else 1 / 10 ^ nat (- e))"

text \<open>The binary exponent of a positive rational.\<close>

definition rat_log2 :: "rat \<Rightarrow> int" where
  "rat_log2 x =
     (let (p, q) = quotient_of x; e = int (ilog2 (nat p)) - int (ilog2 (nat q))
      in if pow2 e \<le> x then e else e - 1)"

definition round_even :: "rat \<Rightarrow> int" where
  "round_even x =
     (let f = \<lfloor>x\<rfloor>; d = x - of_int f
      in if d < 1 / 2 then f else if 1 / 2 < d then f + 1 else if even f then f else f + 1)"

text \<open>Rounding of an exact value to the nearest double, ties to even.\<close>

definition round_double :: "rat \<Rightarrow> jsnum" where
  "round_double x =
     (if x = 0 then Fin 0
      else let a = \<bar>x\<bar>; q = max (rat_log2 a - 52) (- 1074);
               y = of_int (round_even (a / pow2 q)) * pow2 q
           in if pow2 1024 \<le> y then (if x < 0 then NegInf else PosInf)
              else Fin (if x < 0 then - y else y))"

text \<open>\<open>Number.isInteger\<close>, \<open>Number.isFinite\<close>, \<open>Math.trunc\<close>.\<close>

fun num_is_integer :: "jsnum \<Rightarrow> bool" where
  "num_is_integer (Fin x) = (of_int \<lfloor>x\<rfloor> = x)"
| "num_is_integer _ = False"

fun num_is_finite :: "jsnum \<Rightarrow> bool" where
  "num_is_finite (Fin x) = True"
| "num_is_finite _ = False"

definition rat_trunc :: "rat \<Rightarrow> rat" where
  "rat_trunc x = (if 0 \<le> x then of_int \<lfloor>x\<rfloor> else of_int \<lceil>x\<rceil>)"

subsection \<open>From strings to numbers\<close>

definition digit_val :: "char \<Rightarrow> nat" where
  "digit_val c =
     (if is_digit c then code_of c - 48
      else if is_upper c then code_of c - 55
      else if is_lower c then code_of c - 87 else 99)"

definition digits_val :: "nat \<Rightarrow> string \<Rightarrow> nat" where
  "digits_val b ds = fold (\<lambda>c acc. acc * b + digit_val c) ds 0"

text \<open>The exponent part of a decimal literal: absent, or \<open>e\<close>, a sign and digits.\<close>

fun exponent_part :: "string \<Rightarrow> int option" where
  "exponent_part [] = Some 0"
| "exponent_part (c # r) =
     (if c = CHR ''e'' \<or> c = CHR ''E''
      then let neg = (r \<noteq> [] \<and> hd r = CHR ''-'');
               ds = (if r \<noteq> [] \<and> (hd r = CHR ''-'' \<or> hd r = CHR ''+'') then tl r else r)
           in if ds \<noteq> [] \<and> list_all is_digit ds
              then Some (if neg then - int (digits_val 10 ds) else int (digits_val 10 ds))
              else None
      else None)"

definition unsigned_decimal :: "string \<Rightarrow> jsnum" where
  "unsigned_decimal s =
     (if s = ''Infinity'' then PosInf
      else let ip = takeWhile is_digit s; r1 = dropWhile is_digit s;
               dot = (r1 \<noteq> [] \<and> hd r1 = CHR ''.'');
               fp = (if dot then takeWhile is_digit (tl r1) else []);
               r2 = (if dot then dropWhile is_digit (tl r1) else r1)
           in if ip = [] \<and> fp = [] then NaN
              else (case exponent_part r2 of None \<Rightarrow> NaN
                    | Some e \<Rightarrow>
                        round_double (of_nat (digits_val 10 (ip @ fp)) * pow10 (e - int (length fp)))))"

fun num_neg :: "jsnum \<Rightarrow> jsnum" where
  "num_neg (Fin x) = Fin (- x)"
| "num_neg PosInf = NegInf"
| "num_neg NegInf = PosInf"
| "num_neg NaN = NaN"

definition radix_literal :: "nat \<Rightarrow> string \<Rightarrow> jsnum" where
  "radix_literal b ds =
     (if ds \<noteq> [] \<and> list_all (\<lambda>c. is_alnum c \<and> digit_val c < b) ds
      then round_double (of_nat (digits_val b ds)) else NaN)"

text \<open>\<open>Number(s)\<close> for a string \<open>s\<close>.\<close>

definition js_Number :: "string \<Rightarrow> jsnum" where
  "js_Number s =
     (let t = trim s in
      if t = [] then Fin 0
      else if prefix ''0x'' t \<or> prefix ''0X'' t then radix_literal 16 (drop 2 t)
      else if prefix ''0o'' t \<or> prefix ''0O'' t then radix_literal 8 (drop 2 t)
      else if prefix ''0b'' t \<or> prefix ''0B'' t then radix_literal 2 (drop 2 t)
      else if hd t = CHR ''-'' then num_neg (unsigned_decimal (tl t))
      else if hd t = CHR ''+'' then unsigned_decimal (tl t)
      else unsigned_decimal t)"

subsection \<open>From numbers to strings\<close>

text \<open>
  \<open>Number.prototype.toString\<close>: integers up to \<open>2^53\<close> in plain decimal; any other finite value
  by its shortest digit string that reads back as the same double, found by trying 1 to 17
  digits (17 always suffice for a double).
\<close>

definition dec_exp :: "rat \<Rightarrow> int" where
  "dec_exp x =
     (let e0 = (rat_log2 x * 30103) div 100000
      in if pow10 (e0 + 1) \<le> x then e0 + 2 else if pow10 e0 \<le> x then e0 + 1 else e0)"

text \<open>The digit string of length \<open>k\<close> closest to \<open>x\<close>, with its exponent: rounding up to a power of ten moves the exponent.\<close>

definition closest_digits :: "rat \<Rightarrow> int \<Rightarrow> nat \<Rightarrow> (nat \<times> int) option" where
  "closest_digits x n k =
     (let y = x / pow10 (n - int k); lo = \<lfloor>y\<rfloor>; hi = lo + 1;
          ok = (\<lambda>s. 10 ^ (k - 1) \<le> s \<and> s \<le> 10 ^ k \<and>
                     round_double (of_int s * pow10 (n - int k)) = Fin x);
          pack = (\<lambda>s. if s = 10 ^ k then (10 ^ (k - 1), n + 1) else (nat s, n))
      in if ok lo \<and> ok hi then Some (pack (if y - of_int lo \<le> of_int hi - y then lo else hi))
         else if ok lo then Some (pack lo) else if ok hi then Some (pack hi) else None)"

fun shortest_digits :: "nat \<Rightarrow> nat \<Rightarrow> rat \<Rightarrow> int \<Rightarrow> nat \<times> nat \<times> int" where
  "shortest_digits 0 k x n = (nat (round_even (x / pow10 (n - 17))), 17, n)"
| "shortest_digits (Suc fuel) k x n =
     (case closest_digits x n k of Some (s, n') \<Rightarrow> (s, k, n')
      | None \<Rightarrow> shortest_digits fuel (Suc k) x n)"

definition show_positive :: "rat \<Rightarrow> string" where
  "show_positive x =
     (let (s, k, n) = shortest_digits 17 1 x (dec_exp x); ds = show_nat s
      in if int k \<le> n \<and> n \<le> 21 then ds @ replicate (nat n - k) CHR ''0''
         else if 0 < n \<and> n \<le> 21 then take (nat n) ds @ ''.'' @ drop (nat n) ds
         else if - 6 < n \<and> n \<le> 0 then ''0.'' @ replicate (nat (- n)) CHR ''0'' @ ds
         else (if k = 1 then ds else take 1 ds @ ''.'' @ drop 1 ds) @ ''e'' @
              (if 0 < n then ''+'' else ''-'') @ show_nat (nat \<bar>n - 1\<bar>))"

definition num_to_string :: "jsnum \<Rightarrow> string" where
  "num_to_string n =
     (case n of NaN \<Rightarrow> ''NaN'' | PosInf \<Rightarrow> ''Infinity'' | NegInf \<Rightarrow> ''-Infinity''
      | Fin x \<Rightarrow>
          if of_int \<lfloor>x\<rfloor> = x \<and> \<bar>x\<bar> \<le> 2 ^ 53 then show_int \<lfloor>x\<rfloor>
          else if x < 0 then ''-'' @ show_positive (- x) else show_positive x)"

subsection \<open>Dates\<close>

text \<open>
  A date is its time value in milliseconds since 1970. \<open>to_iso\<close> is \<open>toISOString\<close>, computed as
  ECMAScript specifies it; \<open>date_parse\<close> reads the date strings \<open>toISOString\<close> writes for the
  years 0 to 9999 (the only date strings the program stores) and gives \<open>None\<close>, an invalid
  date, for any other string.
\<close>

definition day_from_year :: "int \<Rightarrow> int" where
  "day_from_year y =
     365 * (y - 1970) + (y - 1969) div 4 - (y - 1901) div 100 + (y - 1601) div 400"

definition year_from_day :: "int \<Rightarrow> int" where
  "year_from_day d =
     (let y = 1970 + (d * 400) div 146097
      in if day_from_year (y + 1) \<le> d then y + 1 else if d < day_from_year y then y - 1 else y)"

definition leap :: "int \<Rightarrow> bool" where
  "leap y \<longleftrightarrow> y mod 4 = 0 \<and> (y mod 100 \<noteq> 0 \<or> y mod 400 = 0)"

text \<open>Days before the first of each month, and the month (from 1) of a day of the year.\<close>

definition month_starts :: "bool \<Rightarrow> int list" where
  "month_starts l =
     (if l then [0, 31, 60, 91, 121, 152, 182, 213, 244, 274, 305, 335]
      else [0, 31, 59, 90, 120, 151, 181, 212, 243, 273, 304, 334])"

definition month_of :: "bool \<Rightarrow> int \<Rightarrow> nat" where
  "month_of l d = length (filter (\<lambda>s. s \<le> d) (month_starts l))"

definition pad :: "nat \<Rightarrow> nat \<Rightarrow> string" where
  "pad w n = (let s = show_nat n in replicate (w - length s) CHR ''0'' @ s)"

definition to_iso :: "int \<Rightarrow> string" where
  "to_iso t =
     (let d = t div 86400000; ms = t mod 86400000; y = year_from_day d;
          dy = d - day_from_year y; m = month_of (leap y) dy;
          dm = nat (dy - month_starts (leap y) ! (m - 1) + 1)
      in (if 0 \<le> y \<and> y \<le> 9999 then pad 4 (nat y)
          else (if y < 0 then ''-'' else ''+'') @ pad 6 (nat \<bar>y\<bar>)) @
         ''-'' @ pad 2 m @ ''-'' @ pad 2 dm @ ''T'' @
         pad 2 (nat (ms div 3600000)) @ '':'' @ pad 2 (nat (ms div 60000 mod 60)) @ '':'' @
         pad 2 (nat (ms div 1000 mod 60)) @ ''.'' @ pad 3 (nat (ms mod 1000)) @ ''Z'')"

definition date_parse :: "string \<Rightarrow> int option" where
  "date_parse s =
     (if length s = 24 \<and> list_all (\<lambda>i. is_digit (s ! i)) [0, 1, 2, 3, 5, 6, 8, 9, 11, 12, 14, 15, 17, 18, 20, 21, 22]
         \<and> s ! 4 = CHR ''-'' \<and> s ! 7 = CHR ''-'' \<and> s ! 10 = CHR ''T'' \<and> s ! 13 = CHR '':''
         \<and> s ! 16 = CHR '':'' \<and> s ! 19 = CHR ''.'' \<and> s ! 23 = CHR ''Z''
      then let num = (\<lambda>i n. int (digits_val 10 (take n (drop i s))));
               y = num 0 4; m = num 5 2; d = num 8 2
           in if 1 \<le> m \<and> m \<le> 12 \<and> 1 \<le> d \<and> d \<le> 31 \<and> num 11 2 \<le> 23 \<and> num 14 2 \<le> 59 \<and> num 17 2 \<le> 59
              then Some ((day_from_year y + month_starts (leap y) ! nat (m - 1) + d - 1) * 86400000
                         + num 11 2 * 3600000 + num 14 2 * 60000 + num 17 2 * 1000 + num 20 3)
              else None
      else None)"

subsection \<open>Values\<close>

text \<open>
  \<open>JDate None\<close> is an invalid date. An object is its list of own enumerable string-keyed
  properties in insertion order.
\<close>

datatype js =
    JUndef
  | JNull
  | JBool bool
  | JNum jsnum
  | JStr string
  | JDate "int option"
  | JArr "js list"
  | JObj "(string \<times> js) list"

type_synonym props = "(string \<times> js) list"

definition jint :: "int \<Rightarrow> js" where
  "jint i = JNum (Fin (of_int i))"

fun truthy :: "js \<Rightarrow> bool" where
  "truthy JUndef = False"
| "truthy JNull = False"
| "truthy (JBool b) = b"
| "truthy (JNum n) = (n \<noteq> NaN \<and> n \<noteq> Fin 0)"
| "truthy (JStr s) = (s \<noteq> [])"
| "truthy (JDate _) = True"
| "truthy (JArr _) = True"
| "truthy (JObj _) = True"

fun is_str :: "js \<Rightarrow> bool" where
  "is_str (JStr _) = True"
| "is_str _ = False"

fun is_obj :: "js \<Rightarrow> bool" where
  "is_obj (JObj _) = True"
| "is_obj _ = False"

fun str_of :: "js \<Rightarrow> string" where
  "str_of (JStr s) = s"
| "str_of _ = []"

fun elems_of :: "js \<Rightarrow> js list" where
  "elems_of (JArr xs) = xs"
| "elems_of _ = []"

fun props_of :: "js \<Rightarrow> props" where
  "props_of (JObj ps) = ps"
| "props_of _ = []"

text \<open>The own enumerable properties spread syntax copies, of values that are not plain objects too.\<close>

fun own_props :: "js \<Rightarrow> props" where
  "own_props (JObj ps) = ps"
| "own_props (JArr xs) = zip (map show_nat [0..<length xs]) xs"
| "own_props (JStr s) = zip (map show_nat [0..<length s]) (map (\<lambda>c. JStr [c]) s)"
| "own_props _ = []"

text \<open>Property read of an object; a missing property is \<open>undefined\<close>.\<close>

definition pget :: "props \<Rightarrow> string \<Rightarrow> js" where
  "pget ps k = (case map_of ps k of Some v \<Rightarrow> v | None \<Rightarrow> JUndef)"

definition get :: "js \<Rightarrow> string \<Rightarrow> js" where
  "get v k = pget (props_of v) k"

definition set_prop :: "string \<Rightarrow> js \<Rightarrow> js \<Rightarrow> js" where
  "set_prop k x v = (case v of JObj ps \<Rightarrow> JObj (map_set k x ps) | _ \<Rightarrow> v)"

text \<open>\<open>{...a, ...b}\<close>; spreading \<open>undefined\<close> or \<open>null\<close> adds nothing.\<close>

definition spread :: "props \<Rightarrow> props \<Rightarrow> props" where
  "spread a b = fold (\<lambda>(k, v) m. map_set k v m) b a"

text \<open>Template interpolation. No template of the sources interpolates a date.\<close>

fun js_to_string :: "js \<Rightarrow> string" where
  "js_to_string JUndef = ''undefined''"
| "js_to_string JNull = ''null''"
| "js_to_string (JBool b) = (if b then ''true'' else ''false'')"
| "js_to_string (JNum n) = num_to_string n"
| "js_to_string (JStr s) = s"
| "js_to_string (JDate None) = ''Invalid Date''"
| "js_to_string (JDate (Some t)) = to_iso t"
| "js_to_string (JArr xs) =
     join '','' (map (\<lambda>x. if x = JUndef \<or> x = JNull then [] else js_to_string x) xs)"
| "js_to_string (JObj _) = ''[object Object]''"

subsection \<open>JSON\<close>

text \<open>
  What \<open>JSON.parse\<close> reads back from the text \<open>JSON.stringify\<close> writes for a value: undefined
  properties are dropped, undefined array elements and non-finite numbers become \<open>null\<close>, and
  dates become their ISO strings.
\<close>

fun json_val :: "js \<Rightarrow> js" where
  "json_val JUndef = JNull"
| "json_val (JNum n) = (if num_is_finite n then JNum n else JNull)"
| "json_val (JDate None) = JNull"
| "json_val (JDate (Some t)) = JStr (to_iso t)"
| "json_val (JArr xs) = JArr (map json_val xs)"
| "json_val (JObj ps) =
     JObj (map (\<lambda>(k, v). (k, json_val v)) (filter (\<lambda>(k, v). v \<noteq> JUndef) ps))"
| "json_val v = v"

text \<open>
  A stored text, up to what the sources observe of it: whether it is empty, and what
  \<open>JSON.parse\<close> makes of it (a value, or an exception).
\<close>

datatype json_text = EmptyText | Malformed | Text js

definition json_stringify :: "js \<Rightarrow> json_text" where
  "json_stringify v = Text (json_val v)"

fun json_parse :: "json_text \<Rightarrow> js option" where
  "json_parse (Text v) = Some v"
| "json_parse _ = None"

subsection \<open>Errors\<close>

text \<open>
  What the sources throw: plain errors, validation errors of the schema library (with their
  issues: path and message, and the message text the library gives the error), remote execution
  errors with a code, and secrets repository errors with a code.
\<close>

record issue =
  issue_path :: "string list"
  issue_message :: string

datatype js_error =
    Error string
  | ZodError "issue list" string
  | RemoteExecutionError string string
  | SecretsRepositoryError string string
  | Thrown js

text \<open>\<open>error instanceof Error\<close> and \<open>error.message\<close>.\<close>

fun is_error :: "js_error \<Rightarrow> bool" where
  "is_error (Thrown _) = False"
| "is_error _ = True"

fun err_message :: "js_error \<Rightarrow> string" where
  "err_message (Error m) = m"
| "err_message (ZodError _ m) = m"
| "err_message (RemoteExecutionError m _) = m"
| "err_message (SecretsRepositoryError m _) = m"
| "err_message (Thrown v) = js_to_string (get v ''message'')"

subsection \<open>Lemmas on values\<close>

lemma get_JObj [simp]: "get (JObj ps) k = pget ps k"
  by (simp add: get_def)

lemma pget_Nil [simp]: "pget [] k = JUndef"
  by (simp add: pget_def)

lemma pget_Cons [simp]: "pget ((k', v) # ps) k = (if k = k' then v else pget ps k)"
  by (simp add: pget_def)

lemma pget_map_set [simp]: "pget (map_set k v ps) k' = (if k' = k then v else pget ps k')"
  by (simp add: pget_def)

lemma pget_spread: "pget (spread a b) k = (case map_of (rev b) k of Some v \<Rightarrow> v | None \<Rightarrow> pget a k)"
  by (simp add: spread_def pget_def map_of_fold_map_set map_add_def split: option.splits)

lemma spread_Nil [simp]: "spread a [] = a"
  by (simp add: spread_def)

lemma spread_Cons [simp]: "spread a ((k, v) # b) = spread (map_set k v a) b"
  by (simp add: spread_def)

lemma keys_spread: "fst ` set (spread a b) = fst ` set a \<union> fst ` set b"
proof (induction b arbitrary: a)
  case (Cons e b)
  then show ?case by (cases e) (simp add: keys_map_set)
qed simp

lemma map_wf_spread [simp, intro]: "map_wf a \<Longrightarrow> map_wf (spread a b)"
  by (simp add: spread_def fold_map_set_wf)

lemma map_of_map_filter:
  "map_of ps k = Some v \<Longrightarrow> P k v \<Longrightarrow> map_of (map (\<lambda>(k, v). (k, f v)) (filter (\<lambda>(k, v). P k v) ps)) k = Some (f v)"
  by (induction ps) (auto split: if_splits)

lemma pget_map_filter:
  "pget ps k = v \<Longrightarrow> v \<noteq> JUndef \<Longrightarrow> P k v \<Longrightarrow>
   pget (map (\<lambda>(k, v). (k, f v)) (filter (\<lambda>(k, v). P k v) ps)) k = f v"
  by (auto simp: pget_def map_of_map_filter split: option.splits)

lemma pget_in_set: "pget ps k \<noteq> JUndef \<Longrightarrow> (k, pget ps k) \<in> set ps"
  by (auto simp: pget_def split: option.splits dest: map_of_SomeD)

lemma is_str_iff: "is_str v \<longleftrightarrow> (\<exists>s. v = JStr s)"
  by (cases v) auto

lemma json_val_idem [simp]: "json_val (json_val v) = json_val v"
proof (induction v rule: json_val.induct)
  case (6 ps)
  have "json_val x \<noteq> JUndef" for x
    by (cases x rule: json_val.cases) auto
  then have "filter (\<lambda>(k, v). v \<noteq> JUndef)
      (map (\<lambda>(k, v). (k, json_val v)) (filter (\<lambda>(k, v). v \<noteq> JUndef) ps))
      = map (\<lambda>(k, v). (k, json_val v)) (filter (\<lambda>(k, v). v \<noteq> JUndef) ps)"
    by (auto simp: filter_id_conv)
  with 6 show ?case by (auto simp: case_prod_beta)
qed auto

end
