(* ===== verification/Js_Regex.thy ===== *)
theory Js_Regex
  imports Js_Value
begin

text \<open>
  Regular expressions as ECMAScript runs them. \<open>ms r\<close> gives every way \<open>r\<close> can match at a
  position, in the order the backtracking matcher tries them, so the head of the list is the
  match JavaScript reports. \<open>matches\<close> is the declarative reading of the same expression (with
  the text before and after, for word boundaries and anchors), and \<open>ms_sound\<close> and
  \<open>ms_complete\<close> relate the two. On top of it: \<open>test\<close> and the global \<open>replace\<close>.
\<close>

subsection \<open>Syntax and matcher\<close>

datatype re =
    Eps
  | Chr "char \<Rightarrow> bool"
  | Seq re re
  | Alt re re
  | Star re
  | LazyStar re
  | Cap nat re
  | WordB
  | Bol
  | Eol

text \<open>
  A matcher state: the characters before the position (last one first), the characters after
  it, and the captured groups.
\<close>

type_synonym caps = "(nat \<times> string) list"
type_synonym mstate = "string \<times> string \<times> caps"

definition is_word :: "char \<Rightarrow> bool" where
  "is_word c \<longleftrightarrow> is_alnum c \<or> c = CHR ''_''"

definition at_word :: "string \<Rightarrow> bool" where
  "at_word s \<longleftrightarrow> s \<noteq> [] \<and> is_word (hd s)"

definition boundary :: "string \<Rightarrow> string \<Rightarrow> bool" where
  "boundary p s \<longleftrightarrow> at_word p \<noteq> at_word s"

text \<open>
  The repetition of a matcher: each further round must consume something, as \<open>RepeatMatcher\<close>
  demands, so as many rounds as there are characters left are enough.
\<close>

fun star_ms :: "bool \<Rightarrow> (mstate \<Rightarrow> mstate list) \<Rightarrow> nat \<Rightarrow> mstate \<Rightarrow> mstate list" where
  "star_ms greedy f 0 s = [s]"
| "star_ms greedy f (Suc n) s =
     (let more = concat (map (star_ms greedy f n)
                   (filter (\<lambda>s'. length (fst (snd s')) < length (fst (snd s))) (f s)))
      in if greedy then more @ [s] else s # more)"

fun ms :: "re \<Rightarrow> mstate \<Rightarrow> mstate list" where
  "ms Eps s = [s]"
| "ms (Chr f) (p, [], c) = []"
| "ms (Chr f) (p, x # xs, c) = (if f x then [(x # p, xs, c)] else [])"
| "ms (Seq r1 r2) s = concat (map (ms r2) (ms r1 s))"
| "ms (Alt r1 r2) s = ms r1 s @ ms r2 s"
| "ms (Star r) s = star_ms True (ms r) (length (fst (snd s))) s"
| "ms (LazyStar r) s = star_ms False (ms r) (length (fst (snd s))) s"
| "ms (Cap n r) (p, s, c) =
     map (\<lambda>(p', s', c'). (p', s', (n, take (length s - length s') s) # c')) (ms r (p, s, c))"
| "ms WordB (p, s, c) = (if boundary p s then [(p, s, c)] else [])"
| "ms Bol (p, s, c) = (if p = [] then [(p, s, c)] else [])"
| "ms Eol (p, s, c) = (if s = [] then [(p, s, c)] else [])"

subsection \<open>Derived expressions\<close>

definition Opt :: "re \<Rightarrow> re" where
  "Opt r = Alt r Eps"

definition Plus :: "re \<Rightarrow> re" where
  "Plus r = Seq r (Star r)"

text \<open>\<open>r{0,n}\<close>, greedy.\<close>

fun Upto :: "nat \<Rightarrow> re \<Rightarrow> re" where
  "Upto 0 r = Eps"
| "Upto (Suc n) r = Alt (Seq r (Upto n r)) Eps"

text \<open>A literal, and a lower-case literal read with the \<open>i\<close> flag.\<close>

fun lit :: "string \<Rightarrow> re" where
  "lit [] = Eps"
| "lit (c # w) = Seq (Chr (\<lambda>d. d = c)) (lit w)"

fun ilit :: "string \<Rightarrow> re" where
  "ilit [] = Eps"
| "ilit (c # w) = Seq (Chr (\<lambda>d. lower_char d = c)) (ilit w)"

fun alts :: "re list \<Rightarrow> re" where
  "alts [] = Chr (\<lambda>_. False)"
| "alts [r] = r"
| "alts (r # r' # rs) = Alt r (alts (r' # rs))"

fun seqs :: "re list \<Rightarrow> re" where
  "seqs [] = Eps"
| "seqs [r] = r"
| "seqs (r # r' # rs) = Seq r (seqs (r' # rs))"

abbreviation one_of :: "string \<Rightarrow> re" where
  "one_of cs \<equiv> Chr (\<lambda>d. d \<in> set cs)"

abbreviation spaces :: re where
  "spaces \<equiv> Star (Chr is_space)"

subsection \<open>\<open>test\<close> and global \<open>replace\<close>\<close>

fun search :: "re \<Rightarrow> string \<Rightarrow> string \<Rightarrow> mstate option" where
  "search r p s =
     (case ms r (p, s, []) of
        m # _ \<Rightarrow> Some m
      | [] \<Rightarrow> (case s of [] \<Rightarrow> None | c # s' \<Rightarrow> search r (c # p) s'))"

declare search.simps [simp del]

definition test :: "re \<Rightarrow> string \<Rightarrow> bool" where
  "test r s \<longleftrightarrow> search r [] s \<noteq> None"

text \<open>
  \<open>replace\<close> with the \<open>g\<close> flag. The replacer is given the offset of the match, the matched
  text and the captured groups. After an empty match the position moves on by one character.
\<close>

function replace_from :: "re \<Rightarrow> (nat \<Rightarrow> string \<Rightarrow> caps \<Rightarrow> string) \<Rightarrow> string \<Rightarrow> string \<Rightarrow> string" where
  "replace_from r f p s =
     (case ms r (p, s, []) of
        (p', s', c) # _ \<Rightarrow>
          if length s' < length s
          then f (length p) (take (length s - length s') s) c @ replace_from r f p' s'
          else f (length p) [] c @ (case s of [] \<Rightarrow> [] | x # xs \<Rightarrow> x # replace_from r f (x # p) xs)
      | [] \<Rightarrow> (case s of [] \<Rightarrow> [] | x # xs \<Rightarrow> x # replace_from r f (x # p) xs))"
  by pat_completeness auto
termination
  by (relation "measure (\<lambda>(r, f, p, s). length s)") auto

declare replace_from.simps [simp del]

definition replace_all :: "re \<Rightarrow> (nat \<Rightarrow> string \<Rightarrow> caps \<Rightarrow> string) \<Rightarrow> string \<Rightarrow> string" where
  "replace_all r f s = replace_from r f [] s"

subsection \<open>Declarative reading\<close>

text \<open>
  \<open>matches r p w v\<close>: the expression matches the text \<open>w\<close> that stands after \<open>p\<close> (reversed) and
  before \<open>v\<close>.
\<close>

inductive starm :: "(string \<Rightarrow> string \<Rightarrow> string \<Rightarrow> bool) \<Rightarrow> string \<Rightarrow> string \<Rightarrow> string \<Rightarrow> bool"
  for R where
  starm_Nil: "starm R p [] v"
| starm_Cons: "R p w1 (w2 @ v) \<Longrightarrow> w1 \<noteq> [] \<Longrightarrow> starm R (rev w1 @ p) w2 v \<Longrightarrow> starm R p (w1 @ w2) v"

primrec matches :: "re \<Rightarrow> string \<Rightarrow> string \<Rightarrow> string \<Rightarrow> bool" where
  "matches Eps p w v = (w = [])"
| "matches (Chr f) p w v = (\<exists>c. w = [c] \<and> f c)"
| "matches (Seq r1 r2) p w v =
     (\<exists>w1 w2. w = w1 @ w2 \<and> matches r1 p w1 (w2 @ v) \<and> matches r2 (rev w1 @ p) w2 v)"
| "matches (Alt r1 r2) p w v = (matches r1 p w v \<or> matches r2 p w v)"
| "matches (Star r) p w v = starm (matches r) p w v"
| "matches (LazyStar r) p w v = starm (matches r) p w v"
| "matches (Cap n r) p w v = matches r p w v"
| "matches WordB p w v = (w = [] \<and> boundary p v)"
| "matches Bol p w v = (w = [] \<and> p = [])"
| "matches Eol p w v = (w = [] \<and> v = [])"

inductive_cases starm_elim: "starm R p w v"

subsection \<open>Soundness and completeness of the matcher\<close>

text \<open>\<open>reads M f\<close>: whatever the matcher \<open>f\<close> returns is a match in the sense of \<open>M\<close>.\<close>

definition reads :: "(string \<Rightarrow> string \<Rightarrow> string \<Rightarrow> bool) \<Rightarrow> (mstate \<Rightarrow> mstate list) \<Rightarrow> bool" where
  "reads M f \<longleftrightarrow>
     (\<forall>p s c p' v c'. (p', v, c') \<in> set (f (p, s, c)) \<longrightarrow>
        (\<exists>w. s = w @ v \<and> p' = rev w @ p \<and> M p w v))"

definition finds :: "(string \<Rightarrow> string \<Rightarrow> string \<Rightarrow> bool) \<Rightarrow> (mstate \<Rightarrow> mstate list) \<Rightarrow> bool" where
  "finds M f \<longleftrightarrow>
     (\<forall>p w v c. M p w v \<longrightarrow> (\<exists>c'. (rev w @ p, v, c') \<in> set (f (p, w @ v, c))))"

lemma readsD:
  "reads M f \<Longrightarrow> (p', v, c') \<in> set (f (p, s, c)) \<Longrightarrow> \<exists>w. s = w @ v \<and> p' = rev w @ p \<and> M p w v"
  unfolding reads_def by blast

lemma findsD: "finds M f \<Longrightarrow> M p w v \<Longrightarrow> \<exists>c'. (rev w @ p, v, c') \<in> set (f (p, w @ v, c))"
  unfolding finds_def by blast

lemma readsI:
  "(\<And>p s c p' v c'. (p', v, c') \<in> set (f (p, s, c)) \<Longrightarrow>
      \<exists>w. s = w @ v \<and> p' = rev w @ p \<and> M p w v) \<Longrightarrow> reads M f"
  unfolding reads_def by blast

lemma findsI:
  "(\<And>p w v c. M p w v \<Longrightarrow> \<exists>c'. (rev w @ p, v, c') \<in> set (f (p, w @ v, c))) \<Longrightarrow> finds M f"
  unfolding finds_def by blast

lemma star_ms_sound:
  assumes "reads M f"
  shows "(p', v, c') \<in> set (star_ms g f n (p, s, c)) \<Longrightarrow>
         \<exists>w. s = w @ v \<and> p' = rev w @ p \<and> starm M p w v"
proof (induction n arbitrary: p s c)
  case 0
  then show ?case by (auto intro: starm_Nil)
next
  case (Suc n)
  from Suc.prems consider
    (stop) "p' = p" "v = s"
    | (more) p1 s1 c1 where "(p1, s1, c1) \<in> set (f (p, s, c))" "length s1 < length s"
        "(p', v, c') \<in> set (star_ms g f n (p1, s1, c1))"
    by (auto simp: Let_def split: if_splits)
  then show ?case
  proof cases
    case stop
    then show ?thesis by (auto intro: starm_Nil)
  next
    case more
    from readsD [OF assms more(1)] obtain w1 where
      w1: "s = w1 @ s1" "p1 = rev w1 @ p" "M p w1 s1" by blast
    from Suc.IH [OF more(3)] obtain w2 where
      w2: "s1 = w2 @ v" "p' = rev w2 @ p1" "starm M p1 w2 v" by blast
    have "starm M p (w1 @ w2) v"
      using w1 w2 more(2) by (intro starm_Cons) auto
    with w1 w2 show ?thesis by auto
  qed
qed

lemma star_ms_complete:
  assumes "finds M f" and "starm M p w v" and "length w \<le> n"
  shows "\<exists>c'. (rev w @ p, v, c') \<in> set (star_ms g f n (p, w @ v, c))"
  using assms(2, 3)
proof (induction arbitrary: n c rule: starm.induct)
  case (starm_Nil p v)
  then show ?case by (cases n) (auto simp: Let_def)
next
  case (starm_Cons p w1 w2 v)
  then obtain m where n: "n = Suc m" by (cases n) auto
  with starm_Cons have "length w2 \<le> m" by (cases w1) auto
  from findsD [OF assms(1) starm_Cons.hyps(1)] obtain c1 where
    c1: "(rev w1 @ p, w2 @ v, c1) \<in> set (f (p, w1 @ w2 @ v, c))" by blast
  from starm_Cons.IH [OF \<open>length w2 \<le> m\<close>] obtain c' where
    "(rev w2 @ rev w1 @ p, v, c') \<in> set (star_ms g f m (rev w1 @ p, w2 @ v, c1))" by blast
  with c1 n starm_Cons.hyps(2) show ?case
    by (fastforce simp: Let_def)
qed

lemma ms_sound_reads: "reads (matches r) (ms r)"
proof (induction r)
  case (Seq r1 r2)
  show ?case
  proof (rule readsI)
    fix p s c p' v c'
    assume "(p', v, c') \<in> set (ms (Seq r1 r2) (p, s, c))"
    then obtain p1 s1 c1 where
      1: "(p1, s1, c1) \<in> set (ms r1 (p, s, c))" and 2: "(p', v, c') \<in> set (ms r2 (p1, s1, c1))"
      by auto
    from readsD [OF Seq.IH(1) 1] readsD [OF Seq.IH(2) 2]
    show "\<exists>w. s = w @ v \<and> p' = rev w @ p \<and> matches (Seq r1 r2) p w v"
      by fastforce
  qed
next
  case (Chr f)
  have "(p', v, c') \<in> set (ms (Chr f) (p, s, c)) \<Longrightarrow>
      \<exists>w. s = w @ v \<and> p' = rev w @ p \<and> matches (Chr f) p w v" for p s c p' v c'
    by (cases s) (auto split: if_splits)
  then show ?case by (rule readsI)
next
  case (Star r)
  show ?case using star_ms_sound [OF Star.IH] by (intro readsI) simp
next
  case (LazyStar r)
  show ?case using star_ms_sound [OF LazyStar.IH] by (intro readsI) simp
next
  case (Alt r1 r2)
  show ?case by (intro readsI) (auto dest: readsD [OF Alt.IH(1)] readsD [OF Alt.IH(2)])
next
  case (Cap n r)
  show ?case by (intro readsI) (auto dest: readsD [OF Cap.IH])
qed (auto intro!: readsI split: if_splits)

lemma ms_complete_finds: "finds (matches r) (ms r)"
proof (induction r)
  case (Seq r1 r2)
  show ?case
  proof (rule findsI)
    fix p w v c
    assume "matches (Seq r1 r2) p w v"
    then obtain w1 w2 where w: "w = w1 @ w2" "matches r1 p w1 (w2 @ v)" "matches r2 (rev w1 @ p) w2 v"
      by auto
    from findsD [OF Seq.IH(1) w(2)] obtain c1 where
      "(rev w1 @ p, w2 @ v, c1) \<in> set (ms r1 (p, w1 @ w2 @ v, c))" by blast
    moreover from findsD [OF Seq.IH(2) w(3)] obtain c2 where
      "(rev w2 @ rev w1 @ p, v, c2) \<in> set (ms r2 (rev w1 @ p, w2 @ v, c1))" by blast
    ultimately show "\<exists>c'. (rev w @ p, v, c') \<in> set (ms (Seq r1 r2) (p, w @ v, c))"
      using w(1) by fastforce
  qed
next
  case (Star r)
  show ?case using star_ms_complete [OF Star.IH] by (intro findsI) simp
next
  case (LazyStar r)
  show ?case using star_ms_complete [OF LazyStar.IH] by (intro findsI) simp
next
  case (Alt r1 r2)
  show ?case
    using findsD [OF Alt.IH(1)] findsD [OF Alt.IH(2)] by (intro findsI) fastforce
next
  case (Cap n r)
  show ?case
  proof (rule findsI)
    fix p w v c
    assume "matches (Cap n r) p w v"
    then obtain c' where "(rev w @ p, v, c') \<in> set (ms r (p, w @ v, c))"
      using findsD [OF Cap.IH] by fastforce
    then have "(rev w @ p, v, (n, w) # c') \<in> set (ms (Cap n r) (p, w @ v, c))"
      by (force simp: image_iff)
    then show "\<exists>c'. (rev w @ p, v, c') \<in> set (ms (Cap n r) (p, w @ v, c))" ..
  qed
qed (auto intro!: findsI)

lemma ms_sound:
  "(p', v, c') \<in> set (ms r (p, s, c)) \<Longrightarrow> \<exists>w. s = w @ v \<and> p' = rev w @ p \<and> matches r p w v"
  by (rule readsD [OF ms_sound_reads])

lemma ms_complete: "matches r p w v \<Longrightarrow> \<exists>c'. (rev w @ p, v, c') \<in> set (ms r (p, w @ v, c))"
  by (rule findsD [OF ms_complete_finds])

lemma ms_Nil_iff: "ms r (p, s, c) = [] \<longleftrightarrow> (\<forall>w v. s = w @ v \<longrightarrow> \<not> matches r p w v)"
proof
  assume "ms r (p, s, c) = []"
  then show "\<forall>w v. s = w @ v \<longrightarrow> \<not> matches r p w v"
    using ms_complete [of r p _ _ c] by fastforce
next
  assume none: "\<forall>w v. s = w @ v \<longrightarrow> \<not> matches r p w v"
  show "ms r (p, s, c) = []"
  proof (cases "ms r (p, s, c)")
    case (Cons m ms')
    then show ?thesis using none ms_sound [of "fst m" "fst (snd m)" "snd (snd m)" r p s c] by fastforce
  qed
qed

text \<open>\<open>test\<close> succeeds exactly when some part of the text is a match.\<close>

lemma search_None_iff:
  "search r p s = None \<longleftrightarrow> (\<forall>u w v. s = u @ w @ v \<longrightarrow> \<not> matches r (rev u @ p) w v)"
proof (induction s arbitrary: p)
  case Nil
  have "ms r (p, [], []) = [] \<longleftrightarrow> \<not> matches r p [] []"
    by (simp add: ms_Nil_iff)
  then show ?case
    by (subst search.simps) (auto split: list.splits)
next
  case (Cons c s)
  have split: "(\<forall>u w v. c # s = u @ w @ v \<longrightarrow> \<not> matches r (rev u @ p) w v) \<longleftrightarrow>
      (\<forall>w v. c # s = w @ v \<longrightarrow> \<not> matches r p w v) \<and>
      (\<forall>u w v. s = u @ w @ v \<longrightarrow> \<not> matches r (rev u @ c # p) w v)"
    by (auto simp: Cons_eq_append_conv)
      (metis append_Cons append_Nil rev.simps append_assoc)+
  show ?case
    by (subst search.simps, subst split)
      (auto split: list.splits simp: Cons.IH ms_Nil_iff [of r p "c # s" "[]", symmetric])
qed

lemma test_iff: "test r s \<longleftrightarrow> (\<exists>u w v. s = u @ w @ v \<and> matches r (rev u) w v)"
  using search_None_iff [of r "[]" s] by (auto simp: test_def)

subsection \<open>Matches of derived expressions\<close>

lemma matches_Opt [simp]: "matches (Opt r) p w v \<longleftrightarrow> matches r p w v \<or> w = []"
  by (auto simp: Opt_def)

lemmas matches_Seq = matches.simps(3)
lemmas matches_Star = matches.simps(5)

declare matches_Seq [simp del] matches_Star [simp del]

lemma matches_Seq_Chr [simp]:
  "matches (Seq (Chr f) r) p w v \<longleftrightarrow> (\<exists>c w'. w = c # w' \<and> f c \<and> matches r (c # p) w' v)"
proof
  assume "matches (Seq (Chr f) r) p w v"
  then show "\<exists>c w'. w = c # w' \<and> f c \<and> matches r (c # p) w' v"
    by (auto simp: matches_Seq)
next
  assume "\<exists>c w'. w = c # w' \<and> f c \<and> matches r (c # p) w' v"
  then obtain c w' where "w = [c] @ w'" "f c" "matches r (rev [c] @ p) w' v"
    by auto
  then show "matches (Seq (Chr f) r) p w v"
    unfolding matches_Seq matches.simps(2) by blast
qed

lemma matches_Star_Chr [simp]: "matches (Star (Chr f)) p w v \<longleftrightarrow> list_all f w"
proof
  assume "matches (Star (Chr f)) p w v"
  then have "starm (matches (Chr f)) p w v" by (simp add: matches_Star)
  then show "list_all f w" by (induction rule: starm.induct) auto
next
  assume "list_all f w"
  then have "starm (matches (Chr f)) p w v"
  proof (induction w arbitrary: p)
    case (Cons c w)
    have "matches (Chr f) p [c] (w @ v)"
      using Cons.prems by simp
    moreover have "starm (matches (Chr f)) (rev [c] @ p) w v"
      by (rule Cons.IH) (use Cons.prems in simp)
    ultimately have "starm (matches (Chr f)) p ([c] @ w) v"
      by (intro starm_Cons) simp_all
    then show ?case by (simp only: append.simps)
  qed (rule starm_Nil)
  then show "matches (Star (Chr f)) p w v" by (simp add: matches_Star)
qed

lemma matches_Plus_Chr [simp]: "matches (Plus (Chr f)) p w v \<longleftrightarrow> w \<noteq> [] \<and> list_all f w"
  by (cases w) (auto simp: Plus_def)

lemma matches_lit [simp]: "matches (lit t) p w v \<longleftrightarrow> w = t"
  by (induction t arbitrary: p w) auto

lemma matches_Seq_lit [simp]:
  "matches (Seq (lit t) r) p w v \<longleftrightarrow> (\<exists>w'. w = t @ w' \<and> matches r (rev t @ p) w' v)"
  by (auto simp: matches_Seq)

lemma matches_ilit [simp]: "matches (ilit t) p w v \<longleftrightarrow> to_lower w = t"
proof (induction t arbitrary: p w)
  case (Cons c t)
  then show ?case by (cases w) (auto simp: to_lower_def)
qed (auto simp: to_lower_def)

declare lit.simps [simp del] ilit.simps [simp del]

lemma matches_alts [simp]:
  "matches (alts rs) p w v \<longleftrightarrow> (\<exists>r \<in> set rs. matches r p w v)"
  by (induction rs rule: alts.induct) auto

lemma matches_Upto_Chr [simp]:
  "matches (Upto n (Chr f)) p w v \<longleftrightarrow> length w \<le> n \<and> list_all f w"
proof (induction n arbitrary: p w)
  case (Suc n)
  then show ?case by (cases w) auto
qed auto

subsection \<open>Replacement\<close>

text \<open>A text without a match is left as it is.\<close>

lemma replace_from_id:
  "search r p s = None \<Longrightarrow> replace_from r f p s = s"
proof (induction s arbitrary: p)
  case Nil
  then have "ms r (p, [], []) = []"
    by (simp add: search.simps [of r p] split: list.splits)
  then show ?case by (simp add: replace_from.simps)
next
  case (Cons c s)
  then have "ms r (p, c # s, []) = []" and "search r (c # p) s = None"
    by (simp_all add: search.simps [of r p] split: list.splits)
  with Cons.IH show ?case by (simp add: replace_from.simps [of r f p])
qed

lemma replace_all_id: "\<not> test r s \<Longrightarrow> replace_all r f s = s"
  unfolding replace_all_def test_def by (rule replace_from_id) blast

text \<open>
  An expression \<open>needs\<close> a character of a class when every text it matches has one: a text that
  has none is never changed by a replacement.
\<close>

primrec needs :: "(char \<Rightarrow> bool) \<Rightarrow> re \<Rightarrow> bool" where
  "needs P Eps = False"
| "needs P (Chr f) = (\<forall>c. f c \<longrightarrow> P c)"
| "needs P (Seq r1 r2) = (needs P r1 \<or> needs P r2)"
| "needs P (Alt r1 r2) = (needs P r1 \<and> needs P r2)"
| "needs P (Star r) = False"
| "needs P (LazyStar r) = False"
| "needs P (Cap n r) = needs P r"
| "needs P WordB = False"
| "needs P Bol = False"
| "needs P Eol = False"

lemma needs_matches: "needs P r \<Longrightarrow> matches r p w v \<Longrightarrow> \<exists>c \<in> set w. P c"
proof (induction r arbitrary: p w v)
  case (Seq r1 r2)
  then obtain w1 w2 where "w = w1 @ w2" "matches r1 p w1 (w2 @ v)" "matches r2 (rev w1 @ p) w2 v"
    by (auto simp: matches_Seq)
  with Seq.IH Seq.prems(1) show ?case by fastforce
qed auto

lemma needs_not_test: "needs P r \<Longrightarrow> (\<And>c. c \<in> set s \<Longrightarrow> \<not> P c) \<Longrightarrow> \<not> test r s"
  using needs_matches [of P r] by (fastforce simp: test_iff)

lemma needs_replace_all:
  "needs P r \<Longrightarrow> (\<And>c. c \<in> set s \<Longrightarrow> \<not> P c) \<Longrightarrow> replace_all r f s = s"
  by (simp add: replace_all_id needs_not_test)

subsection \<open>Captures\<close>

primrec has_group :: "re \<Rightarrow> bool" where
  "has_group Eps = False"
| "has_group (Chr f) = False"
| "has_group (Seq r1 r2) = (has_group r1 \<or> has_group r2)"
| "has_group (Alt r1 r2) = (has_group r1 \<or> has_group r2)"
| "has_group (Star r) = has_group r"
| "has_group (LazyStar r) = has_group r"
| "has_group (Cap n r) = True"
| "has_group WordB = False"
| "has_group Bol = False"
| "has_group Eol = False"

lemma has_group_lit [simp]: "\<not> has_group (lit w)"
  by (induction w) (auto simp: lit.simps)

lemma has_group_ilit [simp]: "\<not> has_group (ilit w)"
  by (induction w) (auto simp: ilit.simps)

lemma star_ms_caps:
  assumes "\<And>p s c p' v c'. (p', v, c') \<in> set (f (p, s, c)) \<Longrightarrow> c' = c"
  shows "(p', v, c') \<in> set (star_ms g f n (p, s, c)) \<Longrightarrow> c' = c"
proof (induction n arbitrary: p s c)
  case (Suc n)
  then show ?case using assms by (fastforce simp: Let_def split: if_splits)
qed simp

text \<open>An expression without groups leaves the captures alone.\<close>

lemma ms_caps: "\<not> has_group r \<Longrightarrow> (p', v, c') \<in> set (ms r (p, s, c)) \<Longrightarrow> c' = c"
proof (induction r arbitrary: p' v c' p s c)
  case (Chr f)
  then show ?case by (cases s) (auto split: if_splits)
next
  case (Seq r1 r2)
  then show ?case by fastforce
next
  case (Star r)
  have "c' = c" if "(p', v, c') \<in> set (ms r (p, s, c))" for p s c p' v c'
    using Star.IH that Star.prems(1) by simp
  from star_ms_caps [of "ms r", OF this] show ?case using Star.prems(2) by fastforce
next
  case (LazyStar r)
  have "c' = c" if "(p', v, c') \<in> set (ms r (p, s, c))" for p s c p' v c'
    using LazyStar.IH that LazyStar.prems(1) by simp
  from star_ms_caps [of "ms r", OF this] show ?case using LazyStar.prems(2) by fastforce
qed (auto split: if_splits)

lemma matches_SeqI:
  "matches r1 p w1 (w2 @ v) \<Longrightarrow> matches r2 (rev w1 @ p) w2 v \<Longrightarrow> matches (Seq r1 r2) p (w1 @ w2) v"
  unfolding matches_Seq by blast

lemma set_ms_Seq: "m \<in> set (ms (Seq r1 r2) s) \<longleftrightarrow> (\<exists>m1 \<in> set (ms r1 s). m \<in> set (ms r2 m1))"
  by auto

lemma set_ms_Cap:
  "(p', v, c') \<in> set (ms (Cap n r) (p, s, c)) \<longleftrightarrow>
     (\<exists>c0. (p', v, c0) \<in> set (ms r (p, s, c)) \<and> c' = (n, take (length s - length v) s) # c0)"
  by (force simp: image_iff)

subsection \<open>Anchored expressions\<close>

text \<open>\<open>/^r$/\<close>.\<close>

definition anchored :: "re \<Rightarrow> re" where
  "anchored r = Seq Bol (Seq r Eol)"

lemma test_anchored: "test (anchored r) s \<longleftrightarrow> matches r [] s []"
  by (auto simp: test_iff anchored_def matches_Seq)

text \<open>The repetition of an expression that does not look at its surroundings.\<close>

lemma starm_concat:
  assumes "\<And>p w v. R p w v \<longleftrightarrow> P w"
  shows "starm R p w v \<longleftrightarrow> (\<exists>ws. w = concat ws \<and> (\<forall>x \<in> set ws. P x \<and> x \<noteq> []))"
proof
  assume "starm R p w v"
  then show "\<exists>ws. w = concat ws \<and> (\<forall>x \<in> set ws. P x \<and> x \<noteq> [])"
  proof induction
    case (starm_Nil p v)
    show ?case by (rule exI [of _ "[]"]) simp
  next
    case (starm_Cons p w1 w2 v)
    then obtain ws where "w2 = concat ws" "\<forall>x \<in> set ws. P x \<and> x \<noteq> []" by blast
    with starm_Cons assms show ?case by (intro exI [of _ "w1 # ws"]) auto
  qed
next
  assume "\<exists>ws. w = concat ws \<and> (\<forall>x \<in> set ws. P x \<and> x \<noteq> [])"
  then obtain ws where "w = concat ws" "\<forall>x \<in> set ws. P x \<and> x \<noteq> []" by blast
  then show "starm R p w v"
  proof (induction ws arbitrary: p w)
    case Nil
    then show ?case by (simp add: starm.starm_Nil)
  next
    case (Cons x ws)
    from Cons.prems assms have "R p x (concat ws @ v)" "x \<noteq> []" by auto
    moreover from Cons have "starm R (rev x @ p) (concat ws) v" by auto
    ultimately show ?case
      unfolding Cons.prems by (simp add: starm.starm_Cons)
  qed
qed

lemma matches_Star_concat:
  assumes "\<And>p w v. matches r p w v \<longleftrightarrow> P w"
  shows "matches (Star r) p w v \<longleftrightarrow> (\<exists>ws. w = concat ws \<and> (\<forall>x \<in> set ws. P x \<and> x \<noteq> []))"
  unfolding matches_Star by (rule starm_concat) (rule assms)

lemma matches_Plus_concat:
  assumes "\<And>p w v. matches r p w v \<longleftrightarrow> P w" and "\<not> P []"
  shows "matches (Plus r) p w v \<longleftrightarrow> (\<exists>ws. ws \<noteq> [] \<and> w = concat ws \<and> (\<forall>x \<in> set ws. P x))"
proof
  assume "matches (Plus r) p w v"
  then obtain w1 ws where "w = w1 @ concat ws" "P w1" "\<forall>x \<in> set ws. P x"
    unfolding Plus_def matches_Seq matches_Star_concat [OF assms(1)] assms(1) by blast
  then show "\<exists>ws. ws \<noteq> [] \<and> w = concat ws \<and> (\<forall>x \<in> set ws. P x)"
    by (intro exI [of _ "w1 # ws"]) simp
next
  assume "\<exists>ws. ws \<noteq> [] \<and> w = concat ws \<and> (\<forall>x \<in> set ws. P x)"
  then obtain x ws where "w = x @ concat ws" "P x" "\<forall>x \<in> set ws. P x"
    by (metis concat.simps(2) list.exhaust list.set_intros)
  with assms show "matches (Plus r) p w v"
    unfolding Plus_def matches_Seq matches_Star_concat [OF assms(1)] assms(1) by metis
qed

end
