(* ===== verification/Secrets.thy ===== *)
theory Secrets
  imports Js_Regex
begin

text \<open>
  \<open>packages/core/src/security/secrets.ts\<close>: recognising sensitive field names, redacting secrets
  in strings, and sanitising values before they are stored, logged or kept in a store.
\<close>

subsection \<open>Sensitive field names\<close>

text \<open>The sub-expressions \<open>a[-_]?b\<close> and \<open>a(?:b)?\<close>, read with the \<open>i\<close> flag.\<close>

definition dashed :: "string \<Rightarrow> string \<Rightarrow> re" where
  "dashed a b = seqs [ilit a, Opt (one_of ''-_''), ilit b]"

definition suffixed :: "string \<Rightarrow> string \<Rightarrow> re" where
  "suffixed a b = seqs [ilit a, Opt (ilit b)]"

definition SENSITIVE_KEY_PATTERN :: re where
  "SENSITIVE_KEY_PATTERN = Cap 1 (alts
     [dashed ''access'' ''token'',
      dashed ''refresh'' ''token'',
      dashed ''api'' ''key'',
      ilit ''authorization'', ilit ''cookie'', ilit ''token'', ilit ''secret'', ilit ''password'',
      ilit ''passphrase'', suffixed ''private'' ''key'', ilit ''auth'',
      ilit ''credential'', ilit ''jwt'', ilit ''session'', ilit ''bearer''])"

definition NON_SECRET_PATH_KEYS :: "string list" where
  "NON_SECRET_PATH_KEYS = [''ssl_certificate_key'', ''certificateKey'', ''certificate_key'']"

definition isSensitiveFieldName :: "string \<Rightarrow> bool" where
  "isSensitiveFieldName key \<longleftrightarrow> test SENSITIVE_KEY_PATTERN key \<and> key \<notin> set NON_SECRET_PATH_KEYS"

subsection \<open>Redaction of strings\<close>

text \<open>The quoted or bare value after a \<open>:\<close> or \<open>=\<close>; \<open>bare\<close> is the class of the unquoted form.\<close>

definition secret_value :: "(char \<Rightarrow> bool) \<Rightarrow> re" where
  "secret_value bare = alts
     [seqs [lit [CHR 0x22], Star (Chr (\<lambda>c. c \<noteq> CHR 0x22)), lit [CHR 0x22]],
      seqs [lit [CHR 0x27], Star (Chr (\<lambda>c. c \<noteq> CHR 0x27)), lit [CHR 0x27]],
      Plus (Chr bare)]"

definition not_delimiter :: "char \<Rightarrow> bool" where
  "not_delimiter c \<longleftrightarrow> \<not> is_space c \<and> c \<noteq> CHR '','' \<and> c \<noteq> CHR '';''"

definition not_newline :: "char \<Rightarrow> bool" where
  "not_newline c \<longleftrightarrow> c \<noteq> CHR 0x0D \<and> c \<noteq> CHR 0x0A"

definition AUTHORIZATION_PATTERN :: re where
  "AUTHORIZATION_PATTERN = seqs
     [WordB, Cap 1 (ilit ''authorization''), spaces, one_of '':='', spaces,
      Opt (Cap 2 (Seq (ilit ''bearer'') (Plus (Chr is_space)))),
      Cap 3 (secret_value not_delimiter)]"

definition COOKIE_PATTERN :: re where
  "COOKIE_PATTERN = seqs
     [WordB, Cap 1 (Alt (ilit ''cookie'') (ilit ''set-cookie'')), spaces, one_of '':='', spaces,
      Cap 2 (secret_value not_newline)]"

definition KEY_VALUE_PATTERN :: re where
  "KEY_VALUE_PATTERN = seqs
     [WordB,
      Cap 1 (alts
        [dashed ''access'' ''token'',
         dashed ''refresh'' ''token'',
         dashed ''api'' ''key'',
         ilit ''token'', ilit ''secret'', ilit ''password'', ilit ''passphrase'',
         suffixed ''private'' ''key'', ilit ''auth'', ilit ''credential'',
         ilit ''jwt'', ilit ''session'']),
      WordB, spaces, one_of '':='', spaces, Cap 2 (secret_value not_delimiter)]"

definition bearer_char :: "char \<Rightarrow> bool" where
  "bearer_char c \<longleftrightarrow> is_alnum c \<or> c \<in> set ''._~+/=-''"

definition BEARER_PATTERN :: re where
  "BEARER_PATTERN = seqs [WordB, ilit ''bearer'', Plus (Chr is_space), Plus (Chr bearer_char)]"

definition pem_label :: re where
  "pem_label = Star (Chr (\<lambda>c. is_upper c \<or> c = CHR '' ''))"

definition PRIVATE_KEY_PATTERN :: re where
  "PRIVATE_KEY_PATTERN = seqs
     [lit ''-----BEGIN '', pem_label, lit ''PRIVATE KEY-----'', LazyStar (Chr (\<lambda>_. True)),
      lit ''-----END '', pem_label, lit ''PRIVATE KEY-----'']"

definition SECRET_VALUE_PATTERNS :: "re list" where
  "SECRET_VALUE_PATTERNS =
     [AUTHORIZATION_PATTERN, COOKIE_PATTERN, KEY_VALUE_PATTERN, BEARER_PATTERN, PRIVATE_KEY_PATTERN]"

definition scheme_char :: "char \<Rightarrow> bool" where
  "scheme_char c \<longleftrightarrow> is_alnum c \<or> c \<in> set ''+.-''"

definition credentials_char :: "char \<Rightarrow> bool" where
  "credentials_char c \<longleftrightarrow> c \<notin> set ''/?#@'' \<and> \<not> is_space c"

definition scheme_re :: re where
  "scheme_re = Seq (Chr (\<lambda>c. is_upper c \<or> is_lower c)) (Seq (Star (Chr scheme_char)) (lit ''://''))"

definition credentials_re :: re where
  "credentials_re = Seq (Plus (Chr credentials_char)) (lit ''@'')"

definition URL_WITH_CREDENTIALS_PATTERN :: re where
  "URL_WITH_CREDENTIALS_PATTERN = Seq WordB (Seq (Cap 1 scheme_re) (Cap 2 credentials_re))"

text \<open>
  The second argument \<open>replace\<close> passes to a replacer function: the first capture group, or,
  for an expression without groups, the offset of the match.
\<close>

definition second_argument :: "re \<Rightarrow> nat \<Rightarrow> caps \<Rightarrow> js" where
  "second_argument r offset c =
     (if has_group r then (case map_of c 1 of Some g \<Rightarrow> JStr g | None \<Rightarrow> JUndef)
      else JNum (Fin (of_nat offset)))"

text \<open>The replacer of \<open>redactPotentialSecrets\<close>.\<close>

definition redact_match :: "js \<Rightarrow> string" where
  "redact_match key =
     (if \<not> truthy key then ''[redacted]'' else js_to_string key @ ''=[redacted]'')"

definition redact_url :: "string \<Rightarrow> string" where
  "redact_url value = replace_all URL_WITH_CREDENTIALS_PATTERN
     (\<lambda>_ _ c. (case map_of c 1 of Some g \<Rightarrow> g | None \<Rightarrow> []) @ ''[redacted]@'') value"

definition redact_pattern :: "re \<Rightarrow> string \<Rightarrow> string" where
  "redact_pattern r value = replace_all r (\<lambda>offset _ c. redact_match (second_argument r offset c)) value"

definition redactPotentialSecrets :: "string \<Rightarrow> string" where
  "redactPotentialSecrets value = fold redact_pattern SECRET_VALUE_PATTERNS (redact_url value)"

definition containsSecretLikeValue :: "string \<Rightarrow> bool" where
  "containsSecretLikeValue value \<longleftrightarrow> redactPotentialSecrets value \<noteq> value"

definition SENSITIVE_DIRECTIVES :: "string list" where
  "SENSITIVE_DIRECTIVES =
     [''authorization'', ''cookie'', ''proxy_set_header auth'', ''password'', ''token'', ''secret'',
      ''credential'', ''jwt'', ''session'', ''bearer'']"

definition containsSensitiveDirective :: "string \<Rightarrow> bool" where
  "containsSensitiveDirective value \<longleftrightarrow>
     (let normalized = to_lower value in list_ex (str_includes normalized) SENSITIVE_DIRECTIVES)"

subsection \<open>Sanitising values\<close>

fun sanitizeForJson :: "js \<Rightarrow> js" where
  "sanitizeForJson (JArr xs) = JArr (map sanitizeForJson xs)"
| "sanitizeForJson (JDate d) = JDate d"
| "sanitizeForJson (JStr s) = JStr (redactPotentialSecrets s)"
| "sanitizeForJson (JObj ps) =
     JObj (map (\<lambda>(k, v). (k, sanitizeForJson v)) (filter (\<lambda>(k, v). \<not> isSensitiveFieldName k) ps))"
| "sanitizeForJson v = v"

definition stringifyWithoutSecrets :: "js \<Rightarrow> json_text" where
  "stringifyWithoutSecrets v = json_stringify (sanitizeForJson v)"

fun hasSensitiveFieldName :: "js \<Rightarrow> bool" where
  "hasSensitiveFieldName (JArr xs) = list_ex hasSensitiveFieldName xs"
| "hasSensitiveFieldName (JObj ps) =
     list_ex (\<lambda>(k, v). isSensitiveFieldName k \<or> hasSensitiveFieldName v) ps"
| "hasSensitiveFieldName v = False"

text \<open>\<open>None\<close>: \<open>JSON.parse\<close> throws.\<close>

definition containsSensitiveFieldName :: "json_text \<Rightarrow> bool option" where
  "containsSensitiveFieldName serialized = map_option hasSensitiveFieldName (json_parse serialized)"

subsection \<open>Which field names are sensitive\<close>

text \<open>The alternatives of the pattern that no other alternative makes redundant.\<close>

definition sensitive_words :: "string list" where
  "sensitive_words =
     [''apikey'', ''api-key'', ''api_key'', ''cookie'', ''token'', ''secret'', ''password'',
      ''passphrase'', ''private'', ''auth'', ''credential'', ''jwt'', ''session'', ''bearer'']"

definition has_sensitive_word :: "string \<Rightarrow> bool" where
  "has_sensitive_word k \<longleftrightarrow> list_ex (str_includes (to_lower k)) sensitive_words"

text \<open>A part of the lower-cased text is the lower-cased form of a part of the text.\<close>

lemma to_lower_eq_append:
  "to_lower s = a @ b \<longleftrightarrow> (\<exists>u v. s = u @ v \<and> to_lower u = a \<and> to_lower v = b)"
  by (auto simp: to_lower_def map_eq_append_conv)

lemma str_includes_to_lower:
  "str_includes (to_lower s) t \<longleftrightarrow> (\<exists>u w v. s = u @ w @ v \<and> to_lower w = t)"
  unfolding str_includes_sublist sublist_def to_lower_eq_append by blast

lemma lower_char_nonletter:
  "code_of d < 97 \<Longrightarrow> lower_char c = d \<longleftrightarrow> c = d \<and> \<not> is_upper d"
  using code_of_less [of c]
  by (auto simp: lower_char_def is_upper_def in_range_def)

lemma to_lower_dash [simp]:
  "to_lower x = ''-'' \<longleftrightarrow> x = ''-''" "to_lower x = ''_'' \<longleftrightarrow> x = ''_''"
  by (auto simp: to_lower_def lower_char_nonletter code_of_def is_upper_def in_range_def)

lemma to_lower_Nil_iff [simp]: "to_lower x = [] \<longleftrightarrow> x = []"
  by (simp add: to_lower_def)

lemma to_lower_parts:
  "(\<exists>w1 x y. w = w1 @ x @ y \<and> to_lower w1 = a \<and> to_lower x \<in> X \<and> to_lower y = b) \<longleftrightarrow>
   (\<exists>x' \<in> X. to_lower w = a @ x' @ b)"
  unfolding to_lower_eq_append by blast

lemma matches_dashed [simp]:
  "matches (dashed a b) p w v \<longleftrightarrow>
     to_lower w \<in> {a @ b, a @ ''-'' @ b, a @ ''_'' @ b}"
proof -
  have "matches (dashed a b) p w v \<longleftrightarrow>
      (\<exists>w1 x y. w = w1 @ x @ y \<and> to_lower w1 = a \<and> to_lower x \<in> {[], ''-'', ''_''} \<and> to_lower y = b)"
    by (simp add: dashed_def matches_Seq) blast
  also have "\<dots> \<longleftrightarrow> to_lower w \<in> {a @ b, a @ ''-'' @ b, a @ ''_'' @ b}"
    unfolding to_lower_parts by simp
  finally show ?thesis .
qed

lemma matches_suffixed [simp]:
  "matches (suffixed a b) p w v \<longleftrightarrow> to_lower w \<in> {a, a @ b}"
proof -
  have "matches (suffixed a b) p w v \<longleftrightarrow>
      (\<exists>w1 x y. w = w1 @ x @ y \<and> to_lower w1 = a \<and> to_lower x \<in> {[], b} \<and> to_lower y = [])"
    by (simp add: suffixed_def matches_Seq) blast
  also have "\<dots> \<longleftrightarrow> to_lower w \<in> {a, a @ b}"
    unfolding to_lower_parts by simp
  finally show ?thesis .
qed

definition sensitive_spellings :: "string list" where
  "sensitive_spellings =
     [''accesstoken'', ''access-token'', ''access_token'', ''refreshtoken'', ''refresh-token'',
      ''refresh_token'', ''authorization'', ''privatekey''] @ sensitive_words"

lemma sensitive_pattern_matches_iff:
  "matches SENSITIVE_KEY_PATTERN p w v \<longleftrightarrow> to_lower w \<in> set sensitive_spellings"
  by (simp add: SENSITIVE_KEY_PATTERN_def sensitive_words_def sensitive_spellings_def) blast

text \<open>Every spelling contains one of the words.\<close>

lemma sensitive_spellings_words:
  "t \<in> set sensitive_spellings \<Longrightarrow> \<exists>word \<in> set sensitive_words. sublist word t"
proof -
  have "list_all (\<lambda>t. list_ex (\<lambda>word. str_includes t word) sensitive_words) sensitive_spellings"
    by (simp add: sensitive_spellings_def sensitive_words_def)
  then show "t \<in> set sensitive_spellings \<Longrightarrow> \<exists>word \<in> set sensitive_words. sublist word t"
    by (auto simp: list_all_iff list_ex_iff str_includes_sublist)
qed

lemma test_sensitive_iff: "test SENSITIVE_KEY_PATTERN k \<longleftrightarrow> has_sensitive_word k"
proof
  assume "test SENSITIVE_KEY_PATTERN k"
  then obtain u w v where "k = u @ w @ v" and "to_lower w \<in> set sensitive_spellings"
    by (auto simp: test_iff sensitive_pattern_matches_iff)
  then obtain word where "word \<in> set sensitive_words" and "sublist word (to_lower w)"
    using sensitive_spellings_words by blast
  moreover have "sublist (to_lower w) (to_lower k)"
    using \<open>k = u @ w @ v\<close> by (simp add: sublist_appendI)
  ultimately show "has_sensitive_word k"
    by (auto simp: has_sensitive_word_def list_ex_iff str_includes_sublist intro: sublist_order.order.trans)
next
  assume "has_sensitive_word k"
  then obtain u w v where "k = u @ w @ v" and "to_lower w \<in> set sensitive_words"
    by (auto simp: has_sensitive_word_def list_ex_iff str_includes_to_lower)
  then show "test SENSITIVE_KEY_PATTERN k"
    by (auto simp: test_iff sensitive_pattern_matches_iff sensitive_spellings_def)
qed

lemma path_keys_not_sensitive: "k \<in> set NON_SECRET_PATH_KEYS \<Longrightarrow> \<not> has_sensitive_word k"
proof -
  have "list_all (\<lambda>k. \<not> has_sensitive_word k) NON_SECRET_PATH_KEYS"
    by code_simp
  then show "k \<in> set NON_SECRET_PATH_KEYS \<Longrightarrow> \<not> has_sensitive_word k"
    by (auto simp: list_all_iff)
qed

lemma isSensitiveFieldName_word: "isSensitiveFieldName k \<longleftrightarrow> has_sensitive_word k"
  using path_keys_not_sensitive [of k]
  by (auto simp: isSensitiveFieldName_def test_sensitive_iff)

text \<open>
  A field name is treated as sensitive exactly when its lower-case form contains one of the
  fourteen words \<open>apikey\<close>, \<open>api-key\<close>, \<open>api_key\<close>, \<open>cookie\<close>, \<open>token\<close>, \<open>secret\<close>,
  \<open>password\<close>, \<open>passphrase\<close>, \<open>private\<close>, \<open>auth\<close>, \<open>credential\<close>, \<open>jwt\<close>, \<open>session\<close>,
  \<open>bearer\<close>. In particular the exemption list for certificate paths excludes nothing: none of its
  three names is matched by the pattern in the first place.
\<close>

theorem isSensitiveFieldName_iff:
  "isSensitiveFieldName k \<longleftrightarrow>
     (\<exists>word \<in> {''apikey'', ''api-key'', ''api_key'', ''cookie'', ''token'', ''secret'', ''password'',
        ''passphrase'', ''private'', ''auth'', ''credential'', ''jwt'', ''session'', ''bearer''}.
        str_includes (to_lower k) word)"
  by (simp add: isSensitiveFieldName_word has_sensitive_word_def sensitive_words_def)

subsection \<open>Redaction\<close>

definition plain_char :: "char \<Rightarrow> bool" where
  "plain_char c \<longleftrightarrow> c \<noteq> CHR '':'' \<and> c \<noteq> CHR ''='' \<and> \<not> is_space c"

lemma needs_seqs: "rs \<noteq> [] \<Longrightarrow> needs P (seqs rs) \<longleftrightarrow> (\<exists>r \<in> set rs. needs P r)"
  by (induction rs rule: seqs.induct) auto

lemma needs_Plus [simp]: "needs P (Plus r) = needs P r"
  by (simp add: Plus_def)

lemma needs_lit: "needs P (lit w) \<longleftrightarrow> (\<exists>c \<in> set w. P c)"
  by (induction w) (auto simp: lit.simps)

lemma is_space_blank: "is_space CHR '' ''"
  by (simp add: is_space_def code_of_def)

lemma patterns_need_non_plain:
  "r \<in> set SECRET_VALUE_PATTERNS \<Longrightarrow> needs (\<lambda>c. \<not> plain_char c) r"
  "needs (\<lambda>c. \<not> plain_char c) URL_WITH_CREDENTIALS_PATTERN"
  by (auto simp: SECRET_VALUE_PATTERNS_def AUTHORIZATION_PATTERN_def COOKIE_PATTERN_def
      KEY_VALUE_PATTERN_def BEARER_PATTERN_def PRIVATE_KEY_PATTERN_def
      URL_WITH_CREDENTIALS_PATTERN_def scheme_re_def needs_seqs needs_lit plain_char_def is_space_blank
      simp del: seqs.simps)

lemma redact_without_needed:
  assumes "\<And>r. r \<in> set SECRET_VALUE_PATTERNS \<Longrightarrow> needs P r" and "needs P URL_WITH_CREDENTIALS_PATTERN"
    and clean: "\<And>c. c \<in> set s \<Longrightarrow> \<not> P c"
  shows "redactPotentialSecrets s = s"
proof -
  have "fold redact_pattern rs s = s" if "set rs \<subseteq> set SECRET_VALUE_PATTERNS" for rs
    using that
  proof (induction rs)
    case (Cons r rs)
    then have "needs P r" by (intro assms(1)) simp
    then have "redact_pattern r s = s"
      unfolding redact_pattern_def using clean by (rule needs_replace_all)
    with Cons show ?case by simp
  qed simp
  moreover have "redact_url s = s"
    unfolding redact_url_def using assms(2) clean by (rule needs_replace_all)
  ultimately show ?thesis by (simp add: redactPotentialSecrets_def)
qed

lemma redact_plain:
  assumes "list_all plain_char s"
  shows "redactPotentialSecrets s = s"
proof (rule redact_without_needed [where P = "\<lambda>c. \<not> plain_char c"])
  show "\<not> \<not> plain_char c" if "c \<in> set s" for c
    using that assms by (simp add: list_all_iff)
qed (use patterns_need_non_plain in blast)+

text \<open>Nor does it touch a text without slash and without letters other than \<open>t\<close> and \<open>z\<close>: a date, a time.\<close>

definition word_char :: "char \<Rightarrow> bool" where
  "word_char c \<longleftrightarrow> lower_char c \<in> set ''abcdefghijklmnopqrsuvwxy/''"

lemma needs_word_ilit: "list_ex (\<lambda>c. c \<in> set ''abcdefghijklmnopqrsuvwxy/'') w \<Longrightarrow> needs word_char (ilit w)"
proof (induction w)
  case (Cons c w)
  then show ?case by (auto simp: ilit.simps word_char_def)
qed simp

lemma needs_alts: "needs P (alts rs) \<longleftrightarrow> (\<forall>r \<in> set rs. needs P r)"
  by (induction rs rule: alts.induct) auto

lemma needs_word_names:
  "needs word_char (ilit ''authorization'')" "needs word_char (ilit ''cookie'')" "needs word_char (ilit ''set-cookie'')"
  "needs word_char (ilit ''access'')" "needs word_char (ilit ''refresh'')" "needs word_char (ilit ''api'')"
  "needs word_char (ilit ''token'')" "needs word_char (ilit ''secret'')" "needs word_char (ilit ''password'')"
  "needs word_char (ilit ''passphrase'')" "needs word_char (ilit ''private'')" "needs word_char (ilit ''auth'')"
  "needs word_char (ilit ''credential'')" "needs word_char (ilit ''jwt'')" "needs word_char (ilit ''session'')"
  "needs word_char (ilit ''bearer'')"
  by (rule needs_word_ilit, code_simp)+

lemma needs_word_lits: "needs word_char (lit ''-----BEGIN '')" "needs word_char (lit ''://'')"
  unfolding needs_lit by code_simp+

lemma patterns_need_word:
  "r \<in> set SECRET_VALUE_PATTERNS \<Longrightarrow> needs word_char r"
  "needs word_char URL_WITH_CREDENTIALS_PATTERN"
  by (auto simp: SECRET_VALUE_PATTERNS_def AUTHORIZATION_PATTERN_def COOKIE_PATTERN_def
      KEY_VALUE_PATTERN_def BEARER_PATTERN_def PRIVATE_KEY_PATTERN_def dashed_def suffixed_def
      URL_WITH_CREDENTIALS_PATTERN_def scheme_re_def needs_seqs needs_alts needs_word_names needs_word_lits
      simp del: seqs.simps alts.simps lit.simps)

lemma redact_wordless:
  assumes "\<And>c. c \<in> set s \<Longrightarrow> \<not> word_char c"
  shows "redactPotentialSecrets s = s"
  using patterns_need_word assms by (rule redact_without_needed)

text \<open>Nor a sentence without colon, equals sign, hyphen and the letter b.\<close>

definition marking_char :: "char \<Rightarrow> bool" where
  "marking_char c \<longleftrightarrow> c \<in> set '':=-'' \<or> lower_char c = CHR ''b''"

lemma needs_marking: "needs marking_char (ilit ''bearer'')" "needs marking_char (Chr (\<lambda>d. d = CHR '':'' \<or> d = CHR ''=''))"
  by (simp_all add: ilit.simps marking_char_def)

lemma needs_marking_lit: "needs marking_char (lit ''-----BEGIN '')" "needs marking_char (lit ''://'')"
  unfolding needs_lit by (simp_all add: marking_char_def)

lemma patterns_need_marking:
  "r \<in> set SECRET_VALUE_PATTERNS \<Longrightarrow> needs marking_char r"
  "needs marking_char URL_WITH_CREDENTIALS_PATTERN"
  by (auto simp: SECRET_VALUE_PATTERNS_def AUTHORIZATION_PATTERN_def COOKIE_PATTERN_def
      KEY_VALUE_PATTERN_def BEARER_PATTERN_def PRIVATE_KEY_PATTERN_def
      URL_WITH_CREDENTIALS_PATTERN_def scheme_re_def needs_seqs needs_marking needs_marking_lit
      simp del: seqs.simps alts.simps lit.simps needs.simps(2))

lemma redact_prose:
  assumes "list_all (\<lambda>c. \<not> marking_char c) s"
  shows "redactPotentialSecrets s = s"
proof (rule redact_without_needed [where P = marking_char])
  show "\<not> marking_char c" if "c \<in> set s" for c
    using that assms by (simp add: list_all_iff)
qed (use patterns_need_marking in blast)+

lemma containsSecretLikeValue_plain: "list_all plain_char s \<Longrightarrow> \<not> containsSecretLikeValue s"
  by (simp add: containsSecretLikeValue_def redact_plain)

text \<open>
  Redaction only ever touches strings that contain a colon, an equals sign or white space:
  a string without these characters (an identifier, a domain, a Unix path, a size or a time)
  passes through \<open>redactPotentialSecrets\<close> unchanged and is never reported as a secret.
\<close>

theorem redactPotentialSecrets_identity:
  assumes "\<forall>c \<in> set s. c \<noteq> CHR '':'' \<and> c \<noteq> CHR ''='' \<and> \<not> is_space c"
  shows "redactPotentialSecrets s = s \<and> \<not> containsSecretLikeValue s"
  using assms by (simp add: redact_plain containsSecretLikeValue_plain plain_char_def list_all_iff)

theorem redactPotentialSecrets_identity_witness:
  "redactPotentialSecrets ''route_1704067200000_k3j9x0q2z'' = ''route_1704067200000_k3j9x0q2z''
   \<and> \<not> containsSecretLikeValue ''route_1704067200000_k3j9x0q2z''"
proof (rule redactPotentialSecrets_identity)
  show "\<forall>c \<in> set ''route_1704067200000_k3j9x0q2z''. c \<noteq> CHR '':'' \<and> c \<noteq> CHR ''='' \<and> \<not> is_space c"
    by (simp add: is_space_def in_range_def code_of_def)
qed

subsection \<open>Credentials in URLs\<close>

text \<open>The scheme of a URL and the user information before its host, as the pattern reads them.\<close>

definition scheme_ok :: "string \<Rightarrow> bool" where
  "scheme_ok sch \<longleftrightarrow> sch \<noteq> [] \<and> (is_upper (hd sch) \<or> is_lower (hd sch)) \<and> list_all scheme_char (tl sch)"

definition credentials_ok :: "string \<Rightarrow> bool" where
  "credentials_ok cred \<longleftrightarrow> cred \<noteq> [] \<and> list_all credentials_char cred"

lemma append_Cons_unique:
  "a @ c # b = a' @ c # b' \<Longrightarrow> c \<notin> set a \<Longrightarrow> c \<notin> set a' \<Longrightarrow> a = a' \<and> b = b'"
  by (auto simp: append_eq_append_conv2 Cons_eq_append_conv append_eq_Cons_conv)

lemma scheme_no_colon: "scheme_ok sch \<Longrightarrow> CHR '':'' \<notin> set sch"
  by (cases sch) (auto simp: scheme_ok_def scheme_char_def list_all_iff is_upper_def is_lower_def
      is_alnum_def is_digit_def in_range_def code_of_def)

lemma credentials_no_at: "credentials_ok cred \<Longrightarrow> CHR ''@'' \<notin> set cred"
  by (auto simp: credentials_ok_def credentials_char_def list_all_iff)

lemma matches_scheme_re:
  "matches scheme_re p w v \<longleftrightarrow> (\<exists>sch. w = sch @ ''://'' \<and> scheme_ok sch)"
proof -
  have "matches scheme_re p w v \<longleftrightarrow>
      (\<exists>c w1. w = (c # w1) @ ''://'' \<and> (is_upper c \<or> is_lower c) \<and> list_all scheme_char w1)"
    by (auto simp: scheme_re_def matches_Seq [where ?r1.0 = "Star (Chr f)" for f])
  also have "\<dots> \<longleftrightarrow> (\<exists>sch. w = sch @ ''://'' \<and> scheme_ok sch)"
    unfolding scheme_ok_def by (metis list.collapse list.sel(1) list.sel(3) list.simps(3))
  finally show ?thesis .
qed

lemma matches_credentials_re:
  "matches credentials_re p w v \<longleftrightarrow> (\<exists>cred. w = cred @ ''@'' \<and> credentials_ok cred)"
  by (auto simp: credentials_re_def matches_Seq credentials_ok_def)

lemma url_parts_no_group: "\<not> has_group scheme_re" "\<not> has_group credentials_re"
  by (simp_all add: scheme_re_def credentials_re_def Plus_def)

lemma url_match_unique:
  assumes "scheme_ok sch" "credentials_ok cred"
    and "(p', v, c') \<in> set (ms URL_WITH_CREDENTIALS_PATTERN ([], sch @ ''://'' @ cred @ ''@'' @ host, []))"
  shows "v = host \<and> p' = rev (sch @ ''://'' @ cred @ ''@'') \<and> map_of c' 1 = Some (sch @ ''://'')"
proof -
  define s where "s = sch @ ''://'' @ cred @ ''@'' @ host"
  from assms(3) obtain p1 v1 c1 where
    1: "(p1, v1, c1) \<in> set (ms (Cap 1 scheme_re) ([], s, []))"
    and 2: "(p', v, c') \<in> set (ms (Cap 2 credentials_re) (p1, v1, c1))"
    unfolding URL_WITH_CREDENTIALS_PATTERN_def set_ms_Seq s_def [symmetric]
    by (auto simp del: ms.simps(8) split: if_splits)
  from 1 obtain c0 where
    10: "(p1, v1, c0) \<in> set (ms scheme_re ([], s, []))" and
    c1: "c1 = (1, take (length s - length v1) s) # c0"
    unfolding set_ms_Cap by blast
  from ms_sound [OF 10] obtain sch' where
    s: "s = sch' @ ''://'' @ v1" and p1: "p1 = rev (sch' @ ''://'')" and sch': "scheme_ok sch'"
    by (auto simp: matches_scheme_re)
  have "sch = sch'" and v1: "v1 = cred @ ''@'' @ host"
    using append_Cons_unique [of sch "CHR '':''" _ sch'] s scheme_no_colon assms(1) sch'
    by (auto simp: s_def)
  from 2 obtain c2 where
    20: "(p', v, c2) \<in> set (ms credentials_re (p1, v1, c1))" and
    c': "c' = (2, take (length v1 - length v) v1) # c2"
    unfolding set_ms_Cap by blast
  have "c2 = c1"
    using ms_caps [OF url_parts_no_group(2) 20] .
  from ms_sound [OF 20] obtain cred' where
    "v1 = cred' @ ''@'' @ v" and "p' = rev (cred' @ ''@'') @ p1" and "credentials_ok cred'"
    by (auto simp: matches_credentials_re)
  then show ?thesis
    using append_Cons_unique [of cred "CHR ''@''" host cred' v] v1 p1 credentials_no_at assms(2)
      \<open>sch = sch'\<close> c' c1 s \<open>c2 = c1\<close> by auto
qed

lemma url_match_exists:
  assumes "scheme_ok sch" "credentials_ok cred"
  shows "ms URL_WITH_CREDENTIALS_PATTERN ([], sch @ ''://'' @ cred @ ''@'' @ host, []) \<noteq> []"
proof -
  have "boundary [] (sch @ t)" for t
    using assms(1) by (cases sch) (auto simp: boundary_def at_word_def is_word_def is_alnum_def scheme_ok_def)
  then have "matches URL_WITH_CREDENTIALS_PATTERN [] ([] @ (sch @ ''://'') @ (cred @ ''@'')) host"
    using assms unfolding URL_WITH_CREDENTIALS_PATTERN_def
    by (intro matches_SeqI) (auto simp: matches_scheme_re matches_credentials_re)
  from ms_complete [OF this, of "[]"] show ?thesis by auto
qed

text \<open>The URL stage replaces the user information and leaves the rest of the URL alone.\<close>

lemma redact_url_credentials:
  assumes "scheme_ok sch" "credentials_ok cred" "CHR ''@'' \<notin> set host"
  shows "redact_url (sch @ ''://'' @ cred @ ''@'' @ host) = sch @ ''://[redacted]@'' @ host"
proof -
  let ?r = URL_WITH_CREDENTIALS_PATTERN
  obtain p' v c' rest where
    ms: "ms ?r ([], sch @ ''://'' @ cred @ ''@'' @ host, []) = (p', v, c') # rest"
    using url_match_exists [OF assms(1,2)] by (metis list.exhaust prod_cases3)
  have m: "v = host" "map_of c' 1 = Some (sch @ ''://'')"
    using url_match_unique [OF assms(1,2), of p' v c' host] ms by auto
  have "needs (\<lambda>c. c = CHR ''@'') ?r"
    by (simp add: URL_WITH_CREDENTIALS_PATTERN_def credentials_re_def needs_lit)
  then have "\<forall>u w v. host = u @ w @ v \<longrightarrow> \<not> matches ?r (rev u @ p') w v"
    using needs_matches [of _ ?r] assms(3) by fastforce
  then have "search ?r p' host = None"
    by (simp add: search_None_iff)
  then show ?thesis
    using ms m by (simp add: redact_url_def replace_all_def replace_from.simps [of ?r _ "[]"]
        replace_from_id)
qed

lemma credentials_ok_redacted: "credentials_ok ''[redacted]''"
  by (simp add: credentials_ok_def credentials_char_def is_space_def in_range_def code_of_def)

text \<open>
  Redaction is independent of the credentials in a URL: whatever user information (user name,
  password or token) stands between the scheme and the host, the redacted text is the redacted
  text of the URL with \<open>[redacted]\<close> in its place, so nothing of it can be read off the result.
\<close>

theorem redact_hides_url_credentials:
  assumes "scheme_ok sch" and "credentials_ok cred" and "CHR ''@'' \<notin> set host"
  shows "redactPotentialSecrets (sch @ ''://'' @ cred @ ''@'' @ host) =
         redactPotentialSecrets (sch @ ''://[redacted]@'' @ host)"
  using redact_url_credentials [OF assms] redact_url_credentials [OF assms(1) credentials_ok_redacted assms(3)]
  by (simp add: redactPotentialSecrets_def)

theorem redact_hides_url_credentials_witness:
  "redactPotentialSecrets (''https'' @ ''://'' @ ''user:pw'' @ ''@'' @ ''example.com'') =
   redactPotentialSecrets (''https'' @ ''://[redacted]@'' @ ''example.com'')"
  by (rule redact_hides_url_credentials)
    (simp_all add: scheme_ok_def scheme_char_def credentials_ok_def credentials_char_def is_upper_def
      is_lower_def is_alnum_def is_digit_def is_space_def in_range_def code_of_def)

lemma groupless: "r \<in> {BEARER_PATTERN, PRIVATE_KEY_PATTERN} \<Longrightarrow> \<not> has_group r"
  by (auto simp: BEARER_PATTERN_def PRIVATE_KEY_PATTERN_def pem_label_def Plus_def has_group_ilit)

text \<open>
  The replacer takes its second argument for the name of the secret, but for the two patterns
  without capture groups (bearer tokens and PEM private keys) that argument is the offset of the
  match: a bearer token or a key at an offset greater than zero is replaced by that number and
  \<open>=[redacted]\<close>, as in the example, while at the start of the string it becomes \<open>[redacted]\<close>.
\<close>

theorem groupless_patterns_print_offset:
  "redact_match (second_argument BEARER_PATTERN n c) =
     (if n = 0 then ''[redacted]'' else num_to_string (Fin (of_nat n)) @ ''=[redacted]'') \<and>
   redact_match (second_argument PRIVATE_KEY_PATTERN n c) =
     (if n = 0 then ''[redacted]'' else num_to_string (Fin (of_nat n)) @ ''=[redacted]'') \<and>
   redactPotentialSecrets ''x bearer abc'' = ''x 2=[redacted]''"
proof (intro conjI)
  show "redactPotentialSecrets ''x bearer abc'' = ''x 2=[redacted]''"
    by code_simp
qed (use groupless in \<open>auto simp: redact_match_def second_argument_def\<close>)

subsection \<open>Sanitised values\<close>

lemma sanitize_no_sensitive: "\<not> hasSensitiveFieldName (sanitizeForJson v)"
proof (induction v rule: sanitizeForJson.induct)
  case (4 ps)
  then show ?case by (fastforce simp: list_ex_iff)
qed (auto simp: list_ex_iff)

lemma json_val_no_sensitive: "\<not> hasSensitiveFieldName v \<Longrightarrow> \<not> hasSensitiveFieldName (json_val v)"
proof (induction v rule: json_val.induct)
  case (6 ps)
  then show ?case by (fastforce simp: list_ex_iff)
qed (auto simp: list_ex_iff)

text \<open>
  However deeply nested the value, what \<open>sanitizeForJson\<close> returns has no sensitive field name
  in any object at any depth.
\<close>

theorem sanitizeForJson_no_sensitive_field: "hasSensitiveFieldName (sanitizeForJson v) = False"
  by (simp add: sanitize_no_sensitive)


end
