(* ===== verification/Zod.thy ===== *)
theory Zod
  imports Js_Regex
begin

text \<open>
  The schema language of the zod package as the sources use it. A schema is the expression the
  source writes; what \<open>safeParse\<close> makes of it is third-party code and stays a parameter, in the
  record \<open>host\<close>, together with \<open>Date.parse\<close>, which ECMAScript leaves to the implementation
  for most strings. The locale \<open>zod\<close> states the documented behaviour the sources rely on, one
  law per combinator. \<open>zod_reference\<close> is a library that satisfies the laws.
\<close>

datatype schema =
    ZString
  | ZNumber
  | ZBoolean
  | ZDate
  | ZNull
  | ZLiteral js
  | ZEnum "string list"
  | ZRegex schema re string
  | ZInt schema
  | ZMin schema rat
  | ZMax schema rat
  | ZOr schema schema
  | ZOptional schema
  | ZArray schema
  | ZObject "(string \<times> schema) list"
  | ZRecord schema
  | ZPreprocess "js \<Rightarrow> js" schema
  | ZRefine schema "js \<Rightarrow> bool" string
  | ZSuperRefine schema "js \<Rightarrow> js \<times> issue list"
  | ZBrand schema string

record host =
  safeParse :: "schema \<Rightarrow> js \<Rightarrow> issue list + js"
  errorMessage :: "issue list \<Rightarrow> string"
  dateParse :: "string \<Rightarrow> int option"

text \<open>\<open>schema.safeParse(v)\<close> succeeds with the given data.\<close>

definition accepts :: "host \<Rightarrow> schema \<Rightarrow> js \<Rightarrow> js \<Rightarrow> bool" where
  "accepts z sch v out \<longleftrightarrow> safeParse z sch v = Inr out"

text \<open>\<open>schema.parse(v)\<close>: returns the data or throws a \<open>ZodError\<close>.\<close>

definition zod_parse :: "host \<Rightarrow> schema \<Rightarrow> js \<Rightarrow> js_error + js" where
  "zod_parse z sch v =
     (case safeParse z sch v of
        Inl issues \<Rightarrow> Inl (ZodError issues (errorMessage z issues))
      | Inr out \<Rightarrow> Inr out)"

text \<open>What an object schema takes for an object: dates too, which have no own properties.\<close>

fun objectlike :: "js \<Rightarrow> bool" where
  "objectlike (JObj _) = True"
| "objectlike (JDate _) = True"
| "objectlike _ = False"

text \<open>
  The data an object schema returns: the keys of the shape in their order, without those whose
  value is undefined and that the input does not have.
\<close>

definition object_output :: "(string \<times> schema) list \<Rightarrow> props \<Rightarrow> js list \<Rightarrow> js" where
  "object_output shape ps ys =
     JObj (filter (\<lambda>(k, y). y \<noteq> JUndef \<or> k \<in> fst ` set ps) (zip (map fst shape) ys))"

lemma map_of_filter_key:
  "map_of ps k = Some y \<Longrightarrow> distinct (map fst ps) \<Longrightarrow>
   map_of (filter P ps) k = (if P (k, y) then Some y else None)"
  by (induction ps) (auto simp: map_of_eq_None_iff)

lemma pget_object_output:
  "map_of (zip (map fst shape) ys) k = Some y \<Longrightarrow> distinct (map fst shape) \<Longrightarrow>
   length ys = length shape \<Longrightarrow> get (object_output shape ps ys) k = y"
  by (auto simp: object_output_def pget_def map_of_filter_key)

locale zod =
  fixes z :: host
  assumes string_law: "accepts z ZString v out \<longleftrightarrow> is_str v \<and> out = v"
    and number_law: "accepts z ZNumber v out \<longleftrightarrow> (\<exists>x. v = JNum (Fin x)) \<and> out = v"
    and boolean_law: "accepts z ZBoolean v out \<longleftrightarrow> (\<exists>b. v = JBool b) \<and> out = v"
    and date_law: "accepts z ZDate v out \<longleftrightarrow> (\<exists>t. v = JDate (Some t)) \<and> out = v"
    and null_law: "accepts z ZNull v out \<longleftrightarrow> v = JNull \<and> out = v"
    and literal_law: "accepts z (ZLiteral l) v out \<longleftrightarrow> v = l \<and> out = v"
    and enum_law: "accepts z (ZEnum ls) v out \<longleftrightarrow> (\<exists>s \<in> set ls. v = JStr s) \<and> out = v"
    and regex_law: "accepts z (ZRegex sch r m) v out \<longleftrightarrow>
          accepts z sch v out \<and> (\<exists>s. out = JStr s \<and> test r s)"
    and int_law: "accepts z (ZInt sch) v out \<longleftrightarrow>
          accepts z sch v out \<and> (\<exists>i. out = jint i \<and> \<bar>i\<bar> < 2 ^ 53)"
    and min_law: "accepts z (ZMin sch lo) v out \<longleftrightarrow>
          accepts z sch v out \<and> (\<exists>x. out = JNum (Fin x) \<and> lo \<le> x)"
    and max_law: "accepts z (ZMax sch hi) v out \<longleftrightarrow>
          accepts z sch v out \<and> (\<exists>x. out = JNum (Fin x) \<and> x \<le> hi)"
    and or_law: "accepts z (ZOr a b) v out \<longleftrightarrow>
          accepts z a v out \<or> (\<forall>o1. \<not> accepts z a v o1) \<and> accepts z b v out"
    and optional_law: "accepts z (ZOptional sch) v out \<longleftrightarrow>
          (if v = JUndef then out = JUndef else accepts z sch v out)"
    and array_law: "accepts z (ZArray sch) v out \<longleftrightarrow>
          (\<exists>xs ys. v = JArr xs \<and> out = JArr ys \<and> list_all2 (accepts z sch) xs ys)"
    and object_law: "accepts z (ZObject shape) v out \<longleftrightarrow>
          objectlike v \<and>
          (\<exists>ys. list_all2 (\<lambda>(k, sch) y. accepts z sch (get v k) y) shape ys \<and>
                out = object_output shape (props_of v) ys)"
    and record_law: "accepts z (ZRecord sch) v out \<longleftrightarrow>
          (\<exists>ps qs. v = JObj ps \<and> out = JObj qs \<and>
             list_all2 (\<lambda>(k, x) (k', y). k = k' \<and> accepts z sch x y) ps qs)"
    and preprocess_law: "accepts z (ZPreprocess f sch) v out \<longleftrightarrow> accepts z sch (f v) out"
    and refine_law: "accepts z (ZRefine sch p m) v out \<longleftrightarrow> accepts z sch v out \<and> p out"
    and super_refine_law: "accepts z (ZSuperRefine sch g) v out \<longleftrightarrow>
          (\<exists>o1. accepts z sch v o1 \<and> g o1 = (out, []))"
    and super_refine_issues: "accepts z sch v o1 \<Longrightarrow> snd (g o1) \<noteq> [] \<Longrightarrow>
          safeParse z (ZSuperRefine sch g) v = Inl (snd (g o1))"
    and brand_law: "accepts z (ZBrand sch bb) v out \<longleftrightarrow> accepts z sch v out"
    and issues_law: "safeParse z sch v = Inl issues \<Longrightarrow> issues \<noteq> []"
begin

lemmas scalar_laws = string_law number_law boolean_law date_law null_law literal_law enum_law
lemmas check_laws = regex_law int_law min_law max_law refine_law brand_law preprocess_law
lemmas structure_laws = or_law optional_law array_law object_law record_law super_refine_law

lemma accepts_unique: "accepts z sch v o1 \<Longrightarrow> accepts z sch v o2 \<Longrightarrow> o1 = o2"
  by (simp add: accepts_def)

lemma parse_accepts: "zod_parse z sch v = Inr out \<longleftrightarrow> accepts z sch v out"
  by (auto simp: zod_parse_def accepts_def split: sum.splits)

lemma parse_rejects: "(\<forall>out. \<not> accepts z sch v out) \<Longrightarrow> \<exists>iss m. zod_parse z sch v = Inl (ZodError iss m)"
  by (auto simp: zod_parse_def accepts_def split: sum.splits)

lemma object_result: "accepts z (ZObject shape) v out \<Longrightarrow> is_obj out"
  by (auto simp: object_law object_output_def)

text \<open>Every field of an accepted object was accepted by the schema of that field.\<close>

lemma object_field:
  assumes "accepts z (ZObject shape) v out" and "(k, sch) \<in> set shape" and "distinct (map fst shape)"
  shows "accepts z sch (get v k) (get out k)"
proof -
  from assms(1) obtain ys where
    ys: "list_all2 (\<lambda>(k, sch) y. accepts z sch (get v k) y) shape ys"
    and out: "out = object_output shape (props_of v) ys"
    by (auto simp: object_law)
  from assms(2) obtain i where i: "i < length shape" "shape ! i = (k, sch)"
    by (auto simp: in_set_conv_nth)
  with ys have y: "accepts z sch (get v k) (ys ! i)" and len: "length ys = length shape"
    by (auto dest: list_all2_nthD list_all2_lengthD)
  have "map_of (zip (map fst shape) ys) k = Some (ys ! i)"
    using map_of_zip_nth [of "map fst shape" ys i] assms(3) i len by simp
  then have "get out k = ys ! i"
    unfolding out by (rule pget_object_output [OF _ assms(3) len])
  with y show ?thesis by simp
qed

end

subsection \<open>A library that satisfies the laws\<close>

fun ref_out :: "schema \<Rightarrow> js \<Rightarrow> js option" where
  "ref_out ZString v = (if is_str v then Some v else None)"
| "ref_out ZNumber v = (case v of JNum (Fin x) \<Rightarrow> Some v | _ \<Rightarrow> None)"
| "ref_out ZBoolean v = (case v of JBool b \<Rightarrow> Some v | _ \<Rightarrow> None)"
| "ref_out ZDate v = (case v of JDate (Some t) \<Rightarrow> Some v | _ \<Rightarrow> None)"
| "ref_out ZNull v = (case v of JNull \<Rightarrow> Some v | _ \<Rightarrow> None)"
| "ref_out (ZLiteral l) v = (if v = l then Some v else None)"
| "ref_out (ZEnum ls) v = (if is_str v \<and> str_of v \<in> set ls then Some v else None)"
| "ref_out (ZRegex sch r m) v =
     (case ref_out sch v of Some out \<Rightarrow> if is_str out \<and> test r (str_of out) then Some out else None
      | None \<Rightarrow> None)"
| "ref_out (ZInt sch) v =
     (case ref_out sch v of
        Some (JNum (Fin x)) \<Rightarrow> if of_int \<lfloor>x\<rfloor> = x \<and> \<bar>\<lfloor>x\<rfloor>\<bar> < 2 ^ 53 then Some (JNum (Fin x)) else None
      | _ \<Rightarrow> None)"
| "ref_out (ZMin sch lo) v =
     (case ref_out sch v of Some (JNum (Fin x)) \<Rightarrow> if lo \<le> x then Some (JNum (Fin x)) else None
      | _ \<Rightarrow> None)"
| "ref_out (ZMax sch hi) v =
     (case ref_out sch v of Some (JNum (Fin x)) \<Rightarrow> if x \<le> hi then Some (JNum (Fin x)) else None
      | _ \<Rightarrow> None)"
| "ref_out (ZOr a b) v = (case ref_out a v of Some out \<Rightarrow> Some out | None \<Rightarrow> ref_out b v)"
| "ref_out (ZOptional sch) v = (if v = JUndef then Some JUndef else ref_out sch v)"
| "ref_out (ZArray sch) v =
     (case v of JArr xs \<Rightarrow> map_option JArr (those (map (ref_out sch) xs)) | _ \<Rightarrow> None)"
| "ref_out (ZObject shape) v =
     (if objectlike v
      then map_option (object_output shape (props_of v))
             (those (map (\<lambda>(k, sch). ref_out sch (get v k)) shape))
      else None)"
| "ref_out (ZRecord sch) v =
     (case v of
        JObj ps \<Rightarrow> map_option (\<lambda>ys. JObj (zip (map fst ps) ys))
                    (those (map (\<lambda>(k, x). ref_out sch x) ps))
      | _ \<Rightarrow> None)"
| "ref_out (ZPreprocess f sch) v = ref_out sch (f v)"
| "ref_out (ZRefine sch p m) v =
     (case ref_out sch v of Some out \<Rightarrow> if p out then Some out else None | None \<Rightarrow> None)"
| "ref_out (ZSuperRefine sch g) v =
     (case ref_out sch v of
        Some o1 \<Rightarrow> (case g o1 of (out, []) \<Rightarrow> Some out | _ \<Rightarrow> None)
      | None \<Rightarrow> None)"
| "ref_out (ZBrand sch b) v = ref_out sch v"

definition ref_issues :: "schema \<Rightarrow> js \<Rightarrow> issue list" where
  "ref_issues sch v =
     (let invalid = [\<lparr>issue_path = [], issue_message = ''Invalid input''\<rparr>]
      in case sch of
           ZSuperRefine sch' g \<Rightarrow>
             (case ref_out sch' v of Some o1 \<Rightarrow> snd (g o1) | None \<Rightarrow> invalid)
         | _ \<Rightarrow> invalid)"

definition zod_reference :: host where
  "zod_reference =
     \<lparr>safeParse = (\<lambda>sch v. case ref_out sch v of Some out \<Rightarrow> Inr out | None \<Rightarrow> Inl (ref_issues sch v)),
      errorMessage = (\<lambda>issues. join '', '' (map issue_message issues)),
      dateParse = date_parse\<rparr>"

lemma safeParse_reference:
  "safeParse zod_reference sch v =
     (case ref_out sch v of Some out \<Rightarrow> Inr out | None \<Rightarrow> Inl (ref_issues sch v))"
  by (simp add: zod_reference_def)

lemma accepts_reference: "accepts zod_reference sch v out \<longleftrightarrow> ref_out sch v = Some out"
  by (simp add: accepts_def zod_reference_def split: option.splits)

lemma those_Some_iff: "those xs = Some ys \<longleftrightarrow> list_all2 (\<lambda>x y. x = Some y) xs ys"
  by (induction xs arbitrary: ys) (auto simp: list_all2_Cons1 split: option.splits)

lemma those_map_iff:
  "those (map f xs) = Some ys \<longleftrightarrow> list_all2 (\<lambda>x y. f x = Some y) xs ys"
  by (simp add: those_Some_iff list_all2_map1)

lemma record_entries_iff:
  "list_all2 (\<lambda>(k, x) (k', y). k = k' \<and> f x = Some y) ps qs \<longleftrightarrow>
     (\<exists>ys. those (map (\<lambda>(k, x). f x) ps) = Some ys \<and> qs = zip (map fst ps) ys)"
proof (induction ps arbitrary: qs)
  case (Cons e ps)
  then show ?case
    by (cases e) (auto simp: list_all2_Cons1 split: option.splits)
qed auto

interpretation zref: zod zod_reference
proof
  fix v out sch m r lo hi a b l ls f p g o1 shape ps issues bb
  show "accepts zod_reference ZString v out = (is_str v \<and> out = v)"
    by (auto simp: accepts_reference)
  show "accepts zod_reference ZNumber v out = ((\<exists>x. v = JNum (Fin x)) \<and> out = v)"
    by (auto simp: accepts_reference split: js.splits jsnum.splits)
  show "accepts zod_reference ZBoolean v out = ((\<exists>b. v = JBool b) \<and> out = v)"
    by (auto simp: accepts_reference split: js.splits)
  show "accepts zod_reference ZDate v out = ((\<exists>t. v = JDate (Some t)) \<and> out = v)"
    by (auto simp: accepts_reference split: js.splits option.splits)
  show "accepts zod_reference ZNull v out = (v = JNull \<and> out = v)"
    by (auto simp: accepts_reference split: js.splits)
  show "accepts zod_reference (ZLiteral l) v out = (v = l \<and> out = v)"
    by (auto simp: accepts_reference)
  show "accepts zod_reference (ZEnum ls) v out = ((\<exists>s\<in>set ls. v = JStr s) \<and> out = v)"
    by (cases v) (auto simp: accepts_reference)
  show "accepts zod_reference (ZRegex sch r m) v out =
      (accepts zod_reference sch v out \<and> (\<exists>s. out = JStr s \<and> test r s))"
    by (cases out) (auto simp: accepts_reference split: option.splits)
  show "accepts zod_reference (ZInt sch) v out =
      (accepts zod_reference sch v out \<and> (\<exists>i. out = jint i \<and> \<bar>i\<bar> < 2 ^ 53))"
    by (auto simp: accepts_reference jint_def split: option.splits js.splits jsnum.splits)
  show "accepts zod_reference (ZMin sch lo) v out =
      (accepts zod_reference sch v out \<and> (\<exists>x. out = JNum (Fin x) \<and> lo \<le> x))"
    by (auto simp: accepts_reference split: option.splits js.splits jsnum.splits)
  show "accepts zod_reference (ZMax sch hi) v out =
      (accepts zod_reference sch v out \<and> (\<exists>x. out = JNum (Fin x) \<and> x \<le> hi))"
    by (auto simp: accepts_reference split: option.splits js.splits jsnum.splits)
  show "accepts zod_reference (ZOr a b) v out =
      (accepts zod_reference a v out \<or>
       (\<forall>o1. \<not> accepts zod_reference a v o1) \<and> accepts zod_reference b v out)"
    by (auto simp: accepts_reference split: option.splits)
  show "accepts zod_reference (ZOptional sch) v out =
      (if v = JUndef then out = JUndef else accepts zod_reference sch v out)"
    by (auto simp: accepts_reference)
  show "accepts zod_reference (ZArray sch) v out =
      (\<exists>xs ys. v = JArr xs \<and> out = JArr ys \<and> list_all2 (accepts zod_reference sch) xs ys)"
    by (cases v) (auto simp: accepts_reference those_map_iff accepts_reference [abs_def])
  show "accepts zod_reference (ZObject shape) v out =
      (objectlike v \<and>
       (\<exists>ys. list_all2 (\<lambda>(k, sch) y. accepts zod_reference sch (get v k) y) shape ys \<and>
             out = object_output shape (props_of v) ys))"
    by (auto simp: accepts_reference those_map_iff case_prod_unfold)
  show "accepts zod_reference (ZRecord sch) v out =
      (\<exists>ps qs. v = JObj ps \<and> out = JObj qs \<and>
         list_all2 (\<lambda>(k, x) (k', y). k = k' \<and> accepts zod_reference sch x y) ps qs)"
    by (cases v) (auto simp: accepts_reference record_entries_iff)
  show "accepts zod_reference (ZPreprocess f sch) v out = accepts zod_reference sch (f v) out"
    by (simp add: accepts_reference)
  show "accepts zod_reference (ZRefine sch p m) v out = (accepts zod_reference sch v out \<and> p out)"
    by (auto simp: accepts_reference split: option.splits)
  show "accepts zod_reference (ZSuperRefine sch g) v out =
      (\<exists>o1. accepts zod_reference sch v o1 \<and> g o1 = (out, []))"
    by (auto simp: accepts_reference split: option.splits prod.splits list.splits)
  show "accepts zod_reference sch v o1 \<Longrightarrow> snd (g o1) \<noteq> [] \<Longrightarrow>
      safeParse zod_reference (ZSuperRefine sch g) v = Inl (snd (g o1))"
    by (auto simp: accepts_reference safeParse_reference ref_issues_def split: option.splits prod.splits list.splits)
  show "accepts zod_reference (ZBrand sch bb) v out = accepts zod_reference sch v out"
    by (simp add: accepts_reference)
  show "safeParse zod_reference sch v = Inl issues \<Longrightarrow> issues \<noteq> []"
    by (cases sch) (auto simp: safeParse_reference ref_issues_def Let_def split: option.splits prod.splits list.splits)
qed

end
