(* ===== verification/Entities.thy ===== *)
theory Entities
  imports Secrets Zod
begin

text \<open>
  The entity schemas of \<open>packages/core/src/entities/types.ts\<close> and the validators of
  \<open>packages/core/src/utils/validators.ts\<close>. A schema is the expression of the source; the
  \<open>superRefine\<close> callbacks are functions that return the object they leave behind and the issues
  they add. Entities are runtime objects, read with \<open>get\<close>. Messages the source writes in
  Cyrillic are transliterated. The lemmas characterise the strings the regular expressions accept
  and give the well-formedness \<open>route_wf\<close> of every route the schema lets through.
\<close>

subsection \<open>Branded primitives\<close>

definition is_alpha :: "char \<Rightarrow> bool" where
  "is_alpha c \<longleftrightarrow> is_upper c \<or> is_lower c"

definition domain_char :: "char \<Rightarrow> bool" where
  "domain_char c \<longleftrightarrow> is_alnum c \<or> c = CHR ''-''"

definition label_re :: re where
  "label_re = Seq (Chr is_alnum) (Opt (Seq (Upto 61 (Chr domain_char)) (Chr is_alnum)))"

definition domain_re :: re where
  "domain_re =
     anchored (Seq (Plus (Seq label_re (lit ''.''))) (Seq (Chr is_alpha) (Plus (Chr is_alpha))))"

definition DomainSchema :: schema where
  "DomainSchema = ZBrand (ZRegex ZString domain_re ''Invalid domain'') ''Domain''"

definition port_preprocess :: "js \<Rightarrow> js" where
  "port_preprocess val =
     (case val of
        JStr s \<Rightarrow> if trim s \<noteq> [] then (let num = js_Number s in if num = NaN then val else JNum num) else val
      | _ \<Rightarrow> val)"

definition PortSchema :: schema where
  "PortSchema = ZPreprocess port_preprocess (ZBrand (ZMax (ZMin (ZInt ZNumber) 1) 65535) ''Port'')"

definition unix_char :: "char \<Rightarrow> bool" where
  "unix_char c \<longleftrightarrow> is_alnum c \<or> c \<in> set ''_.-''"

definition unix_path_re :: re where
  "unix_path_re =
     anchored (Seq (lit ''/'') (Opt (Seq (Plus (Chr unix_char)) (Star (Seq (lit ''/'') (Plus (Chr unix_char)))))))"

definition UnixPathSchema :: schema where
  "UnixPathSchema =
     ZBrand (ZOr (ZRegex ZString unix_path_re ''Invalid unix path'') (ZLiteral (JStr ''''))) ''UnixPath''"

definition url_char :: "char \<Rightarrow> bool" where
  "url_char c \<longleftrightarrow> is_alnum c \<or> c \<in> set ''_./-''"

definition url_path_re :: re where
  "url_path_re = anchored (Seq (lit ''/'') (Star (Chr url_char)))"

definition URLPathSchema :: schema where
  "URLPathSchema = ZBrand (ZRegex ZString url_path_re ''Invalid url path'') ''URLPath''"

subsection \<open>Units\<close>

definition unit_re :: "string \<Rightarrow> re" where
  "unit_re us = anchored (Seq (Plus (Chr is_digit)) (Chr (\<lambda>c. lower_char c \<in> set us)))"

definition SizeUnitSchema :: schema where
  "SizeUnitSchema = ZRegex ZString (unit_re ''kmg'') ''''"

definition TimeUnitSchema :: schema where
  "TimeUnitSchema = ZRegex ZString (unit_re ''smhd'') ''''"

subsection \<open>Locations and advanced settings\<close>

definition host_char :: "char \<Rightarrow> bool" where
  "host_char c \<longleftrightarrow> is_alnum c \<or> c \<in> set ''.-''"

definition proxy_target_re :: re where
  "proxy_target_re = anchored
     (Seq (Opt (seqs [lit ''http'', Opt (lit ''s''), lit ''://'']))
     (Seq (Plus (Chr host_char))
     (Seq (Opt (Seq (lit '':'') (Plus (Chr is_digit))))
          (Opt (Seq (lit ''/'') (Star (Chr not_newline)))))))"

definition no_embedded_credentials :: "js \<Rightarrow> bool" where
  "no_embedded_credentials value \<longleftrightarrow> \<not> containsSecretLikeValue (str_of value)"

definition ProxyTargetSchema :: schema where
  "ProxyTargetSchema = ZOptional
     (ZRefine (ZRegex ZString proxy_target_re ''Invalid proxy target (must be domain or URL)'')
        no_embedded_credentials
        ''Proxy target must not contain embedded credentials'')"

abbreviation issue_at :: "string \<Rightarrow> string \<Rightarrow> issue" where
  "issue_at p m \<equiv> \<lparr>issue_path = [p], issue_message = m\<rparr>"

definition location_refine :: "js \<Rightarrow> js \<times> issue list" where
  "location_refine loc =
     (loc,
      (if truthy (get loc ''proxy_pass'') \<and> truthy (get loc ''try_files'')
       then [issue_at ''try_files'' ''proxy_pass i try_files ne dolzhny ispolzovatsja vmeste''] else []) @
      (if truthy (get loc ''extra_directives'') \<and>
          containsSensitiveDirective (str_of (get loc ''extra_directives''))
       then [issue_at ''extra_directives''
               ''Location directives must not contain credentials or sensitive headers''] else []))"

definition LocationConfigSchema :: schema where
  "LocationConfigSchema = ZSuperRefine
     (ZObject
        [(''path'', URLPathSchema),
         (''proxy_pass'', ProxyTargetSchema),
         (''try_files'', ZOptional ZString),
         (''index'', ZOptional ZString),
         (''extra_directives'', ZOptional ZString)])
     location_refine"

definition advanced_refine :: "js \<Rightarrow> js \<times> issue list" where
  "advanced_refine adv =
     (let gzip = get adv ''gzip''; caching = get adv ''caching'';
          i1 = (if truthy gzip \<and> (\<not> truthy (get adv ''gzip_types'') \<or> trim (str_of (get adv ''gzip_types'')) = [])
                then [issue_at ''gzip_types'' ''Neobhodimo ukazat gzip_types pri vkljuchennom gzip''] else []);
          adv1 = (if \<not> truthy gzip \<and> truthy (get adv ''gzip_types'')
                  then set_prop ''gzip_types'' JUndef adv else adv);
          i2 = (if truthy caching \<and> \<not> truthy (get adv1 ''cache_valid'')
                then [issue_at ''cache_valid'' ''Neobhodimo ukazat cache_valid pri vkljuchennom caching''] else []);
          adv2 = (if \<not> truthy caching \<and> truthy (get adv1 ''cache_valid'')
                  then set_prop ''cache_valid'' JUndef adv1 else adv1)
      in (adv2, i1 @ i2))"

definition AdvancedConfigSchema :: schema where
  "AdvancedConfigSchema = ZSuperRefine
     (ZObject
        [(''client_max_body_size'', SizeUnitSchema),
         (''keepalive_timeout'', TimeUnitSchema),
         (''gzip'', ZBoolean),
         (''gzip_types'', ZOptional ZString),
         (''caching'', ZBoolean),
         (''cache_valid'', ZOptional TimeUnitSchema)])
     advanced_refine"

subsection \<open>Routes\<close>

definition revive_date :: "host \<Rightarrow> js \<Rightarrow> js" where
  "revive_date z val = (case val of JStr s \<Rightarrow> JDate (dateParse z s) | _ \<Rightarrow> val)"

text \<open>\<open>paths.filter((p, i) => paths.indexOf(p) !== i)\<close>: every path that occurred before.\<close>

fun repeated :: "'a list \<Rightarrow> 'a list \<Rightarrow> 'a list" where
  "repeated seen [] = []"
| "repeated seen (p # ps) = (if p \<in> set seen then [p] else []) @ repeated (p # seen) ps"

definition location_paths :: "js \<Rightarrow> js list" where
  "location_paths route = map (\<lambda>l. get l ''path'') (elems_of (get route ''locations''))"

definition ssl_refine :: "js \<Rightarrow> js \<times> issue list" where
  "ssl_refine route =
     (if truthy (get route ''ssl'')
      then (route,
            if \<not> truthy (get route ''ssl_certificate'') \<or> \<not> truthy (get route ''ssl_certificate_key'')
            then [issue_at ''ssl_certificate''
                    ''SSL vkljuchen, no otsutstvujut ssl_certificate i/ili ssl_certificate_key''] else [])
      else (set_prop ''ssl_certificate_key'' JUndef (set_prop ''ssl_certificate'' JUndef route), []))"

definition route_refine :: "js \<Rightarrow> js \<times> issue list" where
  "route_refine r0 =
     (let (route, i1) = ssl_refine r0;
          proxy = truthy (get route ''proxy_pass'');
          duplicates = repeated [] (location_paths route)
      in (route,
          i1 @
          (if proxy \<and> elems_of (get route ''locations'') \<noteq> []
           then [issue_at ''proxy_pass''
                   ''proxy_pass na urovne server i location-bloki ne dolzhny ispolzovatsja odnovremenno''] else []) @
          (if \<not> proxy \<and> trim (str_of (get route ''root'')) = []
           then [issue_at ''root'' ''Pole root objazatelno, esli ne ukazan proxy_pass''] else []) @
          (if get route ''port'' = jint 443 \<and> \<not> truthy (get route ''ssl'')
           then [issue_at ''ssl'' ''Port 443 trebuet vkljuchennyj SSL''] else []) @
          (if get route ''port'' = jint 80 \<and> truthy (get route ''ssl'')
           then [issue_at ''ssl'' ''Port 80 ne mozhet ispolzovat SSL''] else []) @
          (if duplicates \<noteq> []
           then [issue_at ''locations''
                   (''Najdeno neskolko location s odinakovym putem: '' @ join '', '' (map js_to_string duplicates))]
           else [])))"

definition MetadataSchema :: "host \<Rightarrow> schema" where
  "MetadataSchema z = ZObject
     [(''createdAt'', ZPreprocess (revive_date z) ZDate),
      (''updatedAt'', ZPreprocess (revive_date z) ZDate),
      (''createdBy'', ZString),
      (''tags'', ZArray ZString)]"

definition route_shape :: "host \<Rightarrow> (string \<times> schema) list" where
  "route_shape z =
     [(''id'', ZString),
      (''domain'', DomainSchema),
      (''port'', PortSchema),
      (''root'', UnixPathSchema),
      (''enabled'', ZBoolean),
      (''ssl'', ZBoolean),
      (''ssl_certificate'', ZOptional UnixPathSchema),
      (''ssl_certificate_key'', ZOptional UnixPathSchema),
      (''proxy_pass'', ProxyTargetSchema),
      (''locations'', ZArray LocationConfigSchema),
      (''advanced'', ZOptional AdvancedConfigSchema),
      (''metadata'', ZOptional (MetadataSchema z))]"

definition RouteSchema :: "host \<Rightarrow> schema" where
  "RouteSchema z = ZSuperRefine (ZObject (route_shape z)) route_refine"

subsection \<open>Logs and server\<close>

definition LogLevelSchema :: schema where
  "LogLevelSchema = ZEnum [''info'', ''warning'', ''error'', ''debug'']"

definition LogSourceSchema :: schema where
  "LogSourceSchema = ZEnum [''nginx'', ''system'', ''user'']"

definition LogEntrySchema :: schema where
  "LogEntrySchema = ZObject
     [(''id'', ZString),
      (''timestamp'', ZDate),
      (''level'', LogLevelSchema),
      (''message'', ZString),
      (''source'', LogSourceSchema),
      (''ip'', ZOptional ZString),
      (''routeId'', ZOptional ZString),
      (''context'', ZOptional (ZRecord (ZOr ZString (ZOr ZNumber (ZOr ZBoolean ZNull)))))]"

definition LogFiltersSchema :: schema where
  "LogFiltersSchema = ZObject
     [(''level'', ZOptional (ZOr LogLevelSchema (ZLiteral (JStr ''all'')))),
      (''search'', ZString),
      (''source'', ZOptional LogSourceSchema),
      (''routeId'', ZOptional ZString),
      (''dateRange'', ZOptional (ZObject [(''start'', ZDate), (''end'', ZDate)]))]"

definition ServerStatusSchema :: schema where
  "ServerStatusSchema = ZEnum [''running'', ''stopped'', ''restarting'']"

definition ServerStateSchema :: schema where
  "ServerStateSchema = ZObject
     [(''status'', ServerStatusSchema),
      (''stats'', ZObject
         [(''requests'', ZNumber),
          (''traffic'', ZString),
          (''activeConnections'', ZNumber),
          (''uptime'', ZNumber),
          (''cpuUsage'', ZNumber),
          (''memoryUsage'', ZNumber)]),
      (''version'', ZString),
      (''lastUpdated'', ZDate)]"

subsection \<open>Validators\<close>

definition makeValidator :: "host \<Rightarrow> schema \<Rightarrow> js \<Rightarrow> bool" where
  "makeValidator z sch val = (case safeParse z sch val of Inr _ \<Rightarrow> True | Inl _ \<Rightarrow> False)"

lemma makeValidator_iff: "makeValidator z sch v \<longleftrightarrow> (\<exists>out. accepts z sch v out)"
  by (simp add: makeValidator_def accepts_def split: sum.splits)

definition validateDomain :: "host \<Rightarrow> js \<Rightarrow> bool" where
  "validateDomain z = makeValidator z DomainSchema"

definition validatePort :: "host \<Rightarrow> js \<Rightarrow> bool" where
  "validatePort z = makeValidator z PortSchema"

definition validateUnixPath :: "host \<Rightarrow> js \<Rightarrow> bool" where
  "validateUnixPath z = makeValidator z UnixPathSchema"

definition validateURLPath :: "host \<Rightarrow> js \<Rightarrow> bool" where
  "validateURLPath z = makeValidator z URLPathSchema"

definition validateLocation :: "host \<Rightarrow> js \<Rightarrow> bool" where
  "validateLocation z = makeValidator z LocationConfigSchema"

definition validateSizeUnit :: "host \<Rightarrow> js \<Rightarrow> bool" where
  "validateSizeUnit z = makeValidator z SizeUnitSchema"

definition validateTimeUnit :: "host \<Rightarrow> js \<Rightarrow> bool" where
  "validateTimeUnit z = makeValidator z TimeUnitSchema"

definition validateAdvancedConfig :: "host \<Rightarrow> js \<Rightarrow> bool" where
  "validateAdvancedConfig z = makeValidator z AdvancedConfigSchema"

definition validateLogLevel :: "host \<Rightarrow> js \<Rightarrow> bool" where
  "validateLogLevel z = makeValidator z LogLevelSchema"

definition validateLogSource :: "host \<Rightarrow> js \<Rightarrow> bool" where
  "validateLogSource z = makeValidator z LogSourceSchema"

definition validateLogEntry :: "host \<Rightarrow> js \<Rightarrow> bool" where
  "validateLogEntry z = makeValidator z LogEntrySchema"

definition validateLogFilters :: "host \<Rightarrow> js \<Rightarrow> bool" where
  "validateLogFilters z = makeValidator z LogFiltersSchema"

definition validateServerStatus :: "host \<Rightarrow> js \<Rightarrow> bool" where
  "validateServerStatus z = makeValidator z ServerStatusSchema"

definition validateServerState :: "host \<Rightarrow> js \<Rightarrow> bool" where
  "validateServerState z = makeValidator z ServerStateSchema"

definition validateRoute :: "host \<Rightarrow> js \<Rightarrow> bool" where
  "validateRoute z = makeValidator z (RouteSchema z)"

subsection \<open>What the regular expressions accept\<close>

definition valid_label :: "string \<Rightarrow> bool" where
  "valid_label l \<longleftrightarrow>
     l \<noteq> [] \<and> length l \<le> 63 \<and> list_all domain_char l \<and> is_alnum (hd l) \<and> is_alnum (last l)"

definition valid_tld :: "string \<Rightarrow> bool" where
  "valid_tld l \<longleftrightarrow> 2 \<le> length l \<and> list_all is_alpha l"

text \<open>A host name read label by label: the reference definition the expression is compared with.\<close>

definition valid_domain :: "string \<Rightarrow> bool" where
  "valid_domain s \<longleftrightarrow>
     (let ls = split_on (CHR ''.'') s
      in 2 \<le> length ls \<and> list_all valid_label (butlast ls) \<and> valid_tld (last ls))"

lemma alnum_domain_char [simp]: "is_alnum c \<Longrightarrow> domain_char c"
  by (simp add: domain_char_def)

lemma domain_char_not_dot: "\<not> domain_char (CHR ''.'')"
  by (simp add: domain_char_def is_alnum_def is_digit_def is_upper_def is_lower_def in_range_def code_of_def)

lemma is_alpha_not_dot: "\<not> is_alpha (CHR ''.'')"
  by (simp add: is_alpha_def is_upper_def is_lower_def in_range_def code_of_def)

lemma matches_label_re: "matches label_re p w v \<longleftrightarrow> valid_label w"
proof
  assume "matches label_re p w v"
  then consider c where "w = [c]" "is_alnum c"
    | c m d where "w = c # m @ [d]" "is_alnum c" "is_alnum d" "list_all domain_char m" "length m \<le> 61"
    by (auto simp: label_re_def matches_Seq)
  then show "valid_label w" by cases (auto simp: valid_label_def)
next
  assume v: "valid_label w"
  then obtain c w' where w: "w = c # w'" by (cases w) (auto simp: valid_label_def)
  show "matches label_re p w v"
  proof (cases w' rule: rev_cases)
    case Nil
    with v w show ?thesis by (auto simp: label_re_def valid_label_def)
  next
    case (snoc m d)
    with v w have "is_alnum c" "list_all domain_char m" "length m \<le> 61" "is_alnum d"
      by (auto simp: valid_label_def)
    then have "matches (Seq (Upto 61 (Chr domain_char)) (Chr is_alnum)) q (m @ [d]) v" for q
      unfolding matches_Seq by (intro exI [of _ m] exI [of _ "[d]"]) simp
    with \<open>is_alnum c\<close> snoc w show ?thesis by (simp add: label_re_def)
  qed
qed

lemma matches_labels:
  "matches (Plus (Seq label_re (lit ''.''))) p w v \<longleftrightarrow>
     (\<exists>ls. ls \<noteq> [] \<and> w = concat (map (\<lambda>l. l @ ''.'') ls) \<and> list_all valid_label ls)"
proof -
  have part: "matches (Seq label_re (lit ''.'')) p w v \<longleftrightarrow> (\<exists>l. w = l @ ''.'' \<and> valid_label l)"
    for p w v by (auto simp: matches_Seq matches_label_re)
  have "(\<exists>ws. ws \<noteq> [] \<and> w = concat ws \<and> (\<forall>x \<in> set ws. \<exists>l. x = l @ ''.'' \<and> valid_label l)) \<longleftrightarrow>
        (\<exists>ls. ls \<noteq> [] \<and> w = concat (map (\<lambda>l. l @ ''.'') ls) \<and> list_all valid_label ls)"
    (is "?L \<longleftrightarrow> ?R")
  proof
    assume ?L
    then obtain ws where ws: "ws \<noteq> []" "w = concat ws" "\<forall>x \<in> set ws. \<exists>l. x = l @ ''.'' \<and> valid_label l"
      by blast
    from ws(3) have "map (\<lambda>l. l @ ''.'') (map butlast ws) = ws" "list_all valid_label (map butlast ws)"
      by (induction ws) auto
    with ws show ?R by (intro exI [of _ "map butlast ws"]) simp
  next
    assume ?R
    then obtain ls where "ls \<noteq> []" "w = concat (map (\<lambda>l. l @ ''.'') ls)" "list_all valid_label ls"
      by blast
    then show ?L
      by (intro exI [of _ "map (\<lambda>l. l @ ''.'') ls"]) (auto simp: list_all_iff)
  qed
  then show ?thesis by (subst matches_Plus_concat [OF part]) auto
qed

lemma join_concat_dots: "concat (map (\<lambda>l. l @ [d]) ls) @ t = join [d] (ls @ [t])"
  by (induction ls) (auto simp: join_Cons)

lemma valid_label_no_dot: "valid_label l \<Longrightarrow> CHR ''.'' \<notin> set l"
  using domain_char_not_dot by (auto simp: valid_label_def list_all_iff)

lemma valid_tld_no_dot: "valid_tld l \<Longrightarrow> CHR ''.'' \<notin> set l"
  using is_alpha_not_dot by (auto simp: valid_tld_def list_all_iff)

lemma valid_domain_iff:
  "valid_domain s \<longleftrightarrow>
     (\<exists>ls t. ls \<noteq> [] \<and> s = join ''.'' (ls @ [t]) \<and> list_all valid_label ls \<and> valid_tld t)"
proof
  assume "valid_domain s"
  then show "\<exists>ls t. ls \<noteq> [] \<and> s = join ''.'' (ls @ [t]) \<and> list_all valid_label ls \<and> valid_tld t"
    using join_split_on [of "CHR ''.''" s]
    by (intro exI [of _ "butlast (split_on (CHR ''.'') s)"] exI [of _ "last (split_on (CHR ''.'') s)"])
      (cases "split_on (CHR ''.'') s", auto simp: valid_domain_def Let_def)
next
  assume "\<exists>ls t. ls \<noteq> [] \<and> s = join ''.'' (ls @ [t]) \<and> list_all valid_label ls \<and> valid_tld t"
  then obtain ls t where l: "ls \<noteq> []" "s = join ''.'' (ls @ [t])" "list_all valid_label ls" "valid_tld t"
    by blast
  have "split_on (CHR ''.'') s = ls @ [t]"
    unfolding l(2) using l(3, 4) valid_label_no_dot valid_tld_no_dot
    by (intro split_on_join) (auto simp: list_all_iff)
  with l show "valid_domain s" by (cases ls) (auto simp: valid_domain_def)
qed

lemma test_domain_re: "test domain_re s \<longleftrightarrow> valid_domain s"
proof -
  have tld: "matches (Seq (Chr is_alpha) (Plus (Chr is_alpha))) p w v \<longleftrightarrow> valid_tld w" for p w v
    by (cases w; cases "tl w") (simp_all add: valid_tld_def)
  have "matches (Seq (Plus (Seq label_re (lit ''.''))) (Seq (Chr is_alpha) (Plus (Chr is_alpha)))) [] s [] \<longleftrightarrow>
      (\<exists>ls t. ls \<noteq> [] \<and> s = concat (map (\<lambda>l. l @ ''.'') ls) @ t \<and> list_all valid_label ls \<and> valid_tld t)"
    by (subst matches_Seq) (simp only: matches_labels tld, blast)
  then show ?thesis
    unfolding domain_re_def test_anchored valid_domain_iff join_concat_dots .
qed

subsection \<open>Characters of paths\<close>

text \<open>The characters of domains and paths: none of them ends an nginx directive, opens or closes a block, or separates arguments.\<close>

definition safe_char :: "char \<Rightarrow> bool" where
  "safe_char c \<longleftrightarrow> is_alnum c \<or> c \<in> set ''_./-''"

lemma unix_char_safe: "unix_char c \<Longrightarrow> safe_char c"
  by (auto simp: unix_char_def safe_char_def)

lemma path_segments_chars:
  assumes "matches (Star (Seq (lit ''/'') (Plus (Chr unix_char)))) p w v"
  shows "list_all safe_char w"
proof -
  have part: "matches (Seq (lit ''/'') (Plus (Chr unix_char))) p w v \<longleftrightarrow>
      (\<exists>w'. w = CHR ''/'' # w' \<and> w' \<noteq> [] \<and> list_all unix_char w')" for p w v
    by auto
  from assms obtain ws where "w = concat ws"
    "\<forall>x \<in> set ws. (\<exists>w'. x = CHR ''/'' # w' \<and> w' \<noteq> [] \<and> list_all unix_char w') \<and> x \<noteq> []"
    using matches_Star_concat [OF part, of p w v] by blast
  then show ?thesis
    by (fastforce simp: list_all_iff safe_char_def unix_char_def)
qed

lemma test_unix_path_re: "test unix_path_re s \<Longrightarrow> s \<noteq> [] \<and> hd s = CHR ''/'' \<and> list_all safe_char s"
proof -
  assume "test unix_path_re s"
  then obtain w where s: "s = CHR ''/'' # w"
    and w: "w = [] \<or> matches (Seq (Plus (Chr unix_char)) (Star (Seq (lit ''/'') (Plus (Chr unix_char))))) ''/'' w []"
    by (auto simp: unix_path_re_def test_anchored simp del: lit.simps)
  from w have "list_all safe_char w"
    by (auto simp: matches_Seq simp del: lit.simps matches_Seq_lit dest!: path_segments_chars)
       (auto simp: list_all_iff unix_char_safe)
  with s show ?thesis by (simp add: safe_char_def)
qed

lemma test_url_path_re: "test url_path_re s \<longleftrightarrow> s \<noteq> [] \<and> hd s = CHR ''/'' \<and> list_all safe_char s"
  by (cases s)
    (auto simp: url_path_re_def test_anchored list_all_iff url_char_def safe_char_def simp del: lit.simps)

lemma valid_domain_safe: "valid_domain s \<Longrightarrow> s \<noteq> [] \<and> list_all safe_char s"
proof -
  assume "valid_domain s"
  then obtain ls t where l: "ls \<noteq> []" "s = join ''.'' (ls @ [t])" "list_all valid_label ls" "valid_tld t"
    by (auto simp: valid_domain_iff)
  have "safe_char c" if "c \<in> set s" for c
    using that set_join [of "''.''" "ls @ [t]"] l
    by (fastforce simp: list_all_iff valid_label_def valid_tld_def safe_char_def domain_char_def
        is_alpha_def is_alnum_def)
  moreover have "s \<noteq> []" using l by (cases ls) (auto simp: join_Cons)
  ultimately show ?thesis by (simp add: list_all_iff)
qed

lemma test_unit_re:
  assumes "list_all is_lower us" and "test (unit_re us) s"
  shows "s \<noteq> [] \<and> list_all is_alnum s"
proof -
  from assms(2) obtain w c where s: "s = w @ [c]" "list_all is_digit w" "lower_char c \<in> set us"
    by (auto simp: unit_re_def test_anchored matches_Seq)
  with assms(1) have "is_lower c \<or> is_upper c"
    by (intro is_lower_lower_char) (auto simp: list_all_iff)
  with s show ?thesis by (auto simp: list_all_iff is_alnum_def)
qed

subsection \<open>Well-formed entities\<close>

definition port_wf :: "js \<Rightarrow> bool" where
  "port_wf v = (case v of JNum (Fin x) \<Rightarrow> of_int \<lfloor>x\<rfloor> = x \<and> 1 \<le> x \<and> x \<le> 65535 | _ \<Rightarrow> False)"

definition path_wf :: "js \<Rightarrow> bool" where
  "path_wf v \<longleftrightarrow> is_str v \<and> (str_of v = [] \<or> hd (str_of v) = CHR ''/'') \<and> list_all safe_char (str_of v)"

definition domain_wf :: "js \<Rightarrow> bool" where
  "domain_wf v \<longleftrightarrow> is_str v \<and> valid_domain (str_of v)"

definition is_bool :: "js \<Rightarrow> bool" where
  "is_bool v = (case v of JBool _ \<Rightarrow> True | _ \<Rightarrow> False)"

definition opt_str :: "js \<Rightarrow> bool" where
  "opt_str v \<longleftrightarrow> v = JUndef \<or> is_str v"

definition proxy_wf :: "js \<Rightarrow> bool" where
  "proxy_wf v \<longleftrightarrow> v = JUndef \<or>
     is_str v \<and> test proxy_target_re (str_of v) \<and> \<not> containsSecretLikeValue (str_of v)"

definition location_wf :: "js \<Rightarrow> bool" where
  "location_wf l \<longleftrightarrow>
     is_obj l \<and> path_wf (get l ''path'') \<and> truthy (get l ''path'') \<and> proxy_wf (get l ''proxy_pass'') \<and>
     opt_str (get l ''try_files'') \<and> opt_str (get l ''index'') \<and> opt_str (get l ''extra_directives'') \<and>
     \<not> (truthy (get l ''proxy_pass'') \<and> truthy (get l ''try_files'')) \<and>
     \<not> containsSensitiveDirective (str_of (get l ''extra_directives''))"

definition advanced_wf :: "js \<Rightarrow> bool" where
  "advanced_wf a \<longleftrightarrow>
     is_obj a \<and> is_bool (get a ''gzip'') \<and> is_bool (get a ''caching'') \<and>
     is_str (get a ''client_max_body_size'') \<and> is_str (get a ''keepalive_timeout'') \<and>
     list_all is_alnum (str_of (get a ''client_max_body_size'')) \<and>
     list_all is_alnum (str_of (get a ''keepalive_timeout'')) \<and>
     (if truthy (get a ''gzip'') then trim (str_of (get a ''gzip_types'')) \<noteq> []
      else \<not> truthy (get a ''gzip_types'')) \<and>
     (if truthy (get a ''caching'')
      then is_str (get a ''cache_valid'') \<and> truthy (get a ''cache_valid'') \<and>
           list_all is_alnum (str_of (get a ''cache_valid''))
      else get a ''cache_valid'' = JUndef)"

definition metadata_wf :: "js \<Rightarrow> bool" where
  "metadata_wf m \<longleftrightarrow>
     is_obj m \<and> (\<exists>t. get m ''createdAt'' = JDate (Some t)) \<and> (\<exists>t. get m ''updatedAt'' = JDate (Some t)) \<and>
     is_str (get m ''createdBy'') \<and> list_all is_str (elems_of (get m ''tags''))"

definition certificates_wf :: "js \<Rightarrow> bool" where
  "certificates_wf r \<longleftrightarrow>
     (if truthy (get r ''ssl'')
      then path_wf (get r ''ssl_certificate'') \<and> truthy (get r ''ssl_certificate'') \<and>
           path_wf (get r ''ssl_certificate_key'') \<and> truthy (get r ''ssl_certificate_key'')
      else get r ''ssl_certificate'' = JUndef \<and> get r ''ssl_certificate_key'' = JUndef)"

definition route_wf :: "js \<Rightarrow> bool" where
  "route_wf r \<longleftrightarrow>
     is_obj r \<and> is_str (get r ''id'') \<and> domain_wf (get r ''domain'') \<and> port_wf (get r ''port'') \<and>
     path_wf (get r ''root'') \<and> is_bool (get r ''enabled'') \<and> is_bool (get r ''ssl'') \<and>
     certificates_wf r \<and> proxy_wf (get r ''proxy_pass'') \<and>
     list_all location_wf (elems_of (get r ''locations'')) \<and> distinct (location_paths r) \<and>
     (truthy (get r ''proxy_pass'') \<longrightarrow> get r ''locations'' = JArr []) \<and>
     (\<not> truthy (get r ''proxy_pass'') \<longrightarrow> truthy (get r ''root'')) \<and>
     (get r ''port'' = jint 443 \<longrightarrow> truthy (get r ''ssl'')) \<and>
     (get r ''port'' = jint 80 \<longrightarrow> \<not> truthy (get r ''ssl'')) \<and>
     (get r ''advanced'' = JUndef \<or> advanced_wf (get r ''advanced'')) \<and>
     (get r ''metadata'' = JUndef \<or> metadata_wf (get r ''metadata''))"

lemma repeated_Nil_iff: "repeated seen ps = [] \<longleftrightarrow> distinct ps \<and> set seen \<inter> set ps = {}"
  by (induction ps arbitrary: seen) auto

lemma get_set_prop [simp]:
  "is_obj v \<Longrightarrow> get (set_prop k x v) k' = (if k' = k then x else get v k')"
  by (cases v) (auto simp: set_prop_def)

lemma is_obj_set_prop [simp]: "is_obj v \<Longrightarrow> is_obj (set_prop k x v)"
  by (cases v) (auto simp: set_prop_def)

lemma distinct_route_keys: "distinct (map fst (route_shape z))"
  by (simp add: route_shape_def)

lemma containsSensitiveDirective_Nil: "\<not> containsSensitiveDirective []"
  by (simp add: containsSensitiveDirective_def SENSITIVE_DIRECTIVES_def to_lower_def)

context zod
begin

lemma domain_accepts: "accepts z DomainSchema v out \<longleftrightarrow> out = v \<and> domain_wf v"
  by (auto simp: DomainSchema_def check_laws string_law domain_wf_def is_str_iff test_domain_re)

lemma unix_path_accepts: "accepts z UnixPathSchema v out \<Longrightarrow> out = v \<and> path_wf out"
  using test_unix_path_re
  by (auto simp: UnixPathSchema_def check_laws or_law scalar_laws path_wf_def is_str_iff)

lemma url_path_accepts: "accepts z URLPathSchema v out \<Longrightarrow> out = v \<and> path_wf out \<and> truthy out"
  by (auto simp: URLPathSchema_def check_laws string_law path_wf_def is_str_iff test_url_path_re)

lemma port_accepts: "accepts z PortSchema v out \<longleftrightarrow> out = port_preprocess v \<and> port_wf out"
proof -
  have "(\<exists>i. out = jint i \<and> \<bar>i\<bar> < 2 ^ 53) \<and> (\<exists>x. out = JNum (Fin x) \<and> 1 \<le> x) \<and>
        (\<exists>x. out = JNum (Fin x) \<and> x \<le> 65535) \<longleftrightarrow> port_wf out"
    by (auto simp: port_wf_def jint_def split: js.splits jsnum.splits)
  moreover have "port_wf out \<Longrightarrow> \<exists>x. out = JNum (Fin x)"
    by (auto simp: port_wf_def split: js.splits jsnum.splits)
  ultimately show ?thesis
    unfolding PortSchema_def check_laws number_law by metis
qed

lemma proxy_accepts: "accepts z ProxyTargetSchema v out \<longleftrightarrow> out = v \<and> proxy_wf v"
  by (auto simp: ProxyTargetSchema_def optional_law check_laws string_law proxy_wf_def is_str_iff
      no_embedded_credentials_def)

lemma optional_string_accepts: "accepts z (ZOptional ZString) v out \<longleftrightarrow> out = v \<and> opt_str v"
  by (auto simp: optional_law string_law opt_str_def)

lemmas field_accepts = domain_accepts port_accepts proxy_accepts optional_string_accepts

lemma location_accepts: "accepts z LocationConfigSchema v out \<Longrightarrow> location_wf out"
proof -
  let ?shape = "[(''path'', URLPathSchema), (''proxy_pass'', ProxyTargetSchema),
     (''try_files'', ZOptional ZString), (''index'', ZOptional ZString),
     (''extra_directives'', ZOptional ZString)]"
  assume "accepts z LocationConfigSchema v out"
  then have obj: "accepts z (ZObject ?shape) v out" and refine: "snd (location_refine out) = []"
    by (auto simp: LocationConfigSchema_def super_refine_law location_refine_def)
  have f: "accepts z sch (get v k) (get out k)" if "(k, sch) \<in> set ?shape" for k sch
    using object_field [OF obj that] by simp
  from f [of "''path''"] have "path_wf (get out ''path'')" "truthy (get out ''path'')"
    using url_path_accepts by auto
  moreover from f [of "''proxy_pass''"] have "proxy_wf (get out ''proxy_pass'')"
    by (auto simp: field_accepts)
  moreover from f [of "''try_files''"] f [of "''index''"] f [of "''extra_directives''"]
  have "opt_str (get out ''try_files'')" "opt_str (get out ''index'')" "opt_str (get out ''extra_directives'')"
    by (auto simp: field_accepts)
  moreover from refine this(3) have "\<not> containsSensitiveDirective (str_of (get out ''extra_directives''))"
    by (auto simp: location_refine_def opt_str_def is_str_iff containsSensitiveDirective_Nil split: if_splits)
  ultimately show ?thesis
    using refine object_result [OF obj] by (auto simp: location_wf_def location_refine_def split: if_splits)
qed

lemma unit_accepts:
  "accepts z SizeUnitSchema v out \<Longrightarrow> is_str out \<and> truthy out \<and> list_all is_alnum (str_of out)"
  "accepts z TimeUnitSchema v out \<Longrightarrow> is_str out \<and> truthy out \<and> list_all is_alnum (str_of out)"
  using test_unit_re [of "''kmg''"] test_unit_re [of "''smhd''"]
  by (auto simp: SizeUnitSchema_def TimeUnitSchema_def check_laws string_law is_str_iff
      is_lower_def in_range_def code_of_def)

lemma advanced_accepts: "accepts z AdvancedConfigSchema v out \<Longrightarrow> advanced_wf out"
proof -
  let ?shape = "[(''client_max_body_size'', SizeUnitSchema), (''keepalive_timeout'', TimeUnitSchema),
     (''gzip'', ZBoolean), (''gzip_types'', ZOptional ZString), (''caching'', ZBoolean),
     (''cache_valid'', ZOptional TimeUnitSchema)]"
  assume "accepts z AdvancedConfigSchema v out"
  then obtain o1 where obj: "accepts z (ZObject ?shape) v o1" and refine: "advanced_refine o1 = (out, [])"
    by (auto simp: AdvancedConfigSchema_def super_refine_law)
  have f: "accepts z sch (get v k) (get o1 k)" if "(k, sch) \<in> set ?shape" for k sch
    using object_field [OF obj that] by simp
  have o: "is_obj o1" by (rule object_result [OF obj])
  have units: "is_str (get o1 ''client_max_body_size'') \<and> list_all is_alnum (str_of (get o1 ''client_max_body_size''))"
    "is_str (get o1 ''keepalive_timeout'') \<and> list_all is_alnum (str_of (get o1 ''keepalive_timeout''))"
    using f [of "''client_max_body_size''" SizeUnitSchema] f [of "''keepalive_timeout''" TimeUnitSchema] unit_accepts
    by simp_all
  from f [of "''gzip''"] f [of "''caching''"] have b: "is_bool (get o1 ''gzip'')" "is_bool (get o1 ''caching'')"
    by (auto simp: boolean_law is_bool_def)
  from f [of "''cache_valid''"] have c: "get o1 ''cache_valid'' = JUndef \<or>
      is_str (get o1 ''cache_valid'') \<and> truthy (get o1 ''cache_valid'') \<and>
      list_all is_alnum (str_of (get o1 ''cache_valid''))"
    using unit_accepts(2) by (auto simp: optional_law split: if_splits)
  have out: "out = fst (advanced_refine o1)" and no: "snd (advanced_refine o1) = []"
    using refine by simp_all
  have keep: "get out k = get o1 k" if "k \<noteq> ''gzip_types''" "k \<noteq> ''cache_valid''" for k
    unfolding out using o that by (simp add: advanced_refine_def Let_def)
  have gz: "if truthy (get o1 ''gzip'') then trim (str_of (get out ''gzip_types'')) \<noteq> []
      else \<not> truthy (get out ''gzip_types'')"
    using no o unfolding out by (simp add: advanced_refine_def Let_def split: if_splits)
  have ca: "if truthy (get o1 ''caching'')
      then is_str (get out ''cache_valid'') \<and> truthy (get out ''cache_valid'') \<and>
           list_all is_alnum (str_of (get out ''cache_valid''))
      else get out ''cache_valid'' = JUndef"
    using no o c unfolding out by (auto simp add: advanced_refine_def Let_def split: if_splits)
  have "is_obj out" unfolding out using o by (simp add: advanced_refine_def Let_def)
  with units b gz ca show ?thesis by (simp add: advanced_wf_def keep)
qed

lemma metadata_accepts: "accepts z (MetadataSchema z) v out \<Longrightarrow> metadata_wf out"
proof -
  assume a: "accepts z (MetadataSchema z) v out"
  note f = object_field [OF a [unfolded MetadataSchema_def], simplified]
  from f [of "''tags''"] have "list_all is_str (elems_of (get out ''tags''))"
    by (auto simp: array_law string_law list_all2_conv_all_nth list_all_length)
  with f [of "''createdAt''"] f [of "''updatedAt''"] f [of "''createdBy''"] object_result [OF a [unfolded MetadataSchema_def]]
  show ?thesis by (auto simp: metadata_wf_def check_laws scalar_laws)
qed

text \<open>The refinement of a route only ever clears the two certificate fields.\<close>

lemma route_refine_keeps:
  assumes "is_obj r" and "k \<noteq> ''ssl_certificate''" and "k \<noteq> ''ssl_certificate_key''"
  shows "get (fst (route_refine r)) k = get r k"
  using assms by (simp add: route_refine_def ssl_refine_def Let_def)

lemma route_refine_ok:
  assumes "is_obj r" and "route_refine r = (out, [])"
  shows "is_obj out"
    and "truthy (get out ''proxy_pass'') \<Longrightarrow> elems_of (get out ''locations'') = []"
    and "\<not> truthy (get out ''proxy_pass'') \<Longrightarrow> trim (str_of (get out ''root'')) \<noteq> []"
    and "get out ''port'' = jint 443 \<Longrightarrow> truthy (get out ''ssl'')"
    and "get out ''port'' = jint 80 \<Longrightarrow> \<not> truthy (get out ''ssl'')"
    and "distinct (location_paths out)"
    and "truthy (get r ''ssl'') \<Longrightarrow> out = r \<and> truthy (get r ''ssl_certificate'') \<and> truthy (get r ''ssl_certificate_key'')"
    and "\<not> truthy (get r ''ssl'') \<Longrightarrow> get out ''ssl_certificate'' = JUndef \<and> get out ''ssl_certificate_key'' = JUndef"
  using assms
  by (auto simp: route_refine_def ssl_refine_def Let_def repeated_Nil_iff split: if_splits)

lemma route_accepts_domain: "accepts z (RouteSchema z) v out \<Longrightarrow> domain_wf (get v ''domain'')"
proof -
  assume "accepts z (RouteSchema z) v out"
  then obtain o1 where "accepts z (ZObject (route_shape z)) v o1"
    by (auto simp: RouteSchema_def super_refine_law)
  from object_field [OF this _ distinct_route_keys, of "''domain''" DomainSchema] show ?thesis
    by (simp add: route_shape_def domain_accepts)
qed

lemma route_accepts:
  assumes "accepts z (RouteSchema z) v out"
  shows "route_wf out"
proof -
  from assms obtain o1 where obj: "accepts z (ZObject (route_shape z)) v o1"
    and refine: "route_refine o1 = (out, [])"
    by (auto simp: RouteSchema_def super_refine_law)
  note o = object_result [OF obj]
  have keep: "get out k = get o1 k" if "k \<noteq> ''ssl_certificate''" "k \<noteq> ''ssl_certificate_key''" for k
    using route_refine_keeps [OF o that] refine by simp
  have f: "accepts z sch (get v k) (get o1 k)" if "(k, sch) \<in> set (route_shape z)" for k sch
    using object_field [OF obj that distinct_route_keys] .
  note ok = route_refine_ok [OF o refine]
  have basic: "is_str (get out ''id'')" "domain_wf (get out ''domain'')" "port_wf (get out ''port'')"
    "is_bool (get out ''enabled'')" "is_bool (get out ''ssl'')" "proxy_wf (get out ''proxy_pass'')"
    using f [of "''id''"] f [of "''domain''"] f [of "''port''"] f [of "''enabled''"] f [of "''ssl''"] f [of "''proxy_pass''"]
    by (auto simp: route_shape_def keep field_accepts scalar_laws is_bool_def)
  have root: "path_wf (get out ''root'')"
    using f [of "''root''"] unix_path_accepts by (auto simp: route_shape_def keep)
  have locs: "list_all location_wf (elems_of (get out ''locations''))" "\<exists>ls. get out ''locations'' = JArr ls"
    using f [of "''locations''"] location_accepts
    by (auto simp: route_shape_def keep array_law list_all2_conv_all_nth list_all_length)
  have certs: "certificates_wf out"
  proof (cases "truthy (get o1 ''ssl'')")
    case True
    with ok(7) f [of "''ssl_certificate''"] f [of "''ssl_certificate_key''"] show ?thesis
      using unix_path_accepts
      by (auto simp: route_shape_def certificates_wf_def optional_law split: if_splits)
  next
    case False
    with ok(8) show ?thesis by (simp add: certificates_wf_def keep)
  qed
  have adv: "get out ''advanced'' = JUndef \<or> advanced_wf (get out ''advanced'')"
    "get out ''metadata'' = JUndef \<or> metadata_wf (get out ''metadata'')"
    using f [of "''advanced''"] f [of "''metadata''"] advanced_accepts metadata_accepts
    by (auto simp: route_shape_def keep optional_law split: if_splits)
  have "truthy (get out ''proxy_pass'') \<longrightarrow> get out ''locations'' = JArr []"
    using ok(2) locs(2) by auto
  moreover have "\<not> truthy (get out ''proxy_pass'') \<longrightarrow> truthy (get out ''root'')"
    using ok(3) root by (auto simp: path_wf_def is_str_iff trim_def trim_start_def trim_end_def)
  ultimately show ?thesis
    unfolding route_wf_def using basic root locs(1) certs adv ok(1, 4-6) by simp
qed

end

subsection \<open>Properties\<close>

text \<open>
  C25: \<open>validateDomain\<close> accepts exactly the strings that, split at the dots, have at least two
  labels, each label but the last of 1 to 63 letters, digits and hyphens that neither starts nor
  ends with a hyphen, and a last label of at least two letters.
\<close>

theorem validateDomain_iff:
  assumes "zod z"
  shows "validateDomain z v \<longleftrightarrow> (\<exists>s. v = JStr s \<and> valid_domain s)"
proof -
  have "validateDomain z v \<longleftrightarrow> (\<exists>out. accepts z DomainSchema v out)"
    by (simp add: validateDomain_def makeValidator_iff)
  then show ?thesis
    by (auto simp: zod.domain_accepts [OF assms] domain_wf_def is_str_iff)
qed

theorem validateDomain_iff_witness:
  "validateDomain zod_reference (JStr ''a-b.ru'') \<and> \<not> validateDomain zod_reference (JStr ''a-.ru'')"
  unfolding validateDomain_iff [OF zref.zod_axioms] by (simp, code_simp)

text \<open>
  C1: whatever route the schema lets through is well formed: a valid domain, a port between 1 and
  65535, paths free of characters that nginx reads as syntax, certificates exactly when SSL is on,
  no proxy target beside locations, a root where there is no proxy target, SSL on port 443 and not
  on port 80, and locations with different paths, none with both a proxy target and \<open>try_files\<close> or
  with a sensitive directive.
\<close>

theorem route_schema_wf:
  assumes "zod z" and "accepts z (RouteSchema z) v out"
  shows "route_wf out"
  using zod.route_accepts [OF assms] .

definition sample_route :: js where
  "sample_route = JObj
     [(''id'', JStr ''r1''), (''domain'', JStr ''sh.ru''), (''port'', jint 80),
      (''root'', JStr ''/var''), (''enabled'', JBool True), (''ssl'', JBool False),
      (''ssl_certificate'', JStr ''/c.pem''),
      (''locations'', JArr [JObj [(''path'', JStr ''/''), (''index'', JStr ''a'')]])]"

definition sample_parsed :: js where
  "sample_parsed = JObj
     [(''id'', JStr ''r1''), (''domain'', JStr ''sh.ru''), (''port'', jint 80),
      (''root'', JStr ''/var''), (''enabled'', JBool True), (''ssl'', JBool False),
      (''ssl_certificate'', JUndef),
      (''locations'', JArr [JObj [(''path'', JStr ''/''), (''index'', JStr ''a'')]]),
      (''ssl_certificate_key'', JUndef)]"

lemma sample_route_accepted: "accepts zod_reference (RouteSchema zod_reference) sample_route sample_parsed"
  unfolding accepts_reference by code_simp

theorem route_schema_wf_witness:
  "accepts zod_reference (RouteSchema zod_reference) sample_route sample_parsed \<and> route_wf sample_parsed"
  using route_schema_wf [OF zref.zod_axioms sample_route_accepted] sample_route_accepted by simp

end
