(* ===== verification/Config_Generator.thy ===== *)
theory Config_Generator
  imports Entities
begin

text \<open>
  The preview of the nginx configuration of a route,
  \<open>packages/core/src/services/ConfigGenerator.ts\<close>. The lines pushed onto \<open>lines\<close> are built in
  the order of the source. The lemmas count the characters nginx reads as syntax, so the text of a
  route whose free-text fields hold none of them has exactly the blocks and directives the
  generator wrote.
\<close>

definition nl :: string where
  "nl = [CHR 0x0A]"

definition indent :: "string list \<Rightarrow> nat \<Rightarrow> string" where
  "indent lines level =
     join nl (map (\<lambda>line. concat (replicate level ''    '') @ line) (filter (\<lambda>line. line \<noteq> []) lines))"

definition location_lines :: "js \<Rightarrow> string list" where
  "location_lines loc =
     (if truthy (get loc ''proxy_pass'') then [''proxy_pass '' @ js_to_string (get loc ''proxy_pass'') @ '';''] else []) @
     (if truthy (get loc ''try_files'') then [''try_files '' @ js_to_string (get loc ''try_files'') @ '';''] else []) @
     (if truthy (get loc ''index'') then [''index '' @ js_to_string (get loc ''index'') @ '';''] else []) @
     (if truthy (get loc ''extra_directives'') then [trim (str_of (get loc ''extra_directives''))] else [])"

definition renderLocationBlock :: "js \<Rightarrow> string" where
  "renderLocationBlock loc =
     join nl [''    location '' @ js_to_string (get loc ''path'') @ '' {'', indent (location_lines loc) 2, ''    }'']"

definition base_directives :: "js \<Rightarrow> string list" where
  "base_directives route =
     [''listen '' @ js_to_string (get route ''port'') @ (if truthy (get route ''ssl'') then '' ssl'' else []) @ '';'',
      ''server_name '' @ js_to_string (get route ''domain'') @ '';'',
      ''root '' @ js_to_string (get route ''root'') @ '';'']"

definition ssl_block :: "js \<Rightarrow> string list" where
  "ssl_block route =
     (if truthy (get route ''ssl'') \<and> truthy (get route ''ssl_certificate'') \<and> truthy (get route ''ssl_certificate_key'')
      then [[], indent [''ssl_certificate '' @ js_to_string (get route ''ssl_certificate'') @ '';'',
                        ''ssl_certificate_key '' @ js_to_string (get route ''ssl_certificate_key'') @ '';''] 1]
      else [])"

definition advanced_block :: "js \<Rightarrow> string list" where
  "advanced_block route =
     (let adv = get route ''advanced'';
          advLines =
            [''client_max_body_size '' @ js_to_string (get adv ''client_max_body_size'') @ '';'',
             ''keepalive_timeout '' @ js_to_string (get adv ''keepalive_timeout'') @ '';''] @
            (if truthy (get adv ''gzip'') then [''gzip on;'', ''gzip_types '' @ js_to_string (get adv ''gzip_types'') @ '';''] else []) @
            (if truthy (get adv ''caching'') then [''proxy_cache_valid '' @ js_to_string (get adv ''cache_valid'') @ '';''] else [])
      in if truthy adv then (if 0 < length advLines then [[], indent advLines 1] else []) else [])"

definition locations_block :: "js \<Rightarrow> string list" where
  "locations_block route =
     (let locations = elems_of (get route ''locations'')
      in if 0 < length locations then [] # concat (map (\<lambda>loc. [renderLocationBlock loc, []]) locations) else [])"

definition config_lines :: "js \<Rightarrow> string list" where
  "config_lines route =
     [''server {'', indent (base_directives route) 1] @
     ssl_block route @ advanced_block route @ locations_block route @ [''}'']"

definition newline_re :: re where
  "newline_re = Chr (\<lambda>c. c = CHR 0x0A)"

definition blank_lines_re :: re where
  "blank_lines_re = Seq newline_re (Seq newline_re (Plus newline_re))"

definition generateConfigPreview :: "js \<Rightarrow> string" where
  "generateConfigPreview route =
     trim_end (replace_all blank_lines_re (\<lambda>_ _ _. nl @ nl) (join nl (config_lines route))) @ nl"

subsection \<open>Collapsing blank lines\<close>

text \<open>The reference for the replacement: runs of line feeds of length three or more become two.\<close>

abbreviation is_nl :: "char \<Rightarrow> bool" where
  "is_nl c \<equiv> c = CHR 0x0A"

function squeeze :: "string \<Rightarrow> string" where
  "squeeze s =
     (if take 3 s = nl @ nl @ nl then nl @ nl @ squeeze (dropWhile is_nl s)
      else (case s of [] \<Rightarrow> [] | c # s' \<Rightarrow> c # squeeze s'))"
  by pat_completeness auto
termination
proof (relation "measure length")
  show "take 3 s = nl @ nl @ nl \<Longrightarrow> (dropWhile is_nl s, s) \<in> measure length" for s
    by (cases s) (auto simp: nl_def intro: le_imp_less_Suc length_dropWhile_le)
qed auto

declare squeeze.simps [simp del]

lemma squeeze_Nil [simp]: "squeeze [] = []"
  by (subst squeeze.simps) (simp add: nl_def)

lemma squeeze_run: "take 3 s = nl @ nl @ nl \<Longrightarrow> squeeze s = nl @ nl @ squeeze (dropWhile is_nl s)"
  by (subst squeeze.simps) simp

lemma squeeze_Cons: "take 3 (c # s) \<noteq> nl @ nl @ nl \<Longrightarrow> squeeze (c # s) = c # squeeze s"
  by (subst squeeze.simps) simp

lemma star_ms_greedy:
  "length s \<le> n \<Longrightarrow>
   \<exists>ms'. star_ms True (ms (Chr f)) n (p, s, c) = (rev (takeWhile f s) @ p, dropWhile f s, c) # ms'"
proof (induction n arbitrary: p s)
  case (Suc n)
  show ?case
  proof (cases s)
    case (Cons x xs)
    with Suc.IH [of xs "x # p"] Suc.prems show ?thesis by (auto simp: Let_def)
  qed simp
qed simp

lemma ms_newlines:
  "ms blank_lines_re (p, s, c) = [] \<and> take 3 s \<noteq> nl @ nl @ nl \<or>
   (\<exists>ms'. ms blank_lines_re (p, s, c) = (rev (takeWhile is_nl s) @ p, dropWhile is_nl s, c) # ms') \<and>
   take 3 s = nl @ nl @ nl"
proof (cases "take 3 s = nl @ nl @ nl")
  case True
  then obtain s' where s: "s = CHR 0x0A # CHR 0x0A # CHR 0x0A # s'"
    by (cases s; cases "tl s"; cases "tl (tl s)") (auto simp: nl_def)
  show ?thesis
    using star_ms_greedy [of s' "length s'" is_nl "CHR 0x0A # CHR 0x0A # CHR 0x0A # p" c] True
    by (auto simp: s blank_lines_re_def newline_re_def Plus_def)
next
  case False
  then have "ms blank_lines_re (p, s, c) = []"
    by (cases s; cases "tl s"; cases "tl (tl s)")
      (auto simp: nl_def blank_lines_re_def newline_re_def Plus_def)
  with False show ?thesis by simp
qed

lemma replace_blank_lines: "replace_from blank_lines_re (\<lambda>_ _ _. nl @ nl) p s = squeeze s"
proof (induction s arbitrary: p rule: squeeze.induct)
  case (1 s)
  show ?case
  proof (cases "take 3 s = nl @ nl @ nl")
    case True
    then have "length (dropWhile is_nl s) < length s"
      by (cases s) (auto simp: nl_def intro: le_imp_less_Suc length_dropWhile_le)
    with True 1(1) ms_newlines [of p s "[]"] show ?thesis
      by (auto simp: replace_from.simps [of _ _ _ s] squeeze.simps [of s])
  next
    case False
    with 1(2) ms_newlines [of p s "[]"] show ?thesis
      by (auto simp: replace_from.simps [of _ _ _ s] squeeze.simps [of s] split: list.splits)
  qed
qed

lemma config_squeeze: "generateConfigPreview route = trim_end (squeeze (join nl (config_lines route))) @ nl"
  by (simp add: generateConfigPreview_def replace_all_def replace_blank_lines)

lemma squeeze_leading: "length (takeWhile is_nl (squeeze s)) = min 2 (length (takeWhile is_nl s))"
proof (induction s rule: squeeze.induct)
  case (1 s)
  show ?case
  proof (cases "take 3 s = nl @ nl @ nl")
    case True
    then obtain s' where s: "s = CHR 0x0A # CHR 0x0A # CHR 0x0A # s'"
      by (cases s; cases "tl s"; cases "tl (tl s)") (auto simp: nl_def)
    have "takeWhile is_nl (dropWhile is_nl s') = []"
      by (metis (full_types) hd_dropWhile takeWhile_eq_Nil_iff)
    with squeeze_run [OF True] 1(1) [OF True] show ?thesis by (simp add: nl_def s)
  next
    case False
    show ?thesis
    proof (cases s)
      case (Cons c s')
      with False 1(2) have "length (takeWhile is_nl (squeeze s')) = min 2 (length (takeWhile is_nl s'))"
        by simp
      moreover have "c = CHR 0x0A \<Longrightarrow> length (takeWhile is_nl s') < 2"
        using False Cons by (cases s'; cases "tl s'") (auto simp: nl_def)
      ultimately show ?thesis
        using False Cons by (auto simp: squeeze_Cons)
    qed simp
  qed
qed

lemma prefix_newlines: "prefix (replicate n (CHR 0x0A)) s \<longleftrightarrow> n \<le> length (takeWhile is_nl s)"
proof (induction n arbitrary: s)
  case (Suc n)
  then show ?case by (cases s) auto
qed simp

lemma squeeze_no_triple: "\<not> str_includes (squeeze s) (nl @ nl @ nl)"
proof (induction s rule: squeeze.induct)
  case (1 s)
  have three: "nl @ nl @ nl = replicate 3 (CHR 0x0A)" by (simp add: nl_def numeral_3_eq_3)
  show ?case
  proof (cases "take 3 s = nl @ nl @ nl")
    case True
    have "takeWhile is_nl (dropWhile is_nl s) = []"
      by (metis (full_types) hd_dropWhile takeWhile_eq_Nil_iff)
    then have "length (takeWhile is_nl (squeeze (dropWhile is_nl s))) = 0"
      by (simp add: squeeze_leading)
    with True 1(1) show ?thesis
      by (cases "squeeze (dropWhile is_nl s)") (auto simp: squeeze_run nl_def)
  next
    case False
    show ?thesis
    proof (cases s)
      case (Cons c s')
      with False 1(2) have ih: "\<not> str_includes (squeeze s') (nl @ nl @ nl)" by simp
      have "\<not> prefix (nl @ nl @ nl) (c # squeeze s')"
      proof
        assume "prefix (nl @ nl @ nl) (c # squeeze s')"
        then have "c = CHR 0x0A" "prefix (replicate 2 (CHR 0x0A)) (squeeze s')"
          by (auto simp: nl_def numeral_2_eq_2)
        then have "2 \<le> length (takeWhile is_nl s')"
          unfolding prefix_newlines squeeze_leading by simp
        with \<open>c = CHR 0x0A\<close> Cons False show False
          by (cases s'; cases "tl s'") (auto simp: nl_def split: if_splits)
      qed
      with ih False Cons show ?thesis by (auto simp: squeeze_Cons)
    qed (simp add: nl_def)
  qed
qed

subsection \<open>Counting the characters of nginx syntax\<close>

lemma count_squeeze: "x \<noteq> CHR 0x0A \<Longrightarrow> count_list (squeeze s) x = count_list s x"
proof (induction s rule: squeeze.induct)
  case (1 s)
  have drop: "count_list (dropWhile is_nl s) x = count_list s x" for s
    using 1(3) by (induction s) auto
  show ?case
  proof (cases "take 3 s = nl @ nl @ nl")
    case True
    with 1 drop [of s] show ?thesis by (simp add: squeeze_run nl_def)
  next
    case False
    with 1 show ?thesis by (cases s) (auto simp: squeeze_Cons)
  qed
qed

lemma count_dropWhile: "\<not> P x \<Longrightarrow> count_list (dropWhile P s) x = count_list s x"
  by (induction s) auto

lemma count_rev_string: "count_list (rev s) x = count_list s x"
  by (induction s) auto

lemma count_trim_end: "\<not> is_space x \<Longrightarrow> count_list (trim_end s) x = count_list s x"
  by (simp add: trim_end_def count_rev_string count_dropWhile)

lemma count_trim: "\<not> is_space x \<Longrightarrow> count_list (trim s) x = count_list s x"
  by (simp add: trim_def count_trim_end trim_start_def count_dropWhile)

lemma count_join: "x \<notin> set sep \<Longrightarrow> count_list (join sep ls) x = (\<Sum>l \<leftarrow> ls. count_list l x)"
proof (induction ls)
  case (Cons l ls)
  then show ?case
    by (cases ls) (auto simp: join_Cons count_list_0_iff)
qed simp

text \<open>The characters that open and close blocks and end directives.\<close>

definition syntax_char :: "char \<Rightarrow> bool" where
  "syntax_char c \<longleftrightarrow> c \<in> set ''{};''"

definition inert :: "string \<Rightarrow> bool" where
  "inert s \<longleftrightarrow> list_all (\<lambda>c. \<not> syntax_char c) s"

lemma syntax_char_simps:
  assumes "syntax_char x"
  shows "\<not> is_space x" "x \<noteq> CHR 0x0A" "x \<noteq> CHR '' ''" "\<not> is_alnum x" "\<not> is_digit x" "\<not> safe_char x"
  using assms
  by (auto simp: syntax_char_def is_space_def in_range_def code_of_def is_alnum_def is_digit_def
      is_upper_def is_lower_def safe_char_def)

lemma count_inert: "syntax_char x \<Longrightarrow> inert s \<Longrightarrow> count_list s x = 0"
  by (auto simp: inert_def list_all_iff count_list_0_iff)

lemma count_indent: "syntax_char x \<Longrightarrow> count_list (indent lines n) x = (\<Sum>l \<leftarrow> lines. count_list l x)"
proof -
  assume x: "syntax_char x"
  have blanks: "count_list (concat (replicate n ''    '')) x = 0"
    using syntax_char_simps(3) [OF x] by (induction n) auto
  have "(\<Sum>l \<leftarrow> map (\<lambda>line. concat (replicate n ''    '') @ line) (filter (\<lambda>line. line \<noteq> []) lines). count_list l x)
      = (\<Sum>l \<leftarrow> lines. count_list l x)"
    by (induction lines) (auto simp: blanks)
  then show ?thesis
    using syntax_char_simps(2) [OF x] by (simp add: indent_def count_join nl_def)
qed

lemma count_config:
  assumes "syntax_char x"
  shows "count_list (generateConfigPreview route) x = (\<Sum>l \<leftarrow> config_lines route. count_list l x)"
  using syntax_char_simps [OF assms]
  by (simp add: config_squeeze count_trim_end count_squeeze count_join nl_def)

lemma inert_safe: "list_all safe_char s \<Longrightarrow> inert s" "list_all is_alnum s \<Longrightarrow> inert s"
  using syntax_char_simps by (auto simp: inert_def list_all_iff)

lemma inert_path: "path_wf v \<Longrightarrow> inert (js_to_string v)"
  by (auto simp: path_wf_def is_str_iff inert_safe)

lemma inert_domain: "domain_wf v \<Longrightarrow> inert (js_to_string v)"
  using valid_domain_safe by (auto simp: domain_wf_def is_str_iff inert_safe)

lemma inert_word: "is_str v \<Longrightarrow> list_all is_alnum (str_of v) \<Longrightarrow> inert (js_to_string v)"
  by (auto simp: is_str_iff inert_safe)

lemma port_digits:
  assumes "port_wf v"
  shows "\<exists>n. js_to_string v = show_nat n"
proof -
  from assms obtain x where x: "v = JNum (Fin x)" "of_int \<lfloor>x\<rfloor> = x" "1 \<le> x" "x \<le> 65535"
    by (auto simp: port_wf_def split: js.splits jsnum.splits)
  then have "\<bar>x\<bar> \<le> 2 ^ 53" "0 \<le> \<lfloor>x\<rfloor>" by auto
  with x show ?thesis by (auto simp: num_to_string_def show_int_def)
qed

lemma inert_port: "port_wf v \<Longrightarrow> inert (js_to_string v)"
  using port_digits [of v] show_nat_digits
  by (auto simp: inert_def list_all_iff syntax_char_simps(5) dest: syntax_char_simps(5))

lemmas inert_fields = inert_path inert_domain inert_word inert_port

text \<open>The text a user may fill in freely, as the generator interpolates it.\<close>

definition free_text :: "js \<Rightarrow> string list" where
  "free_text route =
     concat (map (\<lambda>l. map (\<lambda>k. js_to_string (get l k))
         [''proxy_pass'', ''try_files'', ''index'', ''extra_directives'']) (elems_of (get route ''locations''))) @
     [js_to_string (get (get route ''advanced'') ''gzip_types'')]"

definition flag :: "bool \<Rightarrow> nat" where
  "flag b = (if b then 1 else 0)"

definition location_directives :: "js \<Rightarrow> nat" where
  "location_directives l =
     flag (truthy (get l ''proxy_pass'')) + flag (truthy (get l ''try_files'')) + flag (truthy (get l ''index''))"

definition advanced_directives :: "js \<Rightarrow> nat" where
  "advanced_directives adv =
     (if truthy adv then 2 + 2 * flag (truthy (get adv ''gzip'')) + flag (truthy (get adv ''caching'')) else 0)"

definition directives :: "js \<Rightarrow> nat" where
  "directives route =
     3 + 2 * flag (truthy (get route ''ssl'')) + advanced_directives (get route ''advanced'') +
     sum_list (map location_directives (elems_of (get route ''locations'')))"

definition block_count :: "char \<Rightarrow> nat" where
  "block_count x = flag (x \<noteq> CHR '';'')"

definition semi :: "char \<Rightarrow> nat" where
  "semi x = flag (x = CHR '';'')"

lemma count_cases: "syntax_char x \<Longrightarrow> x = CHR ''{'' \<or> x = CHR ''}'' \<or> x = CHR '';''"
  by (auto simp: syntax_char_def)

lemma count_directive:
  assumes "syntax_char x" and "inert w" and "inert s"
  shows "count_list (w @ s @ '';'') x = semi x"
  using count_inert [OF assms(1, 2)] count_inert [OF assms(1, 3)] by (auto simp: semi_def flag_def)

lemma inert_names:
  "inert ''server_name ''" "inert ''root ''" "inert ''ssl_certificate ''" "inert ''ssl_certificate_key ''"
  "inert ''client_max_body_size ''" "inert ''keepalive_timeout ''" "inert ''gzip on''" "inert ''gzip_types ''"
  "inert ''proxy_cache_valid ''" "inert ''proxy_pass ''" "inert ''try_files ''" "inert ''index ''"
  by code_simp+

lemmas directive_names = count_directive [OF _ inert_names(1)] count_directive [OF _ inert_names(2)]
  count_directive [OF _ inert_names(3)] count_directive [OF _ inert_names(4)]
  count_directive [OF _ inert_names(5)] count_directive [OF _ inert_names(6)]
  count_directive [OF _ inert_names(8)] count_directive [OF _ inert_names(9)]
  count_directive [OF _ inert_names(10)] count_directive [OF _ inert_names(11)]
  count_directive [OF _ inert_names(12)]

lemma count_base:
  assumes "syntax_char x" and "route_wf r"
  shows "(\<Sum>l \<leftarrow> base_directives r. count_list l x) = 3 * semi x"
proof -
  from assms(2) have i: "inert (js_to_string (get r ''port''))" "inert (js_to_string (get r ''domain''))"
    "inert (js_to_string (get r ''root''))"
    by (auto simp: route_wf_def intro: inert_fields)
  have p: "count_list (''listen '' @ js_to_string (get r ''port'') @ (if truthy (get r ''ssl'') then '' ssl'' else []) @ '';'') x = semi x"
    using count_inert [OF assms(1) i(1)] count_cases [OF assms(1)] by (auto simp: semi_def flag_def)
  show ?thesis
    using p directive_names(1) [OF assms(1) i(2)] directive_names(2) [OF assms(1) i(3)]
    by (simp add: base_directives_def del: append.simps count_list_append)
qed

lemma count_ssl:
  assumes "syntax_char x" and "route_wf r"
  shows "(\<Sum>l \<leftarrow> ssl_block r. count_list l x) = 2 * flag (truthy (get r ''ssl'')) * semi x"
proof (cases "truthy (get r ''ssl'')")
  case True
  with assms(2) have "inert (js_to_string (get r ''ssl_certificate''))" "inert (js_to_string (get r ''ssl_certificate_key''))"
    and t: "truthy (get r ''ssl_certificate'')" "truthy (get r ''ssl_certificate_key'')"
    by (auto simp: route_wf_def certificates_wf_def intro: inert_fields)
  with True t show ?thesis
    by (simp add: ssl_block_def count_indent assms(1) flag_def directive_names del: append.simps count_list_append)
qed (simp add: ssl_block_def flag_def)

lemma count_advanced:
  assumes "syntax_char x" and "route_wf r" and "inert (js_to_string (get (get r ''advanced'') ''gzip_types''))"
  shows "(\<Sum>l \<leftarrow> advanced_block r. count_list l x) = advanced_directives (get r ''advanced'') * semi x"
proof (cases "truthy (get r ''advanced'')")
  case True
  let ?a = "get r ''advanced''"
  have wf: "advanced_wf ?a" using True assms(2) by (auto simp: route_wf_def)
  then have "inert (js_to_string (get ?a ''client_max_body_size''))" "inert (js_to_string (get ?a ''keepalive_timeout''))"
    by (auto simp: advanced_wf_def intro: inert_fields)
  moreover have "truthy (get ?a ''caching'') \<Longrightarrow> inert (js_to_string (get ?a ''cache_valid''))"
    using wf by (auto simp: advanced_wf_def intro: inert_fields)
  moreover have "count_list ''gzip on;'' x = semi x"
    using count_directive [OF assms(1) inert_names(7), of "[]"] by (simp add: inert_def)
  ultimately show ?thesis
    using True assms(3)
    by (simp add: advanced_block_def advanced_directives_def flag_def count_indent assms(1) Let_def directive_names
        del: append.simps count_list_append count_list.simps)
qed (simp add: advanced_block_def advanced_directives_def Let_def)

lemma count_location:
  assumes x: "syntax_char x" and l: "location_wf l"
    and f: "inert (js_to_string (get l ''proxy_pass''))" "inert (js_to_string (get l ''try_files''))"
      "inert (js_to_string (get l ''index''))" "inert (js_to_string (get l ''extra_directives''))"
  shows "count_list (renderLocationBlock l) x = block_count x + location_directives l * semi x"
proof -
  have path: "inert (js_to_string (get l ''path''))"
    using l by (auto simp: location_wf_def intro: inert_fields)
  have extra: "count_list (trim (str_of (get l ''extra_directives''))) x = 0"
    using l f(4) count_inert [OF x] syntax_char_simps(1) [OF x]
    by (auto simp: location_wf_def opt_str_def is_str_iff count_trim)
  have head: "count_list (''    location '' @ js_to_string (get l ''path'') @ '' {'') x + count_list ''    }'' x = block_count x"
    using count_inert [OF x path] count_cases [OF x] by (auto simp: block_count_def flag_def)
  have inner: "(\<Sum>l \<leftarrow> location_lines l. count_list l x) = location_directives l * semi x"
    using x f extra
    by (simp add: location_lines_def location_directives_def flag_def directive_names
        del: append.simps count_list_append)
  show ?thesis
    using head syntax_char_simps(2) [OF x]
    by (simp add: renderLocationBlock_def count_join nl_def inner count_indent [OF x]
        del: append.simps count_list_append join.simps count_list.simps)
qed

lemma count_locations:
  assumes x: "syntax_char x" and r: "route_wf r" and f: "list_all inert (free_text r)"
  shows "(\<Sum>l \<leftarrow> locations_block r. count_list l x) =
    length (elems_of (get r ''locations'')) * block_count x +
    sum_list (map location_directives (elems_of (get r ''locations''))) * semi x"
proof -
  have each: "count_list (renderLocationBlock l) x = block_count x + location_directives l * semi x"
    if "l \<in> set (elems_of (get r ''locations''))" for l
    using that r f by (intro count_location [OF x]) (auto simp: route_wf_def free_text_def list_all_iff)
  have "(\<Sum>l \<leftarrow> concat (map (\<lambda>loc. [renderLocationBlock loc, []]) ls). count_list l x) =
      length ls * block_count x + sum_list (map location_directives ls) * semi x"
    if "set ls \<subseteq> set (elems_of (get r ''locations''))" for ls
    using that by (induction ls) (auto simp: each algebra_simps)
  then show ?thesis by (simp add: locations_block_def Let_def)
qed

lemma count_config_route:
  assumes x: "syntax_char x" and r: "route_wf r" and f: "list_all inert (free_text r)"
  shows "count_list (generateConfigPreview r) x =
    (1 + length (elems_of (get r ''locations''))) * block_count x + directives r * semi x"
proof -
  have ends: "count_list ''server {'' x + count_list ''}'' x = block_count x"
    using count_cases [OF x] by (auto simp: block_count_def flag_def)
  have g: "inert (js_to_string (get (get r ''advanced'') ''gzip_types''))"
    using f by (simp add: free_text_def)
  show ?thesis
    using ends
    by (simp add: count_config [OF x] config_lines_def count_indent [OF x] count_base [OF x r] count_ssl [OF x r]
        count_advanced [OF x r g] count_locations [OF x r f] directives_def algebra_simps del: count_list.simps)
qed

lemma squeeze_snoc: "c \<noteq> CHR 0x0A \<Longrightarrow> \<exists>u. squeeze (s @ [c]) = u @ [c]"
proof (induction s rule: length_induct)
  case (1 s)
  show ?case
  proof (cases "take 3 (s @ [c]) = nl @ nl @ nl")
    case True
    have "dropWhile is_nl (s @ [c]) = dropWhile is_nl s @ [c]"
      using 1(2) by (simp add: dropWhile_append3)
    moreover have "length (dropWhile is_nl s) < length s"
      using True 1(2) by (cases s) (auto simp: nl_def intro: le_imp_less_Suc length_dropWhile_le)
    ultimately show ?thesis
      using 1 squeeze_run [OF True] by (metis append.assoc)
  next
    case False
    show ?thesis
    proof (cases s)
      case Nil
      with False show ?thesis by (simp add: squeeze_Cons)
    next
      case (Cons d s')
      then obtain u where "squeeze (s' @ [c]) = u @ [c]" using 1 by auto
      with False Cons have "squeeze (s @ [c]) = (d # u) @ [c]" by (simp add: squeeze_Cons)
      then show ?thesis by blast
    qed
  qed
qed

lemma join_snoc: "ls \<noteq> [] \<Longrightarrow> join sep (ls @ [l]) = join sep ls @ sep @ l"
proof (induction ls)
  case (Cons a ls)
  then show ?case by (cases ls) (auto simp: join_Cons)
qed simp

lemma config_ends_brace: "\<exists>u. squeeze (join nl (config_lines route)) = u @ ''}''"
proof -
  have "\<exists>t. join nl (config_lines route) = t @ ''}''"
    unfolding config_lines_def using join_snoc [of _ nl "''}''"]
    by (metis append.assoc append_is_Nil_conv list.distinct(1))
  then show ?thesis using squeeze_snoc [of "CHR ''}''"] by auto
qed

subsection \<open>Properties\<close>



text \<open>
  No preview has two blank lines in a row, whatever the route's text fields hold, and every
  preview ends with the closing brace of the server block and a line feed.
\<close>

theorem preview_layout:
  "\<not> str_includes (generateConfigPreview route) (nl @ nl @ nl) \<and>
   ends_with (generateConfigPreview route) (''}'' @ nl)"
proof -
  let ?t = "squeeze (join nl (config_lines route))"
  obtain u where u: "?t = u @ ''}''" using config_ends_brace by blast
  then have trimmed: "trim_end ?t = ?t"
    by (simp add: trim_end_def is_space_def in_range_def code_of_def)
  have "\<not> suffix (nl @ nl @ nl) (?t @ [CHR 0x0A])"
    unfolding u by (simp add: suffix_to_prefix nl_def)
  then have "\<not> sublist (nl @ nl @ nl) (?t @ nl)"
    using squeeze_no_triple [of "join nl (config_lines route)"]
      sublist_snoc [of "nl @ nl @ nl" ?t "CHR 0x0A"]
    unfolding str_includes_sublist nl_def by blast
  with trimmed u show ?thesis
    by (simp add: config_squeeze str_includes_sublist ends_with_def suffix_def)
qed

text \<open>
  The proxy target of a route has no effect on its preview: only locations are rendered with a
  \<open>proxy_pass\<close> directive, although the schema demands that a route with a proxy target has none.
\<close>

theorem preview_ignores_server_proxy:
  "generateConfigPreview (JObj (map_set ''proxy_pass'' target ps)) = generateConfigPreview (JObj ps)"
  by (simp add: generateConfigPreview_def config_lines_def base_directives_def ssl_block_def
      advanced_block_def locations_block_def)

definition proxied_location :: "string \<Rightarrow> js" where
  "proxied_location w = JObj [(''path'', JStr ''/''), (''proxy_pass'', JStr (''a/'' @ w))]"

lemma proxy_target_tail:
  assumes "list_all plain_char w"
  shows "proxy_wf (JStr (''a/'' @ w))"
proof -
  have plain: "list_all plain_char (''a/'' @ w)"
    using assms by (simp add: plain_char_def is_space_def in_range_def code_of_def)
  have "\<not> plain_char (CHR 0x0D)" "\<not> plain_char (CHR 0x0A)"
    by (simp_all add: plain_char_def is_space_def in_range_def code_of_def)
  then have line: "list_all not_newline w"
    using assms by (auto simp: list_all_iff not_newline_def)
  let ?scheme = "Opt (seqs [lit ''http'', Opt (lit ''s''), lit ''://''])"
    and ?port = "Opt (Seq (lit '':'') (Plus (Chr is_digit)))"
    and ?rest = "Opt (Seq (lit ''/'') (Star (Chr not_newline)))"
  have "matches ?rest p (CHR ''/'' # w) []" for p
    using line by (simp del: lit.simps)
  then have "matches (Seq ?port ?rest) p ([] @ CHR ''/'' # w) []" for p
    by (intro matches_SeqI) (simp_all del: lit.simps seqs.simps)
  moreover have "matches (Plus (Chr host_char)) p ''a'' v" for p v
    by (simp add: host_char_def is_alnum_def is_lower_def in_range_def code_of_def)
  ultimately have "matches (Seq (Plus (Chr host_char)) (Seq ?port ?rest)) p (''a'' @ [] @ CHR ''/'' # w) []" for p
    by (rule matches_SeqI [rotated])
  then have "matches (Seq ?scheme (Seq (Plus (Chr host_char)) (Seq ?port ?rest))) [] ([] @ ''a'' @ [] @ CHR ''/'' # w) []"
    by (rule matches_SeqI [rotated]) (simp only: matches_Opt simp_thms)
  then have "test proxy_target_re (''a/'' @ w)"
    unfolding proxy_target_re_def test_anchored by (simp only: append.simps)
  with containsSecretLikeValue_plain [OF plain] show ?thesis
    by (simp add: proxy_wf_def)
qed

text \<open>
  The expression for proxy targets stops checking after the first slash: a location whose
  target is a host, a slash and any text without colon, equals sign and white space, braces and
  semicolons included, is valid, and the text reaches the location block as it is.
\<close>

theorem proxy_target_admits_syntax:
  assumes "zod z" and "list_all plain_char w"
  shows "validateLocation z (proxied_location w) \<and>
    sublist (''a/'' @ w @ '';'') (renderLocationBlock (proxied_location w))"
proof
  let ?l = "proxied_location w"
  have path: "accepts z URLPathSchema (JStr ''/'') (JStr ''/'')"
    by (simp add: URLPathSchema_def zod.check_laws [OF assms(1)] zod.string_law [OF assms(1)] test_url_path_re safe_char_def)
  have "accepts z LocationConfigSchema ?l ?l"
    unfolding LocationConfigSchema_def zod.super_refine_law [OF assms(1)] zod.object_law [OF assms(1)]
    using path proxy_target_tail [OF assms(2)]
    by (auto simp: proxied_location_def location_refine_def object_output_def list_all2_Cons1 opt_str_def
        zod.field_accepts [OF assms(1)])
  then show "validateLocation z ?l"
    by (simp add: validateLocation_def makeValidator_def accepts_def)
  show "sublist (''a/'' @ w @ '';'') (renderLocationBlock ?l)"
  proof -
    have "renderLocationBlock ?l =
        (''    location / {'' @ nl @ ''        proxy_pass '') @ (''a/'' @ w @ '';'') @ nl @ ''    }''"
      by (simp add: renderLocationBlock_def location_lines_def proxied_location_def indent_def numeral_2_eq_2)
    then show ?thesis by (simp only: sublist_appendI)
  qed
qed

theorem proxy_target_admits_syntax_witness:
  "validateLocation zod_reference (proxied_location '';}}server{'')"
  using proxy_target_admits_syntax [OF zref.zod_axioms, of "'';}}server{''"]
  by (simp add: plain_char_def is_space_def in_range_def code_of_def)

end
