(* ===== verification/Route_Repository.thy ===== *)
theory Route_Repository
  imports Entities
begin

text \<open>
  The route repositories: the interface \<open>RouteRepository\<close> as a record of operations on a store, and
  its implementations over \<open>localStorage\<close> (core and infra), over the remote bridge, and over the
  state of a client store. The locales \<open>route_reader\<close> and \<open>route_repo\<close> state what the use cases
  rely on: a repository behaves like a map from ids to stored routes. Writing to \<open>localStorage\<close>
  always succeeds here (no quota).
\<close>

subsection \<open>The interface\<close>

type_synonym routes_map = "(js, js) jsmap"

record 's route_repository =
  rr_save :: "js \<Rightarrow> ('s, js_error, unit) io"
  rr_findById :: "string \<Rightarrow> ('s, js_error, js) io"
  rr_findAll :: "('s, js_error, js list) io"
  rr_delete :: "string \<Rightarrow> ('s, js_error, unit) io"
  rr_saveAll :: "routes_map \<Rightarrow> ('s, js_error, unit) io"
  rr_loadAll :: "('s, js_error, routes_map) io"

text \<open>What a call on a value of the wrong type throws.\<close>

definition type_error :: js_error where
  "type_error = Error ''TypeError''"

text \<open>\<open>x ?? null\<close> for a map lookup.\<close>

definition or_null :: "js option \<Rightarrow> js" where
  "or_null x = (case x of Some v \<Rightarrow> if v = JUndef then JNull else v | None \<Rightarrow> JNull)"

subsection \<open>\<open>localStorage\<close>\<close>

type_synonym storage = "string \<Rightarrow> json_text option"

definition getItem :: "string \<Rightarrow> storage \<Rightarrow> json_text option" where
  "getItem key s = s key"

definition setItem :: "string \<Rightarrow> json_text \<Rightarrow> (storage, js_error, unit) io" where
  "setItem key t = (\<lambda>s. (Inr (), s(key \<mapsto> t)))"

subsection \<open>\<open>LocalStorageRouteRepository\<close>\<close>

definition ls_key :: string where
  "ls_key = ''nginx_routes''"

text \<open>
  \<open>new Map(v)\<close> for a parsed value; \<open>None\<close> when it throws because an entry is not an object or
  the value is not iterable.
\<close>

definition elem :: "js list \<Rightarrow> nat \<Rightarrow> js" where
  "elem xs i = (if i < length xs then xs ! i else JUndef)"

fun map_entry :: "js \<Rightarrow> (js \<times> js) option" where
  "map_entry (JArr xs) = Some (elem xs 0, elem xs 1)"
| "map_entry (JObj ps) = Some (pget ps ''0'', pget ps ''1'')"
| "map_entry _ = None"

fun map_of_entries :: "js \<Rightarrow> routes_map option" where
  "map_of_entries (JArr es) = map_option map_new (those (map map_entry es))"
| "map_of_entries JNull = Some []"
| "map_of_entries (JStr s) = (if s = [] then Some [] else None)"
| "map_of_entries _ = None"

definition ls_read :: "storage \<Rightarrow> routes_map" where
  "ls_read s =
     (case getItem ls_key s of
        None \<Rightarrow> []
      | Some EmptyText \<Rightarrow> []
      | Some raw \<Rightarrow>
          (case json_parse raw of
             None \<Rightarrow> []
           | Some entries \<Rightarrow> (case map_of_entries entries of None \<Rightarrow> [] | Some m \<Rightarrow> m)))"

definition ls_loadAll :: "(storage, js_error, routes_map) io" where
  "ls_loadAll = (\<lambda>s. (Inr (ls_read s), s))"

definition entries_array :: "routes_map \<Rightarrow> js" where
  "entries_array m = JArr (map (\<lambda>(k, v). JArr [k, v]) m)"

definition ls_saveAll :: "routes_map \<Rightarrow> (storage, js_error, unit) io" where
  "ls_saveAll routes = setItem ls_key (stringifyWithoutSecrets (entries_array routes))"

definition ls_save :: "js \<Rightarrow> (storage, js_error, unit) io" where
  "ls_save route = bind ls_loadAll (\<lambda>all.
     let next = map_new (map_set (get route ''id'') route all) in ls_saveAll next)"

definition ls_findById :: "string \<Rightarrow> (storage, js_error, js) io" where
  "ls_findById i = bind ls_loadAll (\<lambda>all.
     ret (case map_of all (JStr i) of Some v \<Rightarrow> if truthy v then v else JNull | None \<Rightarrow> JNull))"

definition ls_findAll :: "(storage, js_error, js list) io" where
  "ls_findAll = bind ls_loadAll (\<lambda>all. ret (map snd all))"

definition ls_delete :: "string \<Rightarrow> (storage, js_error, unit) io" where
  "ls_delete i = bind ls_loadAll (\<lambda>all.
     let next = map_new (map_delete (JStr i) all) in ls_saveAll next)"

definition LocalStorageRouteRepository :: "storage route_repository" where
  "LocalStorageRouteRepository =
     \<lparr>rr_save = ls_save, rr_findById = ls_findById, rr_findAll = ls_findAll, rr_delete = ls_delete,
      rr_saveAll = ls_saveAll, rr_loadAll = ls_loadAll\<rparr>"

subsection \<open>\<open>BrowserLocalStorageRouteRepository\<close>\<close>

definition ROUTES_STORAGE_KEY :: string where
  "ROUTES_STORAGE_KEY = ''nginx_routes''"

text \<open>\<open>d?.toISOString()\<close>; an error for an invalid date or a value without that method.\<close>

fun opt_toISOString :: "js \<Rightarrow> js_error + js" where
  "opt_toISOString JUndef = Inr JUndef"
| "opt_toISOString JNull = Inr JUndef"
| "opt_toISOString (JDate (Some t)) = Inr (JStr (to_iso t))"
| "opt_toISOString (JDate None) = Inl (Error ''Invalid time value'')"
| "opt_toISOString _ = Inl type_error"

definition toPersistedRoute :: "js \<Rightarrow> js_error + js" where
  "toPersistedRoute route =
     (let md = get route ''metadata'' in
      if truthy md
      then (case opt_toISOString (get md ''createdAt'') of
              Inl e \<Rightarrow> Inl e
            | Inr c \<Rightarrow>
                (case opt_toISOString (get md ''updatedAt'') of
                   Inl e \<Rightarrow> Inl e
                 | Inr u \<Rightarrow>
                     Inr (JObj (spread (own_props route)
                       [(''metadata'', JObj (spread (own_props md) [(''createdAt'', c), (''updatedAt'', u)]))]))))
      else Inr (JObj (spread (own_props route) [(''metadata'', JUndef)])))"

text \<open>\<open>new Date(v)\<close> for a truthy stored value: a string is parsed, a number is the time value; \<open>new Date()\<close> otherwise.\<close>

definition date_or_now :: "host \<Rightarrow> int \<Rightarrow> js \<Rightarrow> js" where
  "date_or_now z now v =
     (if truthy v
      then (case v of
              JStr s \<Rightarrow> JDate (dateParse z s)
            | JNum n \<Rightarrow>
                JDate (case n of Fin x \<Rightarrow> if \<bar>x\<bar> \<le> 8640000000000000 then Some \<lfloor>rat_trunc x\<rfloor> else None | _ \<Rightarrow> None)
            | JDate d \<Rightarrow> JDate d
            | JBool b \<Rightarrow> JDate (Some 1)
            | _ \<Rightarrow> JDate (dateParse z (js_to_string v)))
      else JDate (Some now))"

definition fromPersistedRoute :: "host \<Rightarrow> int \<Rightarrow> js \<Rightarrow> js" where
  "fromPersistedRoute z now route =
     (let md = get route ''metadata'' in
      JObj (spread (own_props route)
        [(''metadata'',
          if truthy md
          then JObj (spread (own_props md)
                 [(''createdAt'', date_or_now z now (get md ''createdAt'')),
                  (''updatedAt'', date_or_now z now (get md ''updatedAt''))])
          else JUndef)]))"

text \<open>A sequence of conversions stops at the first error, as a callback of \<open>map\<close> that throws does.\<close>

fun sequence :: "('e + 'a) list \<Rightarrow> 'e + 'a list" where
  "sequence [] = Inr []"
| "sequence (Inl e # xs) = Inl e"
| "sequence (Inr x # xs) = (case sequence xs of Inl e \<Rightarrow> Inl e | Inr ys \<Rightarrow> Inr (x # ys))"

text \<open>
  The stored array. Reading a property of \<open>null\<close> or \<open>undefined\<close> throws and is caught, so such an
  element makes the whole list empty; the elements that JSON can hold are otherwise converted.
\<close>

definition br_read :: "host \<Rightarrow> int \<Rightarrow> string \<Rightarrow> storage \<Rightarrow> js list" where
  "br_read z now key s =
     (case getItem key s of
        None \<Rightarrow> []
      | Some EmptyText \<Rightarrow> []
      | Some raw \<Rightarrow>
          (case json_parse raw of
             Some (JArr routes) \<Rightarrow> if JNull \<in> set routes then [] else map (fromPersistedRoute z now) routes
           | _ \<Rightarrow> []))"

definition br_findAll :: "host \<Rightarrow> int \<Rightarrow> string \<Rightarrow> (storage, js_error, js list) io" where
  "br_findAll z now key = (\<lambda>s. (Inr (br_read z now key s), s))"

definition br_write :: "string \<Rightarrow> js list \<Rightarrow> (storage, js_error, unit) io" where
  "br_write key routes =
     (case sequence (map toPersistedRoute routes) of
        Inl e \<Rightarrow> throw e
      | Inr ps \<Rightarrow> setItem key (stringifyWithoutSecrets (JArr ps)))"

definition by_id :: "js list \<Rightarrow> routes_map" where
  "by_id routes = map_new (map (\<lambda>r. (get r ''id'', r)) routes)"

definition br_save :: "host \<Rightarrow> int \<Rightarrow> string \<Rightarrow> js \<Rightarrow> (storage, js_error, unit) io" where
  "br_save z now key route = bind (br_findAll z now key) (\<lambda>all.
     br_write key (map snd (map_set (get route ''id'') route (by_id all))))"

definition br_findById :: "host \<Rightarrow> int \<Rightarrow> string \<Rightarrow> string \<Rightarrow> (storage, js_error, js) io" where
  "br_findById z now key i = bind (br_findAll z now key) (\<lambda>routes.
     ret (or_null (find (\<lambda>r. get r ''id'' = JStr i) routes)))"

definition br_delete :: "host \<Rightarrow> int \<Rightarrow> string \<Rightarrow> string \<Rightarrow> (storage, js_error, unit) io" where
  "br_delete z now key i = bind (br_findAll z now key) (\<lambda>routes.
     br_write key (filter (\<lambda>r. get r ''id'' \<noteq> JStr i) routes))"

definition br_saveAll :: "string \<Rightarrow> routes_map \<Rightarrow> (storage, js_error, unit) io" where
  "br_saveAll key routes = br_write key (map snd routes)"

definition br_loadAll :: "host \<Rightarrow> int \<Rightarrow> string \<Rightarrow> (storage, js_error, routes_map) io" where
  "br_loadAll z now key = bind (br_findAll z now key) (\<lambda>routes. ret (by_id routes))"

definition BrowserLocalStorageRouteRepository :: "host \<Rightarrow> int \<Rightarrow> string \<Rightarrow> storage route_repository" where
  "BrowserLocalStorageRouteRepository z now key =
     \<lparr>rr_save = br_save z now key, rr_findById = br_findById z now key, rr_findAll = br_findAll z now key,
      rr_delete = br_delete z now key, rr_saveAll = br_saveAll key, rr_loadAll = br_loadAll z now key\<rparr>"

subsection \<open>\<open>RemoteBridgeRouteRepository\<close>\<close>

text \<open>The bridge the preload script exposes: a request object in, a result object out.\<close>

type_synonym 's bridge = "js \<Rightarrow> ('s, js_error, js) io"

definition rb_execute :: "'s bridge \<Rightarrow> string \<Rightarrow> js \<Rightarrow> ('s, js_error, js) io" where
  "rb_execute bridge command payload =
     bind (bridge (JObj [(''command'', JStr command), (''payload'', payload)])) (\<lambda>result.
       if \<not> truthy (get result ''ok'')
       then (let m = get (get result ''error'') ''message'' in
             throw (Error (if m = JUndef \<or> m = JNull then ''Remote command '' @ command @ '' failed''
                           else js_to_string m)))
       else if get result ''data'' = JUndef
       then throw (Error (''Remote command '' @ command @ '' returned empty response''))
       else ret (get result ''data''))"

definition rb_save :: "'s bridge \<Rightarrow> js \<Rightarrow> ('s, js_error, unit) io" where
  "rb_save bridge route =
     bind (rb_execute bridge ''routes:save'' (JObj [(''draft'', route)])) (\<lambda>_. ret ())"

definition rb_loadAll :: "'s bridge \<Rightarrow> ('s, js_error, routes_map) io" where
  "rb_loadAll bridge =
     bind (rb_execute bridge ''routes:list'' (JObj [(''includeDisabled'', JBool True)])) (\<lambda>response.
       case get response ''routes'' of
         JArr routes \<Rightarrow> if JNull \<in> set routes \<or> JUndef \<in> set routes then throw type_error else ret (by_id routes)
       | _ \<Rightarrow> throw type_error)"

definition rb_findById :: "'s bridge \<Rightarrow> string \<Rightarrow> ('s, js_error, js) io" where
  "rb_findById bridge i = bind (rb_loadAll bridge) (\<lambda>routes. ret (or_null (map_of routes (JStr i))))"

definition rb_findAll :: "'s bridge \<Rightarrow> ('s, js_error, js list) io" where
  "rb_findAll bridge = bind (rb_loadAll bridge) (\<lambda>routes. ret (map snd routes))"

definition rb_delete :: "'s bridge \<Rightarrow> string \<Rightarrow> ('s, js_error, unit) io" where
  "rb_delete bridge i =
     throw (Error (''Delete is not supported over transitional transport for route \"'' @ i @ ''\"''))"

text \<open>
  \<open>Promise.all\<close>: every save is started, in the order of the map, and the first failure is the
  one reported; a failure does not stop the other saves.
\<close>

fun all_tasks :: "('s, 'e, unit) io list \<Rightarrow> ('s, 'e, unit) io" where
  "all_tasks [] s = (Inr (), s)"
| "all_tasks (t # ts) s =
     (let (r, s1) = t s; (r', s2) = all_tasks ts s1
      in (case r of Inl e \<Rightarrow> (Inl e, s2) | Inr _ \<Rightarrow> (r', s2)))"

definition rb_saveAll :: "'s bridge \<Rightarrow> routes_map \<Rightarrow> ('s, js_error, unit) io" where
  "rb_saveAll bridge routes = all_tasks (map (rb_save bridge) (map snd routes))"

definition RemoteBridgeRouteRepository :: "'s bridge \<Rightarrow> 's route_repository" where
  "RemoteBridgeRouteRepository bridge =
     \<lparr>rr_save = rb_save bridge, rr_findById = rb_findById bridge, rr_findAll = rb_findAll bridge,
      rr_delete = rb_delete bridge, rr_saveAll = rb_saveAll bridge, rr_loadAll = rb_loadAll bridge\<rparr>"

subsection \<open>\<open>createRouteRepository\<close>\<close>

text \<open>\<open>resolveRemoteBridge\<close> is \<open>None\<close> when the window has no usable bridge.\<close>

definition isAvailable :: "'s bridge option \<Rightarrow> bool" where
  "isAvailable bridge \<longleftrightarrow> bridge \<noteq> None"

definition create_bridge_repository :: "'s bridge option \<Rightarrow> js_error + 's route_repository" where
  "create_bridge_repository bridge =
     (case bridge of None \<Rightarrow> Inl (Error ''remoteBridge is unavailable'')
      | Some b \<Rightarrow> Inr (RemoteBridgeRouteRepository b))"

definition createRouteRepository ::
  "host \<Rightarrow> int \<Rightarrow> storage bridge option \<Rightarrow> string option \<Rightarrow> js_error + storage route_repository" where
  "createRouteRepository z now bridge fallbackStorageKey =
     (if isAvailable bridge then create_bridge_repository bridge
      else Inr (BrowserLocalStorageRouteRepository z now
             (case fallbackStorageKey of None \<Rightarrow> ROUTES_STORAGE_KEY | Some k \<Rightarrow> k)))"

subsection \<open>The adapter over a client store\<close>

text \<open>
  \<open>createRouteRepositoryAdapter(get, set)\<close>: \<open>g\<close> reads the routes of the state, \<open>st f\<close> is
  \<open>set\<close> applied to an updater of the routes.
\<close>

definition createRouteRepositoryAdapter ::
  "('s \<Rightarrow> routes_map) \<Rightarrow> ((routes_map \<Rightarrow> routes_map) \<Rightarrow> 's \<Rightarrow> 's) \<Rightarrow> 's route_repository" where
  "createRouteRepositoryAdapter g st =
     \<lparr>rr_save = (\<lambda>route s. (Inr (), st (\<lambda>routes. map_set (get route ''id'') route (map_new routes)) s)),
      rr_findById = (\<lambda>i s. (Inr (or_null (map_of (g s) (JStr i))), s)),
      rr_findAll = (\<lambda>s. (Inr (map snd (g s)), s)),
      rr_delete = (\<lambda>i s. (Inr (), st (\<lambda>routes. map_delete (JStr i) (map_new routes)) s)),
      rr_saveAll = (\<lambda>routes s. (Inr (), st (\<lambda>_. map_new routes) s)),
      rr_loadAll = (\<lambda>s. (Inr (g s), s))\<rparr>"

subsection \<open>What the use cases rely on\<close>

text \<open>
  \<open>view s\<close> is the map from ids to routes the repository stands for, \<open>inv\<close> an invariant of the
  store, \<open>norm r\<close> what reading back a saved route gives, \<open>storable\<close> the routes for which saving
  keeps the invariant.
\<close>

locale route_reader =
  fixes repo :: "'s route_repository"
    and view :: "'s \<Rightarrow> string \<Rightarrow> js option"
    and inv :: "'s \<Rightarrow> bool"
    and norm :: "js \<Rightarrow> js"
    and storable :: "js \<Rightarrow> bool"
  assumes find_law: "inv s \<Longrightarrow> rr_findById repo i s = (Inr (or_null (view s i)), s)"
    and view_law: "inv s \<Longrightarrow> view s i = Some v \<Longrightarrow> is_obj v \<and> get v ''id'' = JStr i"
    and save_law: "inv s \<Longrightarrow> storable r \<Longrightarrow> get r ''id'' = JStr i \<Longrightarrow>
          \<exists>s'. rr_save repo r s = (Inr (), s') \<and> inv s' \<and> view s' = (view s)(i \<mapsto> norm r)"
begin

lemma or_null_view: "inv s \<Longrightarrow> or_null (view s i) = JNull \<longleftrightarrow> view s i = None"
  using view_law [of s i] by (auto simp: or_null_def split: option.splits)

lemma find_Some: "inv s \<Longrightarrow> view s i = Some v \<Longrightarrow> rr_findById repo i s = (Inr v, s)"
  using view_law [of s i v] by (auto simp: find_law or_null_def)

lemma find_None: "inv s \<Longrightarrow> view s i = None \<Longrightarrow> rr_findById repo i s = (Inr JNull, s)"
  by (simp add: find_law or_null_def)

text \<open>Reading after writing.\<close>

lemma find_after_save:
  assumes "inv s" "storable r" "get r ''id'' = JStr i"
  shows "\<exists>s'. rr_save repo r s = (Inr (), s') \<and> inv s' \<and> rr_findById repo i s' = (Inr (norm r), s') \<and>
    (j \<noteq> i \<longrightarrow> rr_findById repo j s' = (Inr (or_null (view s j)), s'))"
proof -
  from save_law [OF assms] obtain s' where s': "rr_save repo r s = (Inr (), s')" "inv s'"
    "view s' = (view s)(i \<mapsto> norm r)" by blast
  then show ?thesis by (auto simp: find_Some find_law)
qed

end

locale route_repo = route_reader +
  assumes delete_law: "inv s \<Longrightarrow>
          \<exists>s'. rr_delete repo i s = (Inr (), s') \<and> inv s' \<and> view s' = (view s)(i := None)"
    and load_law: "inv s \<Longrightarrow>
          \<exists>m. rr_loadAll repo s = (Inr m, s) \<and> map_wf m \<and> (\<forall>i. map_of m (JStr i) = view s i)"
    and all_law: "inv s \<Longrightarrow> \<exists>rs. rr_findAll repo s = (Inr rs, s) \<and> set rs = ran (view s)"
begin

lemma find_after_delete:
  assumes "inv s"
  shows "\<exists>s'. rr_delete repo i s = (Inr (), s') \<and> inv s' \<and> rr_findById repo i s' = (Inr JNull, s') \<and>
    (j \<noteq> i \<longrightarrow> rr_findById repo j s' = (Inr (or_null (view s j)), s'))"
proof -
  from delete_law [OF assms, of i] obtain s' where s': "rr_delete repo i s = (Inr (), s')" "inv s'"
    "view s' = (view s)(i := None)" by blast
  then show ?thesis by (auto simp: find_None find_law)
qed

end

subsection \<open>The store of \<open>LocalStorageRouteRepository\<close>\<close>

text \<open>What a value is after it was written to the storage and read back.\<close>

definition stored :: "js \<Rightarrow> js" where
  "stored v = json_val (sanitizeForJson v)"

definition clean_id :: "js \<Rightarrow> bool" where
  "clean_id v \<longleftrightarrow> is_str v \<and> redactPotentialSecrets (str_of v) = str_of v"

definition ls_entry_ok :: "js \<times> js \<Rightarrow> bool" where
  "ls_entry_ok e \<longleftrightarrow> clean_id (fst e) \<and> is_obj (snd e) \<and> get (snd e) ''id'' = fst e \<and> stored (snd e) = snd e"

definition ls_inv :: "storage \<Rightarrow> bool" where
  "ls_inv s \<longleftrightarrow> map_wf (ls_read s) \<and> list_all ls_entry_ok (ls_read s)"

definition ls_view :: "storage \<Rightarrow> string \<Rightarrow> js option" where
  "ls_view s i = map_of (ls_read s) (JStr i)"

definition ls_storable :: "js \<Rightarrow> bool" where
  "ls_storable r \<longleftrightarrow> is_obj r \<and> clean_id (get r ''id'') \<and> stored (stored r) = stored r"

lemma stored_clean_id: "clean_id v \<Longrightarrow> stored v = v"
  by (cases v) (auto simp: clean_id_def stored_def)

lemma id_not_sensitive: "\<not> isSensitiveFieldName ''id''"
  by code_simp

lemma stored_id:
  assumes "is_obj r" and "clean_id (get r ''id'')"
  shows "is_obj (stored r)" and "get (stored r) ''id'' = get r ''id''"
proof -
  from assms obtain ps i where r: "r = JObj ps" "pget ps ''id'' = JStr i" "redactPotentialSecrets i = i"
    by (cases r) (auto simp: clean_id_def is_str_iff)
  show "is_obj (stored r)" by (simp add: r stored_def)
  have "pget (map (\<lambda>(k, v). (k, sanitizeForJson v)) (filter (\<lambda>(k, v). \<not> isSensitiveFieldName k) ps)) ''id'' = JStr i"
    using pget_map_filter [of ps "''id''" "JStr i" "\<lambda>k v. \<not> isSensitiveFieldName k" sanitizeForJson] r id_not_sensitive
    by simp
  then show "get (stored r) ''id'' = get r ''id''"
    using pget_map_filter [of _ "''id''" "JStr i" "\<lambda>k v. v \<noteq> JUndef" json_val] r by (simp add: stored_def)
qed

lemma ls_read_saved:
  "snd (ls_saveAll m s) ls_key = Some (Text (JArr (map (\<lambda>(k, v). JArr [stored k, stored v]) m)))"
  by (simp add: ls_saveAll_def setItem_def stringifyWithoutSecrets_def json_stringify_def entries_array_def
      stored_def case_prod_unfold)

lemma those_map_Some: "those (map (\<lambda>x. Some (f x)) xs) = Some (map f xs)"
  by (induction xs) auto

lemma ls_read_after_saveAll:
  assumes "map_wf m" and "list_all (\<lambda>(k, v). stored k = k) m"
  shows "ls_read (snd (ls_saveAll m s)) = map (\<lambda>(k, v). (k, stored v)) m"
proof -
  have "those (map map_entry (map (\<lambda>(k, v). JArr [stored k, stored v]) m)) = Some (map (\<lambda>(k, v). (k, stored v)) m)"
    using assms(2) by (induction m) (auto simp: elem_def)
  moreover have "map_new (map (\<lambda>(k, v). (k, stored v)) m) = map (\<lambda>(k, v). (k, stored v)) m"
    using assms(1) by (intro map_new_wf_id) (simp add: map_wf_def comp_def case_prod_unfold)
  ultimately show ?thesis
    using ls_read_saved [of m s] by (simp add: ls_read_def getItem_def)
qed

lemma ls_inv_entries: "ls_inv s \<Longrightarrow> (k, v) \<in> set (ls_read s) \<Longrightarrow> ls_entry_ok (k, v)"
  by (auto simp: ls_inv_def list_all_iff)

lemma ls_entries_stored: "list_all ls_entry_ok m \<Longrightarrow> map (\<lambda>(k, v). (k, stored v)) m = m"
  by (induction m) (auto simp: ls_entry_ok_def)

lemma ls_write:
  assumes "map_wf m" and "list_all ls_entry_ok (map (\<lambda>(k, v). (k, stored v)) m)"
  shows "\<exists>s'. ls_saveAll m s = (Inr (), s') \<and> ls_inv s' \<and> ls_read s' = map (\<lambda>(k, v). (k, stored v)) m"
proof -
  have "list_all (\<lambda>(k, v). stored k = k) m"
    using assms(2) by (auto simp: list_all_iff ls_entry_ok_def stored_clean_id)
  then have r: "ls_read (snd (ls_saveAll m s)) = map (\<lambda>(k, v). (k, stored v)) m"
    by (rule ls_read_after_saveAll [OF assms(1)])
  moreover have "fst (ls_saveAll m s) = Inr ()" by (simp add: ls_saveAll_def setItem_def)
  moreover have "ls_inv (snd (ls_saveAll m s))"
    using assms by (simp add: ls_inv_def r map_wf_def comp_def case_prod_unfold)
  ultimately show ?thesis by (metis prod.collapse)
qed

lemma values_ran:
  assumes "map_wf m" and "list_all (\<lambda>e. is_str (fst e)) m"
  shows "ran (\<lambda>i. map_of m (JStr i)) = snd ` set m"
proof
  show "snd ` set m \<subseteq> ran (\<lambda>i. map_of m (JStr i))"
  proof
    fix v assume "v \<in> snd ` set m"
    then obtain k where kv: "(k, v) \<in> set m" by auto
    with assms(2) obtain j where "k = JStr j" by (auto simp: list_all_iff is_str_iff)
    with kv assms(1) have "map_of m (JStr j) = Some v" by (simp add: map_wf_def)
    then show "v \<in> ran (\<lambda>i. map_of m (JStr i))" by (auto simp: ran_def)
  qed
qed (force simp: ran_def dest: map_of_SomeD)

interpretation ls: route_repo LocalStorageRouteRepository ls_view ls_inv stored ls_storable
proof
  fix s :: storage and i v r
  assume s: "ls_inv s"
  have entry: "ls_entry_ok (JStr i, v)" if "ls_view s i = Some v" for v i
    using that s by (auto simp: ls_view_def intro: ls_inv_entries dest: map_of_SomeD)
  show "rr_findById LocalStorageRouteRepository i s = (Inr (or_null (ls_view s i)), s)"
    using entry [of i]
    by (cases "ls_view s i")
      (auto simp: LocalStorageRouteRepository_def ls_findById_def ls_loadAll_def bind_def or_null_def
        ls_view_def ls_entry_ok_def split: option.splits elim: is_obj.elims)
  show "is_obj v \<and> get v ''id'' = JStr i" if "ls_view s i = Some v"
    using entry [OF that] by (simp add: ls_entry_ok_def)
  show "\<exists>s'. rr_save LocalStorageRouteRepository r s = (Inr (), s') \<and> ls_inv s' \<and>
      ls_view s' = (ls_view s)(i \<mapsto> stored r)" if r: "ls_storable r" "get r ''id'' = JStr i"
  proof -
    let ?m = "map_set (JStr i) r (ls_read s)"
    have wf: "map_wf ?m" using s by (simp add: ls_inv_def)
    have m: "map (\<lambda>(k, v). (k, stored v)) ?m = map_set (JStr i) (stored r) (ls_read s)"
      using s by (simp add: map_set_map ls_entries_stored ls_inv_def)
    have "ls_entry_ok (JStr i, stored r)"
      using r stored_id [of r] by (auto simp: ls_entry_ok_def ls_storable_def)
    then have "list_all ls_entry_ok (map_set (JStr i) (stored r) (ls_read s))"
      using s set_map_set [of "JStr i" "stored r" "ls_read s"] by (auto simp: ls_inv_def list_all_iff)
    with ls_write [OF wf, of s] show ?thesis
      unfolding m using wf r
      by (auto simp: LocalStorageRouteRepository_def ls_save_def ls_loadAll_def bind_def map_new_wf_id
          ls_view_def fun_eq_iff)
  qed
  show "\<exists>s'. rr_delete LocalStorageRouteRepository i s = (Inr (), s') \<and> ls_inv s' \<and>
      ls_view s' = (ls_view s)(i := None)"
  proof -
    let ?m = "map_delete (JStr i) (ls_read s)"
    have wf: "map_wf ?m" using s by (simp add: ls_inv_def)
    have m: "map (\<lambda>(k, v). (k, stored v)) ?m = ?m"
      using s by (simp add: map_delete_map ls_entries_stored ls_inv_def)
    have "list_all ls_entry_ok ?m"
      using s set_map_delete [of "JStr i" "ls_read s"] by (auto simp: ls_inv_def list_all_iff)
    with ls_write [OF wf, of s] show ?thesis
      unfolding m using wf
      by (auto simp: LocalStorageRouteRepository_def ls_delete_def ls_loadAll_def bind_def map_new_wf_id
          ls_view_def fun_eq_iff)
  qed
  show "\<exists>m. rr_loadAll LocalStorageRouteRepository s = (Inr m, s) \<and> map_wf m \<and>
      (\<forall>i. map_of m (JStr i) = ls_view s i)"
    using s by (simp add: LocalStorageRouteRepository_def ls_loadAll_def ls_view_def ls_inv_def)
  show "\<exists>rs. rr_findAll LocalStorageRouteRepository s = (Inr rs, s) \<and> set rs = ran (ls_view s)"
    using s values_ran [of "ls_read s"]
    by (simp add: LocalStorageRouteRepository_def ls_findAll_def ls_loadAll_def bind_def ls_view_def [abs_def]
        ls_inv_def list_all_iff ls_entry_ok_def clean_id_def)
qed

subsection \<open>The store of the adapter\<close>

definition entry_ok :: "js \<times> js \<Rightarrow> bool" where
  "entry_ok e \<longleftrightarrow> is_str (fst e) \<and> is_obj (snd e) \<and> get (snd e) ''id'' = fst e"

definition map_inv :: "routes_map \<Rightarrow> bool" where
  "map_inv m \<longleftrightarrow> map_wf m \<and> list_all entry_ok m"

definition map_view :: "routes_map \<Rightarrow> string \<Rightarrow> js option" where
  "map_view m i = map_of m (JStr i)"

definition has_id :: "js \<Rightarrow> bool" where
  "has_id r \<longleftrightarrow> is_obj r \<and> is_str (get r ''id'')"

definition identity :: "js \<Rightarrow> js" where
  "identity r = r"

text \<open>The adapter over a store whose state is the map itself, read and updated in place.\<close>

definition map_repository :: "routes_map route_repository" where
  "map_repository = createRouteRepositoryAdapter (\<lambda>m. m) (\<lambda>f m. f m)"

lemma map_inv_set: "map_inv m \<Longrightarrow> has_id r \<Longrightarrow> get r ''id'' = JStr i \<Longrightarrow> map_inv (map_set (JStr i) r m)"
  using set_map_set [of "JStr i" r m]
  by (auto simp: map_inv_def list_all_iff entry_ok_def has_id_def)

lemma map_inv_delete: "map_inv m \<Longrightarrow> map_inv (map_delete k m)"
  using set_map_delete [of k m] by (auto simp: map_inv_def list_all_iff)

lemma map_inv_lookup: "map_inv m \<Longrightarrow> map_of m (JStr i) = Some v \<Longrightarrow> is_obj v \<and> get v ''id'' = JStr i"
  by (auto simp: map_inv_def list_all_iff entry_ok_def dest!: map_of_SomeD)

interpretation adapter: route_repo map_repository map_view map_inv identity has_id
proof
  fix m :: routes_map and i v r
  assume m: "map_inv m"
  note defs = map_repository_def createRouteRepositoryAdapter_def map_view_def
  show "rr_findById map_repository i m = (Inr (or_null (map_view m i)), m)"
    by (simp add: defs)
  show "is_obj v \<and> get v ''id'' = JStr i" if "map_view m i = Some v"
    using map_inv_lookup m that by (simp add: map_view_def)
  show "\<exists>s'. rr_save map_repository r m = (Inr (), s') \<and> map_inv s' \<and> map_view s' = (map_view m)(i \<mapsto> identity r)"
    if "has_id r" "get r ''id'' = JStr i"
    using m map_inv_set [OF m that] that by (auto simp: defs map_inv_def map_new_wf_id fun_eq_iff identity_def)
  show "\<exists>s'. rr_delete map_repository i m = (Inr (), s') \<and> map_inv s' \<and> map_view s' = (map_view m)(i := None)"
    using m map_inv_delete [OF m] by (auto simp: defs map_inv_def map_new_wf_id fun_eq_iff)
  show "\<exists>ma. rr_loadAll map_repository m = (Inr ma, m) \<and> map_wf ma \<and> (\<forall>i. map_of ma (JStr i) = map_view m i)"
    using m by (simp add: defs map_inv_def)
  show "\<exists>rs. rr_findAll map_repository m = (Inr rs, m) \<and> set rs = ran (map_view m)"
    using m values_ran [of m] by (simp add: defs map_view_def [abs_def] map_inv_def list_all_iff entry_ok_def)
qed

subsection \<open>The store of \<open>BrowserLocalStorageRouteRepository\<close>\<close>

text \<open>A stored route that is written back unchanged when it is read and saved again.\<close>

definition settled :: "host \<Rightarrow> int \<Rightarrow> js \<Rightarrow> bool" where
  "settled z now p \<longleftrightarrow> is_obj p \<and> clean_id (get p ''id'') \<and>
     (case toPersistedRoute (fromPersistedRoute z now p) of Inr q \<Rightarrow> stored q = p | Inl _ \<Rightarrow> False)"

definition br_stored :: "string \<Rightarrow> storage \<Rightarrow> js list" where
  "br_stored key s = (case s key of Some (Text (JArr ps)) \<Rightarrow> ps | _ \<Rightarrow> [])"

definition br_inv :: "host \<Rightarrow> int \<Rightarrow> string \<Rightarrow> storage \<Rightarrow> bool" where
  "br_inv z now key s \<longleftrightarrow>
     list_all (settled z now) (br_stored key s) \<and> distinct (map (\<lambda>p. get p ''id'') (br_stored key s))"

definition br_view :: "host \<Rightarrow> int \<Rightarrow> string \<Rightarrow> storage \<Rightarrow> string \<Rightarrow> js option" where
  "br_view z now key s i = map_of (by_id (br_read z now key s)) (JStr i)"

definition br_norm :: "host \<Rightarrow> int \<Rightarrow> js \<Rightarrow> js" where
  "br_norm z now r = (case toPersistedRoute r of Inr q \<Rightarrow> fromPersistedRoute z now (stored q) | Inl _ \<Rightarrow> r)"

definition br_storable :: "host \<Rightarrow> int \<Rightarrow> js \<Rightarrow> bool" where
  "br_storable z now r \<longleftrightarrow> is_obj r \<and> clean_id (get r ''id'') \<and>
     (case toPersistedRoute r of Inr q \<Rightarrow> settled z now (stored q) | Inl _ \<Rightarrow> False)"

text \<open>The stored routes with their ids.\<close>

definition br_entries :: "string \<Rightarrow> storage \<Rightarrow> routes_map" where
  "br_entries key s = map (\<lambda>p. (get p ''id'', p)) (br_stored key s)"

definition settled_map :: "host \<Rightarrow> int \<Rightarrow> routes_map \<Rightarrow> bool" where
  "settled_map z now m \<longleftrightarrow> map_wf m \<and> list_all (\<lambda>(k, p). k = get p ''id'' \<and> settled z now p) m"

abbreviation revived :: "host \<Rightarrow> int \<Rightarrow> routes_map \<Rightarrow> routes_map" where
  "revived z now m \<equiv> map (\<lambda>(k, p). (k, fromPersistedRoute z now p)) m"

lemma br_inv_entries: "br_inv z now key s \<longleftrightarrow> settled_map z now (br_entries key s)"
  by (auto simp: br_inv_def settled_map_def br_entries_def map_wf_def list_all_iff comp_def)

lemma fromPersisted_id: "is_obj p \<Longrightarrow> get (fromPersistedRoute z now p) ''id'' = get p ''id''"
  by (cases p) (auto simp: fromPersistedRoute_def Let_def)

lemma fromPersisted_obj [simp]: "is_obj (fromPersistedRoute z now p)"
  by (simp add: fromPersistedRoute_def Let_def)

lemma br_read_stored:
  assumes "br_inv z now key s"
  shows "br_read z now key s = map snd (revived z now (br_entries key s))"
proof -
  have "JNull \<notin> set (br_stored key s)"
    using assms by (auto simp: br_inv_def list_all_iff settled_def)
  then show ?thesis
    by (auto simp: br_read_def getItem_def br_entries_def br_stored_def comp_def split: option.splits json_text.splits js.splits)
qed

lemma by_id_revived:
  assumes "settled_map z now m"
  shows "by_id (map snd (revived z now m)) = revived z now m"
proof -
  have "map (\<lambda>r. (get r ''id'', r)) (map snd (revived z now m)) = revived z now m"
    using assms by (auto simp: settled_map_def list_all_iff settled_def fromPersisted_id)
  moreover have "map_wf (revived z now m)"
    using assms by (simp add: settled_map_def map_wf_def comp_def case_prod_unfold)
  ultimately show ?thesis unfolding by_id_def by (simp only: map_new_wf_id)
qed

lemma br_view_entries:
  assumes "br_inv z now key s"
  shows "br_view z now key s i = map_option (fromPersistedRoute z now) (map_of (br_entries key s) (JStr i))"
  using assms by_id_revived [of z now "br_entries key s"]
  by (simp add: br_view_def br_read_stored br_inv_entries map_of_map)

text \<open>The persisted form of a route.\<close>

definition persisted :: "js \<Rightarrow> js" where
  "persisted r = (case toPersistedRoute r of Inr q \<Rightarrow> stored q | Inl _ \<Rightarrow> JUndef)"

definition persistable :: "js \<Rightarrow> bool" where
  "persistable r \<longleftrightarrow> (\<exists>q. toPersistedRoute r = Inr q)"

lemma settled_persisted:
  "settled z now p \<Longrightarrow> persistable (fromPersistedRoute z now p) \<and> persisted (fromPersistedRoute z now p) = p"
  by (auto simp: settled_def persistable_def persisted_def split: sum.splits)

lemma sequence_Inr: "list_all (\<lambda>x. \<exists>y. x = Inr y) xs \<Longrightarrow> sequence xs = Inr (map projr xs)"
  by (induction xs rule: sequence.induct) auto

lemma stringify_array: "stringifyWithoutSecrets (JArr qs) = Text (JArr (map stored qs))"
  by (simp add: stringifyWithoutSecrets_def json_stringify_def stored_def)

lemma br_write_settled:
  assumes "list_all (\<lambda>(k, r). persistable r) m" and "settled_map z now (map (\<lambda>(k, r). (k, persisted r)) m)"
  shows "\<exists>s'. br_write key (map snd m) s = (Inr (), s') \<and> br_entries key s' = map (\<lambda>(k, r). (k, persisted r)) m \<and>
    br_inv z now key s'"
proof -
  have "sequence (map toPersistedRoute (map snd m)) = Inr (map (\<lambda>(k, r). projr (toPersistedRoute r)) m)"
    using assms(1) by (subst sequence_Inr) (auto simp: list_all_iff persistable_def)
  moreover have "map stored (map (\<lambda>(k, r). projr (toPersistedRoute r)) m) = map snd (map (\<lambda>(k, r). (k, persisted r)) m)"
    using assms(1) by (auto simp: list_all_iff persistable_def persisted_def)
  ultimately have w: "br_write key (map snd m) s = (Inr (), s(key \<mapsto> Text (JArr (map snd (map (\<lambda>(k, r). (k, persisted r)) m)))))"
    unfolding br_write_def setItem_def by (simp only: sum.case stringify_array)
  have "map (\<lambda>p. (get p ''id'', p)) (map snd (map (\<lambda>(k, r). (k, persisted r)) m)) = map (\<lambda>(k, r). (k, persisted r)) m"
    using assms(2) by (auto simp: settled_map_def list_all_iff)
  with w assms(2) show ?thesis
    by (simp add: br_inv_entries br_entries_def br_stored_def del: map_map)
qed

lemma find_keyed:
  "list_all (\<lambda>(k, r). k = get r ''id'') m \<Longrightarrow> find (\<lambda>r. get r ''id'' = k) (map snd m) = map_of m k"
  by (induction m) auto

lemma filter_keyed:
  "list_all (\<lambda>(k, r). k = get r ''id'') m \<Longrightarrow> filter (\<lambda>r. get r ''id'' \<noteq> k) (map snd m) = map snd (map_delete k m)"
  by (induction m) (auto simp: map_delete_def)

lemma revived_keyed: "settled_map z now m \<Longrightarrow> list_all (\<lambda>(k, r). k = get r ''id'') (revived z now m)"
  by (auto simp: settled_map_def list_all_iff settled_def fromPersisted_id)

lemma revived_persisted:
  "settled_map z now m \<Longrightarrow> map (\<lambda>(k, r). (k, persisted r)) (revived z now m) = m"
  "settled_map z now m \<Longrightarrow> list_all (\<lambda>(k, r). persistable r) (revived z now m)"
  using settled_persisted by (auto simp: settled_map_def list_all_iff intro!: map_idI)

lemma toPersisted_id:
  "is_obj r \<Longrightarrow> toPersistedRoute r = Inr q \<Longrightarrow> is_obj q \<and> get q ''id'' = get r ''id''"
  by (cases r) (auto simp: toPersistedRoute_def Let_def split: if_splits sum.splits)

lemma persisted_id:
  assumes "is_obj r" and "persistable r" and "clean_id (get r ''id'')"
  shows "get (persisted r) ''id'' = get r ''id''"
  using assms toPersisted_id [OF assms(1)] stored_id(2) by (auto simp: persistable_def persisted_def)

lemma br_saved_entries:
  assumes "settled_map z now m" and "br_storable z now r" and "get r ''id'' = JStr i"
  shows "settled_map z now (map_set (JStr i) (persisted r) m)"
    and "list_all (\<lambda>(k, r). persistable r) (map_set (JStr i) r (revived z now m))"
proof -
  have p: "settled z now (persisted r)" "persistable r" "get (persisted r) ''id'' = JStr i"
    using assms(2, 3) persisted_id [of r] by (auto simp: br_storable_def persisted_def persistable_def split: sum.splits)
  show "settled_map z now (map_set (JStr i) (persisted r) m)"
    using assms(1) p set_map_set [of "JStr i" "persisted r" m]
    by (auto simp: settled_map_def list_all_iff)
  show "list_all (\<lambda>(k, r). persistable r) (map_set (JStr i) r (revived z now m))"
    using p(2) revived_persisted(2) [OF assms(1)] set_map_set [of "JStr i" r "revived z now m"]
    by (auto simp: list_all_iff)
qed

interpretation br: route_repo "BrowserLocalStorageRouteRepository z now key" "br_view z now key" "br_inv z now key"
  "br_norm z now" "br_storable z now" for z now key
proof
  fix s :: storage and i v r
  assume s: "br_inv z now key s"
  let ?m = "br_entries key s"
  have m: "settled_map z now ?m" using s by (simp add: br_inv_entries)
  note read = br_read_stored [OF s] and view = br_view_entries [OF s]
  note defs = BrowserLocalStorageRouteRepository_def br_findAll_def bind_def
  show find: "rr_findById (BrowserLocalStorageRouteRepository z now key) i s = (Inr (or_null (br_view z now key s i)), s)"
    using find_keyed [OF revived_keyed [OF m], of "JStr i"] by_id_revived [OF m]
    by (simp add: defs br_findById_def br_view_def read)
  show "is_obj v \<and> get v ''id'' = JStr i" if "br_view z now key s i = Some v"
  proof -
    from that view obtain p where "v = fromPersistedRoute z now p" "map_of ?m (JStr i) = Some p" by auto
    with m show ?thesis
      by (auto simp: settled_map_def list_all_iff settled_def fromPersisted_id dest!: map_of_SomeD)
  qed
  show "\<exists>s'. rr_save (BrowserLocalStorageRouteRepository z now key) r s = (Inr (), s') \<and> br_inv z now key s' \<and>
      br_view z now key s' = (br_view z now key s)(i \<mapsto> br_norm z now r)"
    if r: "br_storable z now r" "get r ''id'' = JStr i"
  proof -
    let ?m' = "map_set (JStr i) r (revived z now ?m)"
    have pm: "map (\<lambda>(k, r). (k, persisted r)) ?m' = map_set (JStr i) (persisted r) ?m"
      by (simp only: map_set_map revived_persisted(1) [OF m])
    have "\<exists>s'. br_write key (map snd ?m') s = (Inr (), s') \<and> br_entries key s' = map_set (JStr i) (persisted r) ?m \<and>
        br_inv z now key s'"
      using br_write_settled [of ?m' z now key s] br_saved_entries [OF m r] pm by simp
    then obtain s' where s': "br_write key (map snd ?m') s = (Inr (), s')"
      "br_entries key s' = map_set (JStr i) (persisted r) ?m" "br_inv z now key s'" by blast
    have "br_norm z now r = fromPersistedRoute z now (persisted r)"
      using r by (auto simp: br_norm_def persisted_def br_storable_def split: sum.splits)
    then have "br_view z now key s' = (br_view z now key s)(i \<mapsto> br_norm z now r)"
      by (auto simp: br_view_entries [OF s'(3)] view s'(2) fun_eq_iff)
    moreover have "rr_save (BrowserLocalStorageRouteRepository z now key) r s = (Inr (), s')"
      using s'(1) by (simp add: defs br_save_def read by_id_revived [OF m] r(2) del: map_map)
    ultimately show ?thesis using s'(3) by blast
  qed
  show "\<exists>s'. rr_delete (BrowserLocalStorageRouteRepository z now key) i s = (Inr (), s') \<and> br_inv z now key s' \<and>
      br_view z now key s' = (br_view z now key s)(i := None)"
  proof -
    let ?m' = "map_delete (JStr i) (revived z now ?m)"
    have pm: "map (\<lambda>(k, r). (k, persisted r)) ?m' = map_delete (JStr i) ?m"
      by (simp only: map_delete_map revived_persisted(1) [OF m])
    have "settled_map z now (map_delete (JStr i) ?m)" "list_all (\<lambda>(k, r). persistable r) ?m'"
      using m revived_persisted(2) [OF m] set_map_delete [of "JStr i" ?m] set_map_delete [of "JStr i" "revived z now ?m"]
      by (auto simp: settled_map_def list_all_iff)
    then obtain s' where s': "br_write key (map snd ?m') s = (Inr (), s')"
      "br_entries key s' = map_delete (JStr i) ?m" "br_inv z now key s'"
      using br_write_settled [of ?m' z now key s] pm by auto
    have "br_view z now key s' = (br_view z now key s)(i := None)"
      by (auto simp: br_view_entries [OF s'(3)] view s'(2) fun_eq_iff)
    moreover have "rr_delete (BrowserLocalStorageRouteRepository z now key) i s = (Inr (), s')"
      using s'(1) filter_keyed [OF revived_keyed [OF m], of "JStr i"]
      by (simp add: defs br_delete_def read del: map_map)
    ultimately show ?thesis using s'(3) by blast
  qed
  show "\<exists>ma. rr_loadAll (BrowserLocalStorageRouteRepository z now key) s = (Inr ma, s) \<and> map_wf ma \<and>
      (\<forall>i. map_of ma (JStr i) = br_view z now key s i)"
    by (simp add: defs br_loadAll_def br_view_def by_id_def)
  show "\<exists>rs. rr_findAll (BrowserLocalStorageRouteRepository z now key) s = (Inr rs, s) \<and> set rs = ran (br_view z now key s)"
  proof -
    have "map_wf (revived z now ?m)" "list_all (\<lambda>e. is_str (fst e)) (revived z now ?m)"
      using m by (auto simp: settled_map_def map_wf_def comp_def case_prod_unfold list_all_iff settled_def clean_id_def)
    then have "ran (br_view z now key s) = set (br_read z now key s)"
      unfolding br_view_def [abs_def] read by_id_revived [OF m]
      using values_ran [of "revived z now ?m"] by (simp add: image_image)
    then show ?thesis by (simp add: defs)
  qed
qed

subsection \<open>Dates in storage\<close>

lemma digit_not_word: "is_digit c \<Longrightarrow> \<not> word_char c"
  by (auto simp: word_char_def lower_char_def is_upper_def is_digit_def in_range_def code_of_def)

lemma iso_marks_not_word: "c \<in> set ''-+T:.Z'' \<Longrightarrow> \<not> word_char c"
proof -
  have "list_all (\<lambda>c. \<not> word_char c) ''-+T:.Z''" by code_simp
  then show "c \<in> set ''-+T:.Z'' \<Longrightarrow> \<not> word_char c" unfolding list_all_iff by blast
qed

lemma pad_digits: "c \<in> set (pad w n) \<Longrightarrow> is_digit c"
  using show_nat_digits by (auto simp: pad_def Let_def is_digit_def in_range_def code_of_def)

lemma to_iso_chars: "c \<in> set (to_iso t) \<Longrightarrow> is_digit c \<or> c \<in> set ''-+T:.Z''"
  using pad_digits by (auto simp: to_iso_def Let_def split: if_splits)

lemma redact_to_iso: "redactPotentialSecrets (to_iso t) = to_iso t"
  using to_iso_chars digit_not_word iso_marks_not_word by (intro redact_wordless) blast

lemma stored_date [simp]: "stored (JDate (Some t)) = JStr (to_iso t)" "stored (JStr (to_iso t)) = JStr (to_iso t)"
  by (simp_all add: stored_def redact_to_iso)

lemma metadata_names_not_sensitive:
  "\<not> isSensitiveFieldName ''metadata''" "\<not> isSensitiveFieldName ''createdAt''" "\<not> isSensitiveFieldName ''updatedAt''"
  by code_simp+

definition stored_props :: "props \<Rightarrow> props" where
  "stored_props ps = props_of (stored (JObj ps))"

lemma stored_JObj: "stored (JObj ps) = JObj (stored_props ps)"
  by (simp add: stored_props_def stored_def)

lemma stored_props_append: "stored_props (ps @ qs) = stored_props ps @ stored_props qs"
  by (simp add: stored_props_def stored_def)

lemma sanitize_JUndef_iff: "sanitizeForJson v = JUndef \<longleftrightarrow> v = JUndef"
  by (cases v) auto

lemma stored_props_Cons:
  "stored_props ((k, v) # ps) =
     (if isSensitiveFieldName k \<or> v = JUndef then stored_props ps else (k, stored v) # stored_props ps)"
  by (simp add: stored_props_def stored_def sanitize_JUndef_iff)

lemma stored_props_Nil [simp]: "stored_props [] = []"
  by (simp add: stored_props_def stored_def)

text \<open>A route as the use cases build it: its own fields, then the metadata with the two dates first.\<close>

definition dated_route :: "props \<Rightarrow> js \<Rightarrow> js \<Rightarrow> props \<Rightarrow> js" where
  "dated_route ps c u mps = JObj (ps @ [(''metadata'', JObj ((''createdAt'', c) # (''updatedAt'', u) # mps))])"

definition clean_props :: "props \<Rightarrow> bool" where
  "clean_props ps \<longleftrightarrow> stored_props ps = ps"

lemma map_set_append: "k \<notin> fst ` set ps \<Longrightarrow> map_set k v (ps @ (k, w) # qs) = ps @ (k, v) # qs"
  by (induction ps) (auto simp: map_set_def)

lemma pget_append: "k \<notin> fst ` set ps \<Longrightarrow> pget (ps @ qs) k = pget qs k"
  by (induction ps) auto

lemma pget_append_old: "k \<in> fst ` set ps \<Longrightarrow> pget (ps @ qs) k = pget ps k"
  by (induction ps) force+

lemma to_iso_not_Nil [simp]: "to_iso t \<noteq> []"
  by (simp add: to_iso_def Let_def)

lemma toPersisted_dated:
  assumes fresh: "''metadata'' \<notin> fst ` set ps"
  shows "toPersistedRoute (dated_route ps (JDate (Some t)) (JDate (Some u)) mps) =
     Inr (dated_route ps (JStr (to_iso t)) (JStr (to_iso u)) mps)"
  using fresh
  by (simp add: dated_route_def toPersistedRoute_def Let_def pget_append map_set_append map_set_Cons)

lemma fromPersisted_dated:
  assumes fresh: "''metadata'' \<notin> fst ` set ps"
    and "dateParse z (to_iso t) = Some t" and "dateParse z (to_iso u) = Some u"
  shows "fromPersistedRoute z now (dated_route ps (JStr (to_iso t)) (JStr (to_iso u)) mps) =
     dated_route ps (JDate (Some t)) (JDate (Some u)) mps"
  using fresh assms
  by (simp add: dated_route_def fromPersistedRoute_def Let_def pget_append map_set_append map_set_Cons
      date_or_now_def)

lemma stored_dated:
  assumes "clean_props ps" and "clean_props mps" and "c \<noteq> JUndef" and "u \<noteq> JUndef"
  shows "stored (dated_route ps c u mps) = dated_route ps (stored c) (stored u) mps"
  using assms metadata_names_not_sensitive
  by (simp add: dated_route_def stored_JObj stored_props_append stored_props_Cons clean_props_def)

lemma dated_fields:
  assumes "''metadata'' \<notin> fst ` set ps"
  shows "is_obj (dated_route ps c u mps)"
    and "get (get (dated_route ps c u mps) ''metadata'') ''createdAt'' = c"
    and "k \<in> fst ` set ps \<Longrightarrow> get (dated_route ps c u mps) k = pget ps k"
  using assms
  by (simp_all add: dated_route_def pget_append pget_append_old)

subsection \<open>Properties\<close>

text \<open>
  C7: \<open>LocalStorageRouteRepository\<close> behaves like a map from ids to routes. From a store in which
  every entry is keyed by the id of its route, saving a route succeeds, keeps that invariant, makes
  \<open>findById\<close> return the stored form of the route and leaves every other id as it was; deleting an id
  makes \<open>findById\<close> return null for it and leaves every other id as it was.
\<close>

theorem local_storage_repository_map:
  assumes "ls_inv s" and "ls_storable r" and "get r ''id'' = JStr i"
  shows "(\<exists>s'. ls_save r s = (Inr (), s') \<and> ls_inv s' \<and> ls_findById i s' = (Inr (stored r), s') \<and>
            (j \<noteq> i \<longrightarrow> ls_findById j s' = (Inr (or_null (ls_view s j)), s'))) \<and>
         (\<exists>s'. ls_delete i s = (Inr (), s') \<and> ls_inv s' \<and> ls_findById i s' = (Inr JNull, s') \<and>
            (j \<noteq> i \<longrightarrow> ls_findById j s' = (Inr (or_null (ls_view s j)), s')))"
  using ls.find_after_save [OF assms] ls.find_after_delete [OF assms(1)]
  by (simp add: LocalStorageRouteRepository_def)

definition small_route :: js where
  "small_route = JObj [(''id'', JStr ''r1''), (''port'', jint 80)]"

lemma stored_plain: "list_all plain_char s \<Longrightarrow> stored (JStr s) = JStr s"
  by (simp add: stored_def redact_plain)

lemma small_route_clean: "clean_props (props_of small_route)" "redactPotentialSecrets ''r1'' = ''r1''"
proof -
  have "\<not> isSensitiveFieldName ''port''" by code_simp
  moreover have "list_all plain_char ''r1''" by code_simp
  ultimately show "clean_props (props_of small_route)" "redactPotentialSecrets ''r1'' = ''r1''"
    by (simp_all add: small_route_def clean_props_def stored_props_Cons id_not_sensitive stored_plain redact_plain)
      (simp add: stored_def jint_def)
qed

lemma small_route_storable: "ls_storable small_route" "get small_route ''id'' = JStr ''r1''" "ls_inv Map.empty"
  using small_route_clean
  by (simp_all add: small_route_def ls_storable_def stored_JObj clean_props_def clean_id_def ls_inv_def ls_read_def getItem_def)

theorem local_storage_repository_map_witness:
  "\<exists>s'. ls_save small_route Map.empty = (Inr (), s') \<and> ls_findById ''r1'' s' = (Inr (stored small_route), s')"
  using local_storage_repository_map [OF small_route_storable(3, 1, 2)] by blast

lemma dated_storable:
  assumes "clean_props ps" and "clean_props mps"
    and "''metadata'' \<notin> fst ` set ps" and "pget ps ''id'' = JStr i" and "redactPotentialSecrets i = i"
    and "dateParse z (to_iso t) = Some t" and "dateParse z (to_iso u) = Some u"
  shows "br_storable z now (dated_route ps (JDate (Some t)) (JDate (Some u)) mps)"
    and "br_norm z now (dated_route ps (JDate (Some t)) (JDate (Some u)) mps) =
      dated_route ps (JDate (Some t)) (JDate (Some u)) mps"
    and "get (dated_route ps (JDate (Some t)) (JDate (Some u)) mps) ''id'' = JStr i"
proof -
  let ?r = "dated_route ps (JDate (Some t)) (JDate (Some u)) mps"
    and ?q = "dated_route ps (JStr (to_iso t)) (JStr (to_iso u)) mps"
  note to = toPersisted_dated [OF assms(3)] and revive = fromPersisted_dated [OF assms(3, 6, 7)]
  have "''id'' \<in> fst ` set ps" using pget_in_set [of ps "''id''"] assms(4) by force
  note id = dated_fields(3) [OF assms(3) this, unfolded assms(4)]
  have q: "stored ?q = ?q" using stored_dated [OF assms(1, 2)] by simp
  have "settled z now ?q"
    using dated_fields(1) [OF assms(3)] by (simp add: settled_def revive to q id clean_id_def assms(5))
  then show "br_storable z now ?r"
    using dated_fields(1) [OF assms(3)] by (simp add: br_storable_def to q id clean_id_def assms(5))
  show "br_norm z now ?r = ?r" by (simp add: br_norm_def to q revive)
  show "get ?r ''id'' = JStr i" by (rule id)
qed


definition small_metadata :: props where
  "small_metadata = [(''createdBy'', JStr ''system''), (''tags'', JArr [])]"

lemma small_metadata_clean: "clean_props small_metadata"
proof -
  have "\<not> isSensitiveFieldName ''createdBy''" "\<not> isSensitiveFieldName ''tags''" by code_simp+
  moreover have "list_all plain_char ''system''" by code_simp
  ultimately show ?thesis
    by (simp add: small_metadata_def clean_props_def stored_props_Cons stored_plain) (simp add: stored_def)
qed


text \<open>
  \<open>LocalStorageRouteRepository\<close> does not revive dates: a route saved with a creation date comes
  back with the ISO text of that date in its place, although the interface promises a \<open>Date\<close>.
\<close>

theorem local_storage_dates_become_text:
  assumes "ls_inv s" and "clean_props ps" and "clean_props mps"
    and "''metadata'' \<notin> fst ` set ps" and "pget ps ''id'' = JStr i" and "redactPotentialSecrets i = i"
  shows "\<exists>s' r. ls_save (dated_route ps (JDate (Some t)) (JDate (Some u)) mps) s = (Inr (), s') \<and>
    ls_findById i s' = (Inr r, s') \<and> get (get r ''metadata'') ''createdAt'' = JStr (to_iso t)"
proof -
  let ?r = "dated_route ps (JDate (Some t)) (JDate (Some u)) mps"
  have "''id'' \<in> fst ` set ps" using pget_in_set [of ps "''id''"] assms(5) by force
  note id = dated_fields(3) [OF assms(4) this, unfolded assms(5)]
  have st: "stored ?r = dated_route ps (JStr (to_iso t)) (JStr (to_iso u)) mps"
    "stored (stored ?r) = stored ?r"
    using stored_dated [OF assms(2, 3)] by simp_all
  then have "ls_storable ?r"
    using dated_fields(1) [OF assms(4)] by (simp add: ls_storable_def id clean_id_def assms(6))
  from ls.find_after_save [OF assms(1) this id, of i] show ?thesis
    unfolding st using dated_fields(2) [OF assms(4)] by (auto simp: LocalStorageRouteRepository_def)
qed

theorem local_storage_dates_become_text_witness:
  "\<exists>s' r. ls_save (dated_route (props_of small_route) (JDate (Some 0)) (JDate (Some 1)) small_metadata) Map.empty = (Inr (), s') \<and>
     ls_findById ''r1'' s' = (Inr r, s') \<and> get (get r ''metadata'') ''createdAt'' = JStr (to_iso 0)"
proof -
  note c = small_route_clean(1) small_metadata_clean
  have f: "''metadata'' \<notin> fst ` set (props_of small_route)" "pget (props_of small_route) ''id'' = JStr ''r1''"
    by (simp_all add: small_route_def)
  note i = small_route_clean(2)
  show ?thesis
    by (rule local_storage_dates_become_text [OF small_route_storable(3) c f i])
qed

end
