(* ===== verification/Logs_Server.thy ===== *)
theory Logs_Server
  imports Route_Repository
begin

text \<open>
  Logs, server status and the sidebar: the use cases of \<open>packages/core/src/useCases/logs.ts\<close> and
  \<open>server.ts\<close>, the integration service, and the client stores \<open>logsSlice\<close>, \<open>serverSlice\<close> and
  \<open>uiSidebarSlice\<close> of \<open>packages/shared/src/store/slices\<close>. The state of a store is a record; an action
  is a function on it, \<open>set\<close> being a record update.
\<close>

subsection \<open>\<open>LogUseCases\<close>\<close>

definition getTime :: "js \<Rightarrow> js_error + jsnum" where
  "getTime v = (case v of JDate (Some t) \<Rightarrow> Inr (Fin (of_int t)) | JDate None \<Rightarrow> Inr NaN | _ \<Rightarrow> Inl type_error)"

text \<open>\<open>a < b\<close> on numbers; every comparison with \<open>NaN\<close> is false.\<close>

fun num_less :: "jsnum \<Rightarrow> jsnum \<Rightarrow> bool" where
  "num_less (Fin x) (Fin y) = (x < y)"
| "num_less NegInf b = (b \<noteq> NaN \<and> b \<noteq> NegInf)"
| "num_less a PosInf = (a \<noteq> NaN \<and> a \<noteq> PosInf)"
| "num_less _ _ = False"

definition in_date_range :: "js \<Rightarrow> js \<Rightarrow> js_error + bool" where
  "in_date_range rng entry =
     (case getTime (get entry ''timestamp'') of
        Inl e \<Rightarrow> Inl e
      | Inr logTime \<Rightarrow>
          (case getTime (get rng ''start'') of
             Inl e \<Rightarrow> Inl e
           | Inr startTime \<Rightarrow>
               (case getTime (get rng ''end'') of
                  Inl e \<Rightarrow> Inl e
                | Inr endTime \<Rightarrow> Inr (\<not> (num_less logTime startTime \<or> num_less endTime logTime)))))"

definition keep_log :: "js \<Rightarrow> js \<Rightarrow> js_error + bool" where
  "keep_log filters entry =
     (if truthy (get filters ''level'') \<and> get filters ''level'' \<noteq> JStr ''all'' \<and>
         get entry ''level'' \<noteq> get filters ''level'' then Inr False
      else if truthy (get filters ''source'') \<and> get entry ''source'' \<noteq> get filters ''source'' then Inr False
      else if truthy (get filters ''routeId'') \<and> get entry ''routeId'' \<noteq> get filters ''routeId'' then Inr False
      else if truthy (get filters ''search'') \<and> \<not> is_str (get entry ''message'') then Inl type_error
      else if truthy (get filters ''search'') \<and>
         \<not> str_includes (to_lower (str_of (get entry ''message''))) (to_lower (str_of (get filters ''search''))) then Inr False
      else if truthy (get filters ''dateRange'') then in_date_range (get filters ''dateRange'') entry
      else Inr True)"

fun filterLogs :: "js list \<Rightarrow> js \<Rightarrow> js_error + js list" where
  "filterLogs [] filters = Inr []"
| "filterLogs (entry # ls) filters =
     (case keep_log filters entry of
        Inl e \<Rightarrow> Inl e
      | Inr keep \<Rightarrow>
          (case filterLogs ls filters of
             Inl e \<Rightarrow> Inl e
           | Inr rest \<Rightarrow> Inr (if keep then entry # rest else rest)))"

definition createLogEntry :: "int \<Rightarrow> string \<Rightarrow> js \<Rightarrow> js" where
  "createLogEntry now rnd logData =
     JObj (spread (own_props logData) [(''id'', JStr (''log_'' @ show_int now @ ''_'' @ rnd))])"

subsection \<open>The logs store\<close>

record logs_state =
  logs :: "js list"
  filters :: js
  logs_isLoading :: bool
  isLive :: bool

definition LOG_KEY_PATTERN :: re where
  "LOG_KEY_PATTERN = Cap 1 (alts
     [ilit ''token'', ilit ''secret'', ilit ''password'', ilit ''passphrase'', ilit ''private'', ilit ''auth'',
      ilit ''credential'', ilit ''key'', ilit ''jwt'', ilit ''session''])"

definition sanitize_context_value :: "string \<Rightarrow> js \<Rightarrow> js" where
  "sanitize_context_value k v =
     (if test LOG_KEY_PATTERN k then JStr ''[redacted]''
      else case v of JStr s \<Rightarrow> JStr (redactPotentialSecrets s) | _ \<Rightarrow> v)"

definition sanitizeLogContext :: "js \<Rightarrow> js" where
  "sanitizeLogContext context =
     (if \<not> truthy context then JUndef
      else JObj (map (\<lambda>(k, v). (k, sanitize_context_value k v)) (own_props context)))"

definition sanitizeLog :: "js \<Rightarrow> js" where
  "sanitizeLog entry =
     JObj (spread (own_props entry)
       [(''message'', JStr (redactPotentialSecrets (str_of (get entry ''message'')))),
        (''context'', sanitizeLogContext (get entry ''context''))])"

definition initial_logs :: logs_state where
  "initial_logs = \<lparr>logs = [],
     filters = JObj [(''level'', JStr ''all''), (''search'', JStr []), (''source'', JUndef), (''dateRange'', JUndef),
                     (''routeId'', JUndef)],
     logs_isLoading = False, isLive = False\<rparr>"

definition addLog :: "int \<Rightarrow> string \<Rightarrow> js \<Rightarrow> logs_state \<Rightarrow> logs_state" where
  "addLog now rnd entry st = st\<lparr>logs := logs st @ [createLogEntry now rnd (sanitizeLog entry)]\<rparr>"

definition clearLogs :: "logs_state \<Rightarrow> logs_state" where
  "clearLogs st = st\<lparr>logs := []\<rparr>"

definition setFilter :: "js \<Rightarrow> logs_state \<Rightarrow> logs_state" where
  "setFilter newFilters st = st\<lparr>filters := JObj (spread (own_props (filters st)) (own_props newFilters))\<rparr>"

text \<open>Reading a stored entry throws for \<open>null\<close> and for an entry whose message is not a string.\<close>

definition load_log :: "js \<Rightarrow> js_error + js" where
  "load_log entry =
     (case get entry ''message'' of
        JStr m \<Rightarrow>
          Inr (JObj (spread (own_props entry)
            [(''message'', JStr (redactPotentialSecrets m)), (''context'', sanitizeLogContext (get entry ''context''))]))
      | _ \<Rightarrow> Inl type_error)"

definition loadLogs :: "storage \<Rightarrow> logs_state \<Rightarrow> logs_state" where
  "loadLogs s st0 =
     (let st = st0\<lparr>logs_isLoading := True\<rparr> in
      case getItem ''nginx_logs'' s of
        None \<Rightarrow> st
      | Some EmptyText \<Rightarrow> st
      | Some savedLogs \<Rightarrow>
          (case json_parse savedLogs of
             Some (JArr ls) \<Rightarrow>
               (case sequence (map load_log ls) of
                  Inr xs \<Rightarrow> st\<lparr>logs := xs, logs_isLoading := False\<rparr>
                | Inl _ \<Rightarrow> st\<lparr>logs_isLoading := False\<rparr>)
           | _ \<Rightarrow> st\<lparr>logs_isLoading := False\<rparr>))"

definition startLive :: "logs_state \<Rightarrow> logs_state" where
  "startLive st = st\<lparr>isLive := True\<rparr>"

definition stopLive :: "logs_state \<Rightarrow> logs_state" where
  "stopLive st = st\<lparr>isLive := False\<rparr>"

subsection \<open>The server store\<close>

record server_state =
  status :: string
  stats :: js
  version :: string
  lastUpdated :: int

definition usecase_toggleStatus :: "string \<Rightarrow> string option \<Rightarrow> string" where
  "usecase_toggleStatus currentStatus newStatus =
     (case newStatus of
        Some s \<Rightarrow> if s \<noteq> [] then s else if currentStatus = ''running'' then ''stopped'' else ''running''
      | None \<Rightarrow> if currentStatus = ''running'' then ''stopped'' else ''running'')"

definition usecase_updateStats :: "js \<Rightarrow> js \<Rightarrow> js" where
  "usecase_updateStats currentStats newStats = JObj (spread (own_props currentStats) (own_props newStats))"

definition initial_server :: "int \<Rightarrow> server_state" where
  "initial_server now = \<lparr>status = ''stopped'',
     stats = JObj [(''requests'', jint 0), (''traffic'', JStr ''0B''), (''activeConnections'', jint 0),
                   (''uptime'', jint 0), (''cpuUsage'', jint 0), (''memoryUsage'', jint 0)],
     version = [], lastUpdated = now\<rparr>"

definition toggleStatus :: "string option \<Rightarrow> server_state \<Rightarrow> server_state" where
  "toggleStatus s st = st\<lparr>status := usecase_toggleStatus (status st) s\<rparr>"

definition updateStats :: "int \<Rightarrow> js \<Rightarrow> server_state \<Rightarrow> server_state" where
  "updateStats now newStats st = st\<lparr>stats := usecase_updateStats (stats st) newStats, lastUpdated := now\<rparr>"

definition updateServerInfo :: "int \<Rightarrow> string \<Rightarrow> server_state \<Rightarrow> server_state" where
  "updateServerInfo now v st = st\<lparr>version := v, lastUpdated := now\<rparr>"

subsection \<open>\<open>IntegrationService\<close> and the subscription to the server store\<close>

definition handleServerStatusChange :: "int \<Rightarrow> string \<Rightarrow> string \<Rightarrow> js option" where
  "handleServerStatusChange now currentStatus previousStatus =
     (if currentStatus \<noteq> previousStatus
      then Some (JObj [(''timestamp'', JDate (Some now)), (''level'', JStr ''info''),
                       (''message'', JStr (''Server '' @ currentStatus)), (''source'', JStr ''system'')])
      else None)"

definition handleRouteSelectionChange :: "string option \<Rightarrow> string option \<Rightarrow> routes_map \<Rightarrow> js option" where
  "handleRouteSelectionChange currentRouteId previousRouteId routes =
     (if currentRouteId \<noteq> previousRouteId
      then (case currentRouteId of
              Some i \<Rightarrow>
                if i \<noteq> [] then (case map_of routes (JStr i) of Some r \<Rightarrow> if truthy r then Some r else None | None \<Rightarrow> None)
                else None
            | None \<Rightarrow> None)
      else None)"

definition on_server_change :: "int \<Rightarrow> int \<Rightarrow> string \<Rightarrow> server_state \<Rightarrow> server_state \<Rightarrow> logs_state \<Rightarrow> logs_state" where
  "on_server_change now stamp rnd state prevState ls =
     (case handleServerStatusChange now (status state) (status prevState) of
        Some logEntry \<Rightarrow> addLog stamp rnd logEntry ls
      | None \<Rightarrow> ls)"

subsection \<open>The sidebar store\<close>

record sidebar_state =
  isSidebarOpen :: bool
  sidebarWidth :: jsnum
  isResizing :: bool

text \<open>\<open>Math.min\<close> and \<open>Math.max\<close>: \<open>NaN\<close> if an argument is.\<close>

definition math_min :: "jsnum \<Rightarrow> jsnum \<Rightarrow> jsnum" where
  "math_min a b = (if a = NaN \<or> b = NaN then NaN else if num_less b a then b else a)"

definition math_max :: "jsnum \<Rightarrow> jsnum \<Rightarrow> jsnum" where
  "math_max a b = (if a = NaN \<or> b = NaN then NaN else if num_less a b then b else a)"

definition initial_sidebar :: sidebar_state where
  "initial_sidebar = \<lparr>isSidebarOpen = True, sidebarWidth = Fin 300, isResizing = False\<rparr>"

definition toggleSidebar :: "sidebar_state \<Rightarrow> sidebar_state" where
  "toggleSidebar st = st\<lparr>isSidebarOpen := \<not> isSidebarOpen st\<rparr>"

definition setSidebarWidth :: "jsnum \<Rightarrow> sidebar_state \<Rightarrow> sidebar_state" where
  "setSidebarWidth width st = st\<lparr>sidebarWidth := math_max (Fin 200) (math_min (Fin 500) width)\<rparr>"

definition startResizing :: "sidebar_state \<Rightarrow> sidebar_state" where
  "startResizing st = st\<lparr>isResizing := True\<rparr>"

definition stopResizing :: "sidebar_state \<Rightarrow> sidebar_state" where
  "stopResizing st = st\<lparr>isResizing := False\<rparr>"

subsection \<open>Lemmas\<close>

definition in_range_of :: "js \<Rightarrow> js \<Rightarrow> bool" where
  "in_range_of rng t =
     (case (get rng ''start'', t, get rng ''end'') of
        (JDate (Some a), JDate (Some x), JDate (Some b)) \<Rightarrow> a \<le> x \<and> x \<le> b | _ \<Rightarrow> True)"

text \<open>What each filter asks of an entry; \<open>undefined\<close> and the empty string ask nothing.\<close>

definition shows_log :: "js \<Rightarrow> js \<Rightarrow> bool" where
  "shows_log f entry \<longleftrightarrow>
     get f ''level'' \<in> {JUndef, JStr ''all'', get entry ''level''} \<and>
     get f ''source'' \<in> {JUndef, get entry ''source''} \<and>
     get f ''routeId'' \<in> {JUndef, JStr [], get entry ''routeId''} \<and>
     sublist (to_lower (str_of (get f ''search''))) (to_lower (str_of (get entry ''message''))) \<and>
     (get f ''dateRange'' = JUndef \<or> in_range_of (get f ''dateRange'') (get entry ''timestamp''))"

definition log_wf :: "js \<Rightarrow> bool" where
  "log_wf entry \<longleftrightarrow> is_str (get entry ''message'') \<and> (\<exists>t. get entry ''timestamp'' = JDate (Some t))"

text \<open>The filters the schema allows: enumerated words, strings, and a range of valid dates.\<close>

definition filters_wf :: "js \<Rightarrow> bool" where
  "filters_wf f \<longleftrightarrow>
     (get f ''level'' = JUndef \<or> is_str (get f ''level'') \<and> truthy (get f ''level'')) \<and>
     (get f ''source'' = JUndef \<or> is_str (get f ''source'') \<and> truthy (get f ''source'')) \<and>
     opt_str (get f ''routeId'') \<and> is_str (get f ''search'') \<and>
     (get f ''dateRange'' = JUndef \<or>
       (\<exists>r a b. get f ''dateRange'' = JObj r \<and> pget r ''start'' = JDate (Some a) \<and> pget r ''end'' = JDate (Some b)))"

lemma keep_log_wf:
  assumes "filters_wf f" and "log_wf entry"
  shows "keep_log f entry = Inr (shows_log f entry)"
proof -
  from assms obtain m t where l: "get entry ''message'' = JStr m" "get entry ''timestamp'' = JDate (Some t)"
    by (auto simp: log_wf_def is_str_iff)
  from assms(1) obtain w where w: "get f ''search'' = JStr w" by (auto simp: filters_wf_def is_str_iff)
  have lv: "truthy (get f ''level'') \<and> get f ''level'' \<noteq> JStr ''all'' \<and> get entry ''level'' \<noteq> get f ''level'' \<longleftrightarrow>
      get f ''level'' \<notin> {JUndef, JStr ''all'', get entry ''level''}"
    using assms(1) unfolding filters_wf_def by (cases "get f ''level'' = JUndef") auto
  have so: "truthy (get f ''source'') \<and> get entry ''source'' \<noteq> get f ''source'' \<longleftrightarrow>
      get f ''source'' \<notin> {JUndef, get entry ''source''}"
    using assms(1) unfolding filters_wf_def by (cases "get f ''source'' = JUndef") auto
  have ro: "truthy (get f ''routeId'') \<and> get entry ''routeId'' \<noteq> get f ''routeId'' \<longleftrightarrow>
      get f ''routeId'' \<notin> {JUndef, JStr [], get entry ''routeId''}"
    using assms(1) unfolding filters_wf_def opt_str_def is_str_iff by (cases "get f ''routeId'' = JUndef") auto
  have da: "(if truthy (get f ''dateRange'') then in_date_range (get f ''dateRange'') entry else Inr True) =
      Inr (get f ''dateRange'' = JUndef \<or> in_range_of (get f ''dateRange'') (get entry ''timestamp''))"
    using assms(1) l(2) by (auto simp: filters_wf_def in_date_range_def getTime_def in_range_of_def)
  have se: "w \<noteq> [] \<and> \<not> str_includes (to_lower m) (to_lower w) \<longleftrightarrow> \<not> sublist (to_lower w) (to_lower m)"
    by (cases w) (auto simp: str_includes_sublist to_lower_def)
  show ?thesis
    unfolding keep_log_def lv so ro da shows_log_def w l(1) using se by simp
qed

lemma filterLogs_wf:
  "filters_wf f \<Longrightarrow> list_all log_wf ls \<Longrightarrow> filterLogs ls f = Inr (filter (shows_log f) ls)"
  by (induction ls) (auto simp: keep_log_wf)

definition log_words :: "string list" where
  "log_words = [''token'', ''secret'', ''password'', ''passphrase'', ''private'', ''auth'', ''credential'', ''key'',
     ''jwt'', ''session'']"

lemma log_key_iff: "test LOG_KEY_PATTERN k \<longleftrightarrow> list_ex (str_includes (to_lower k)) log_words"
proof -
  have "matches LOG_KEY_PATTERN p w v \<longleftrightarrow> to_lower w \<in> set log_words" for p w v
    by (simp add: LOG_KEY_PATTERN_def log_words_def)
  then show ?thesis
    by (auto simp: test_iff list_ex_iff str_includes_to_lower)
qed

lemma added_entry:
  "logs (addLog now rnd e st) = logs st @ [createLogEntry now rnd (sanitizeLog e)]"
  "get (createLogEntry now rnd (sanitizeLog e)) ''message'' = JStr (redactPotentialSecrets (str_of (get e ''message'')))"
  "get (createLogEntry now rnd (sanitizeLog e)) ''context'' = sanitizeLogContext (get e ''context'')"
  by (simp_all add: addLog_def createLogEntry_def sanitizeLog_def)

lemma pget_context: "pget (map (\<lambda>(k, v). (k, f k v)) ps) k = (case map_of ps k of Some v \<Rightarrow> f k v | None \<Rightarrow> JUndef)"
  by (induction ps) (auto simp: pget_def)

subsection \<open>Properties\<close>

text \<open>
  C27: filtering logs. For entries with a message and a valid timestamp and for filters of the form
  the schema allows, \<open>filterLogs\<close> returns, in their order, exactly the entries that have the
  requested level (or none or \<open>all\<close> was requested), source and route, whose message contains the
  search text up to case, and whose time lies in the range, bounds included.
\<close>

theorem filterLogs_spec:
  assumes "filters_wf f" and "list_all log_wf ls"
  shows "filterLogs ls f = Inr (filter (shows_log f) ls)"
  using assms by (rule filterLogs_wf)

definition sample_log :: js where
  "sample_log = JObj [(''timestamp'', JDate (Some 5)), (''level'', JStr ''info''), (''message'', JStr ''Started''),
     (''source'', JStr ''system'')]"

definition sample_filters :: js where
  "sample_filters = JObj [(''level'', JStr ''all''), (''search'', JStr ''star''), (''dateRange'',
     JObj [(''start'', JDate (Some 5)), (''end'', JDate (Some 9))])]"

theorem filterLogs_spec_witness: "filterLogs [sample_log] sample_filters = Inr [sample_log]"
proof -
  have w: "filters_wf sample_filters" "list_all log_wf [sample_log]"
    by (auto simp: filters_wf_def sample_filters_def log_wf_def sample_log_def opt_str_def)
  have "shows_log sample_filters sample_log" by code_simp
  then show ?thesis using filterLogs_spec [OF w] by (simp del: filterLogs.simps)
qed

text \<open>
  Entries read back from storage do not have dates: \<open>loadLogs\<close> keeps the text of the timestamp,
  and filtering such an entry by a date range throws as soon as the other filters let it through.
\<close>

theorem stored_logs_break_date_filter:
  "filterLogs (map (\<lambda>m. projr (load_log (JObj [(''timestamp'', JStr t), (''message'', JStr m)]))) (m # rest))
     (JObj [(''search'', JStr []), (''dateRange'', JObj rng)]) = Inl type_error"
  by (simp add: load_log_def keep_log_def in_date_range_def getTime_def)

text \<open>
  After \<open>loadLogs\<close> the store still says it is loading exactly when nothing was stored: the
  branch for a missing or empty text never resets the flag.
\<close>

theorem loadLogs_loading_flag:
  "logs_isLoading (loadLogs s st) \<longleftrightarrow> s ''nginx_logs'' = None \<or> s ''nginx_logs'' = Some EmptyText"
  by (auto simp: loadLogs_def getItem_def Let_def split: option.splits json_text.splits js.splits sum.splits)



text \<open>
  Toggling the server status is logged exactly once: the subscription appends one entry that
  names the new status, and an update that leaves the status alone appends nothing.
\<close>

theorem status_change_logged:
  "(\<exists>e. logs (on_server_change now stamp rnd (toggleStatus None st) st ls) = logs ls @ [e] \<and>
      get e ''message'' = JStr (''Server '' @ status (toggleStatus None st)) \<and> get e ''level'' = JStr ''info'') \<and>
   on_server_change now stamp rnd (updateStats t x st) st ls = ls"
proof -
  have r: "redactPotentialSecrets ''Server running'' = ''Server running''"
    "redactPotentialSecrets ''Server stopped'' = ''Server stopped''"
    by (rule redact_prose, code_simp)+
  have s: "status (toggleStatus None st) = ''running'' \<and> status st \<noteq> ''running'' \<or>
      status (toggleStatus None st) = ''stopped'' \<and> status st = ''running''"
    by (simp add: toggleStatus_def usecase_toggleStatus_def)
  then have "handleServerStatusChange now (status (toggleStatus None st)) (status st) \<noteq> None"
    by (auto simp: handleServerStatusChange_def)
  with s r show ?thesis
    by (auto simp: on_server_change_def handleServerStatusChange_def addLog_def createLogEntry_def sanitizeLog_def updateStats_def
        split: option.splits)
qed

text \<open>
  Whatever width a drag asks for, the sidebar ends up between 200 and 500 pixels wide, with the
  requested width when it lies between them; only \<open>NaN\<close> gets through.
\<close>

theorem setSidebarWidth_bounds:
  "sidebarWidth (setSidebarWidth w st) =
     (case w of NaN \<Rightarrow> NaN | PosInf \<Rightarrow> Fin 500 | NegInf \<Rightarrow> Fin 200 | Fin x \<Rightarrow> Fin (max 200 (min 500 x)))"
  by (auto simp: setSidebarWidth_def math_max_def math_min_def split: jsnum.splits)

end
