(* ===== verification/Routes_Process.thy ===== *)
theory Routes_Process
  imports Logs_Server
begin

text \<open>
  The command side of routes: the gateway over a remote executor
  (\<open>packages/infra/src/repositories/CommandRouteGateway.ts\<close>), its executors (in memory, over
  \<open>localStorage\<close>, over HTTP), the projection store of the renderers and the process of
  \<open>packages/app/src/processes/RoutesProcess.ts\<close> that drives them. The locale \<open>route_executor\<close> is
  the contract of an executor: an ordered collection of routes with distinct ids.
\<close>

subsection \<open>Commands\<close>

type_synonym 's executor = "string \<Rightarrow> js \<Rightarrow> ('s, js_error, js) io"

text \<open>\<open>x ?? d\<close>.\<close>

definition nullish :: "js \<Rightarrow> js \<Rightarrow> js" where
  "nullish v d = (if v = JUndef \<or> v = JNull then d else v)"

definition wants_disabled :: "js \<Rightarrow> bool" where
  "wants_disabled payload \<longleftrightarrow>
     (get payload ''includeDisabled'' = JUndef \<or> truthy (get payload ''includeDisabled''))"

text \<open>The route a draft becomes; \<open>uuid\<close> is \<open>crypto.randomUUID()\<close>.\<close>

definition draft_route :: "string \<Rightarrow> int \<Rightarrow> js \<Rightarrow> js" where
  "draft_route uuid now draft = JObj
     [(''id'', nullish (get draft ''id'') (JStr uuid)),
      (''host'', get draft ''host''),
      (''destination'', get draft ''destination''),
      (''enabled'', nullish (get draft ''enabled'') (JBool True)),
      (''updatedAt'', JStr (to_iso now))]"

definition toggled_route :: "int \<Rightarrow> js \<Rightarrow> js \<Rightarrow> js" where
  "toggled_route now current enabled =
     JObj (spread (own_props current) [(''enabled'', enabled), (''updatedAt'', JStr (to_iso now))])"

definition put_last :: "js \<Rightarrow> js list \<Rightarrow> js list" where
  "put_last route rs = filter (\<lambda>r. get r ''id'' \<noteq> get route ''id'') rs @ [route]"

definition replace_id :: "js \<Rightarrow> js \<Rightarrow> js list \<Rightarrow> js list" where
  "replace_id i route rs = map (\<lambda>r. if get r ''id'' = i then route else r) rs"

subsection \<open>\<open>MockExecutor\<close>\<close>

definition mock_execute :: "string \<Rightarrow> int \<Rightarrow> js list executor" where
  "mock_execute uuid now command payload rs =
     (if command = ''routes:list'' then
        (Inr (JObj [(''routes'', JArr (if wants_disabled payload then rs else filter (\<lambda>r. truthy (get r ''enabled'')) rs))]), rs)
      else if command = ''routes:save'' then
        (if get payload ''draft'' = JUndef \<or> get payload ''draft'' = JNull then (Inl type_error, rs)
         else let route = draft_route uuid now (get payload ''draft'')
              in (Inr (JObj [(''route'', route)]), put_last route rs))
      else if command = ''routes:toggle'' then
        (case find (\<lambda>r. get r ''id'' = get payload ''id'') rs of
           None \<Rightarrow> (Inl (Error (''Route '' @ js_to_string (get payload ''id'') @ '' not found'')), rs)
         | Some current \<Rightarrow>
             (let route = toggled_route now current (get payload ''enabled'')
              in (Inr (JObj [(''route'', route)]), replace_id (get payload ''id'') route rs)))
      else (Inl (Error (''Unsupported command: '' @ command)), rs))"

subsection \<open>\<open>LocalRouteExecutor\<close>\<close>

definition DESKTOP_ROUTES_KEY :: string where
  "DESKTOP_ROUTES_KEY = ''nginx_desktop_routes''"

definition local_loadRoutes :: "storage \<Rightarrow> js" where
  "local_loadRoutes s =
     (case getItem DESKTOP_ROUTES_KEY s of
        None \<Rightarrow> JArr []
      | Some EmptyText \<Rightarrow> JArr []
      | Some raw \<Rightarrow> (case json_parse raw of None \<Rightarrow> JArr [] | Some v \<Rightarrow> v))"

definition local_saveRoutes :: "js list \<Rightarrow> storage \<Rightarrow> storage" where
  "local_saveRoutes rs s = s(DESKTOP_ROUTES_KEY \<mapsto> stringifyWithoutSecrets (JArr rs))"

text \<open>
  A stored value that is no array has none of the methods, and \<open>null\<close> has no properties, so every
  command but an unfiltered list throws on them.
\<close>

definition local_execute :: "string \<Rightarrow> int \<Rightarrow> storage executor" where
  "local_execute uuid now command payload s =
     (case local_loadRoutes s of
        JArr rs \<Rightarrow>
          if command = ''routes:list'' then
            (if wants_disabled payload then (Inr (JObj [(''routes'', JArr rs)]), s)
             else if JNull \<in> set rs then (Inl type_error, s)
             else (Inr (JObj [(''routes'', JArr (filter (\<lambda>r. truthy (get r ''enabled'')) rs))]), s))
          else if command = ''routes:save'' then
            (if JNull \<in> set rs \<or> get payload ''draft'' = JUndef \<or> get payload ''draft'' = JNull then (Inl type_error, s)
             else let route = draft_route uuid now (get payload ''draft'')
                  in (Inr (JObj [(''route'', route)]), local_saveRoutes (put_last route rs) s))
          else if command = ''routes:toggle'' then
            (if JNull \<in> set rs then (Inl type_error, s)
             else case find (\<lambda>r. get r ''id'' = get payload ''id'') rs of
               None \<Rightarrow> (Inl (Error (''Route '' @ js_to_string (get payload ''id'') @ '' not found'')), s)
             | Some current \<Rightarrow>
                 (let route = toggled_route now current (get payload ''enabled'')
                  in (Inr (JObj [(''route'', route)]), local_saveRoutes (replace_id (get payload ''id'') route rs) s)))
          else (Inl (Error (''Unsupported command: '' @ command)), s)
      | v \<Rightarrow>
          if command = ''routes:list'' \<and> wants_disabled payload then (Inr (JObj [(''routes'', v)]), s)
          else if command = ''routes:list'' \<or> command = ''routes:save'' \<or> command = ''routes:toggle'' then (Inl type_error, s)
          else (Inl (Error (''Unsupported command: '' @ command)), s))"

subsection \<open>\<open>HttpExecutor\<close>\<close>

text \<open>
  What becomes of the \<open>fetch\<close> call: aborted (by the caller's signal or by the timer), failed, or
  answered, with the status and the parsed body (\<open>None\<close>: not JSON).
\<close>

datatype fetch_outcome =
    FetchAborted
  | FetchFailed js_error
  | FetchResponse bool nat "js option"

definition http_url :: "string \<Rightarrow> string" where
  "http_url baseUrl = baseUrl @ ''/remote/execute''"

definition http_execute ::
  "(string \<Rightarrow> js \<Rightarrow> fetch_outcome) \<Rightarrow> string \<Rightarrow> bool \<Rightarrow> string \<Rightarrow> js \<Rightarrow> js_error + js" where
  "http_execute fetch baseUrl aborted command payload =
     (if aborted then Inl (RemoteExecutionError ''Operation aborted'' ''ABORTED'')
      else case fetch (http_url baseUrl) (JObj [(''command'', JStr command), (''payload'', payload)]) of
        FetchAborted \<Rightarrow> Inl (RemoteExecutionError ''Operation aborted'' ''ABORTED'')
      | FetchFailed e \<Rightarrow> Inl e
      | FetchResponse isOk code body \<Rightarrow>
          if \<not> isOk then Inl (RemoteExecutionError (''HTTP '' @ show_nat code) ''HTTP_NON_OK'')
          else (case body of
              None \<Rightarrow> Inl (Error ''SyntaxError'')
            | Some result \<Rightarrow>
                if result = JNull then Inl type_error
                else if \<not> truthy (get result ''ok'') \<or> \<not> truthy (get result ''data'')
                then Inl (RemoteExecutionError
                       (js_to_string (nullish (get (get result ''error'') ''message'') (JStr ''Remote API failed'')))
                       (if get (get result ''error'') ''code'' = JUndef then ''REMOTE_EXECUTION_FAILED''
                        else js_to_string (get (get result ''error'') ''code'')))
                else Inr (get result ''data'')))"

subsection \<open>The gateway\<close>

record 's route_gateway =
  gw_list :: "js \<Rightarrow> ('s, js_error, js) io"
  gw_save :: "js \<Rightarrow> ('s, js_error, js) io"
  gw_toggle :: "js \<Rightarrow> ('s, js_error, js) io"

definition CommandRouteGateway :: "'s executor \<Rightarrow> 's route_gateway" where
  "CommandRouteGateway execute =
     \<lparr>gw_list = (\<lambda>input. bind (execute ''routes:list''
          (JObj [(''includeDisabled'', nullish (get input ''includeDisabled'') (JBool True))])) (\<lambda>r. ret (get r ''routes''))),
      gw_save = (\<lambda>input. bind (execute ''routes:save'' (JObj [(''draft'', input)])) (\<lambda>r. ret (get r ''route''))),
      gw_toggle = (\<lambda>input. bind (execute ''routes:toggle'' input) (\<lambda>r. ret (get r ''route'')))\<rparr>"

definition makeLoadRoutes :: "'s route_gateway \<Rightarrow> bool option \<Rightarrow> ('s, js_error, js) io" where
  "makeLoadRoutes repo includeDisabled =
     gw_list repo (JObj [(''includeDisabled'', JBool (case includeDisabled of None \<Rightarrow> True | Some b \<Rightarrow> b))])"

definition makeSaveRoute :: "'s route_gateway \<Rightarrow> js \<Rightarrow> ('s, js_error, js) io" where
  "makeSaveRoute repo draft = gw_save repo draft"

definition toggle_input :: "string \<Rightarrow> bool \<Rightarrow> js" where
  "toggle_input i enabled = JObj [(''id'', JStr i), (''enabled'', JBool enabled)]"

definition makeToggleRoute :: "'s route_gateway \<Rightarrow> string \<Rightarrow> bool \<Rightarrow> ('s, js_error, js) io" where
  "makeToggleRoute repo i enabled = gw_toggle repo (toggle_input i enabled)"

subsection \<open>The projection store\<close>

record projection =
  pending :: bool
  proj_error :: "string option"
  proj_routes :: "js list"

definition initial_projection :: projection where
  "initial_projection = \<lparr>pending = False, proj_error = None, proj_routes = []\<rparr>"

definition setPending :: "bool \<Rightarrow> projection \<Rightarrow> projection" where
  "setPending b p = p\<lparr>pending := b\<rparr>"

definition setError :: "string option \<Rightarrow> projection \<Rightarrow> projection" where
  "setError m p = p\<lparr>proj_error :=
     (case m of Some e \<Rightarrow> if e \<noteq> [] then Some (redactPotentialSecrets e) else None | None \<Rightarrow> None)\<rparr>"

definition replaceRoutes :: "js \<Rightarrow> projection \<Rightarrow> projection" where
  "replaceRoutes rs p = p\<lparr>proj_routes := elems_of (sanitizeForJson rs)\<rparr>"

definition upsertRoute :: "js \<Rightarrow> projection \<Rightarrow> projection" where
  "upsertRoute route p = p\<lparr>proj_routes :=
     (if list_ex (\<lambda>r. get r ''id'' = get route ''id'') (proj_routes p)
      then map (\<lambda>r. if get r ''id'' = get route ''id'' then sanitizeForJson route else r) (proj_routes p)
      else proj_routes p @ [sanitizeForJson route])\<rparr>"

subsection \<open>\<open>RoutesProcess\<close>\<close>

definition failure_message :: "js_error \<Rightarrow> string \<Rightarrow> string" where
  "failure_message e fallback = (if is_error e then err_message e else fallback)"

text \<open>The frame of the three operations: pending on, error cleared, the call, its effect or its error, pending off.\<close>

definition run_process ::
  "string \<Rightarrow> ('s, js_error, js) io \<Rightarrow> (js \<Rightarrow> projection \<Rightarrow> projection) \<Rightarrow> (projection \<times> 's, js_error, unit) io" where
  "run_process fallback call done_with = (\<lambda>(p0, s).
     let p = setError None (setPending True p0) in
     case call s of
       (Inr v, s') \<Rightarrow> (Inr (), (setPending False (done_with v p), s'))
     | (Inl e, s') \<Rightarrow> (Inl e, (setPending False (setError (Some (failure_message e fallback)) p), s')))"

definition process_load :: "'s route_gateway \<Rightarrow> bool \<Rightarrow> (projection \<times> 's, js_error, unit) io" where
  "process_load gateway includeDisabled =
     run_process ''Failed to load routes'' (gw_list gateway (JObj [(''includeDisabled'', JBool includeDisabled)])) replaceRoutes"

definition process_save :: "'s route_gateway \<Rightarrow> js \<Rightarrow> (projection \<times> 's, js_error, unit) io" where
  "process_save gateway draft = run_process ''Failed to save route'' (gw_save gateway draft) upsertRoute"

definition process_toggle :: "'s route_gateway \<Rightarrow> string \<Rightarrow> bool \<Rightarrow> (projection \<times> 's, js_error, unit) io" where
  "process_toggle gateway i enabled =
     run_process ''Failed to toggle route'' (gw_toggle gateway (toggle_input i enabled)) upsertRoute"

subsection \<open>Runs of the process\<close>

text \<open>
  A session of the process: its operations one after the other, each with the random id and the
  time it finds. Errors are reported to the caller and the session goes on.
\<close>

datatype process_op = OpLoad bool | OpSave js | OpToggle string bool

definition run_op ::
  "(string \<Rightarrow> int \<Rightarrow> 's executor) \<Rightarrow> string \<times> int \<times> process_op \<Rightarrow> projection \<times> 's \<Rightarrow> projection \<times> 's" where
  "run_op execute = (\<lambda>(uuid, now, op) w.
     let gateway = CommandRouteGateway (execute uuid now) in
     snd (case op of
         OpLoad b \<Rightarrow> process_load gateway b w
       | OpSave draft \<Rightarrow> process_save gateway draft w
       | OpToggle i b \<Rightarrow> process_toggle gateway i b w))"

definition run_ops ::
  "(string \<Rightarrow> int \<Rightarrow> 's executor) \<Rightarrow> (string \<times> int \<times> process_op) list \<Rightarrow> projection \<times> 's \<Rightarrow> projection \<times> 's" where
  "run_ops execute ops w = foldl (\<lambda>w op. run_op execute op w) w ops"

text \<open>Values that neither sanitising nor a trip through JSON changes.\<close>

definition steady :: "js \<Rightarrow> bool" where
  "steady v \<longleftrightarrow> sanitizeForJson v = v \<and> json_val v = v"

definition steady_draft :: "string \<Rightarrow> js \<Rightarrow> bool" where
  "steady_draft uuid d \<longleftrightarrow> d \<noteq> JUndef \<and> d \<noteq> JNull \<and> redactPotentialSecrets uuid = uuid \<and>
     (get d ''id'' = JUndef \<or> get d ''id'' = JNull \<or> is_str (get d ''id'') \<and> steady (get d ''id'')) \<and>
     steady (get d ''host'') \<and> steady (get d ''destination'') \<and>
     (get d ''enabled'' = JUndef \<or> steady (get d ''enabled''))"

definition op_ok :: "string \<times> int \<times> process_op \<Rightarrow> bool" where
  "op_ok = (\<lambda>(uuid, now, op). case op of OpSave d \<Rightarrow> steady_draft uuid d | _ \<Rightarrow> True)"

text \<open>Ordered collections of routes with distinct ids.\<close>

definition collection_wf :: "js list \<Rightarrow> bool" where
  "collection_wf rs \<longleftrightarrow> distinct (map (\<lambda>r. get r ''id'') rs) \<and> list_all (\<lambda>r. is_obj r \<and> steady r) rs"

lemma steady_JObj: "steady (JObj ps) \<longleftrightarrow> (\<forall>(k, v) \<in> set ps. \<not> isSensitiveFieldName k \<and> v \<noteq> JUndef \<and> steady v)"
  by (auto simp: steady_def map_filter_id_iff)

lemma steady_simps [simp]:
  "steady (JBool b)" "\<not> steady JUndef" "steady (JStr s) \<longleftrightarrow> redactPotentialSecrets s = s"
  "steady (JArr xs) \<longleftrightarrow> list_all steady xs"
  by (auto simp: steady_def list_all_iff map_id_iff)

lemma route_names_not_sensitive [simp]:
  "\<not> isSensitiveFieldName ''id''" "\<not> isSensitiveFieldName ''host''" "\<not> isSensitiveFieldName ''destination''"
  "\<not> isSensitiveFieldName ''enabled''" "\<not> isSensitiveFieldName ''updatedAt''"
  unfolding isSensitiveFieldName_word by code_simp+

lemma draft_route_wf:
  assumes "steady_draft uuid d"
  shows "is_obj (draft_route uuid now d)" "steady (draft_route uuid now d)"
  using assms by (auto simp: draft_route_def steady_draft_def steady_JObj nullish_def redact_to_iso)

lemma toggled_route_wf:
  assumes "is_obj c" and "steady c" and "steady b"
  shows "is_obj (toggled_route now c b)" "steady (toggled_route now c b)"
    "get (toggled_route now c b) ''id'' = get c ''id''"
proof -
  from assms(1) obtain ps where c: "c = JObj ps" by (cases c) auto
  show "is_obj (toggled_route now c b)" by (simp add: toggled_route_def)
  have "set (map_set ''updatedAt'' (JStr (to_iso now)) (map_set ''enabled'' b ps)) \<subseteq>
      {(''updatedAt'', JStr (to_iso now)), (''enabled'', b)} \<union> set ps"
    using set_map_set [of "''updatedAt''" "JStr (to_iso now)" "map_set ''enabled'' b ps"] set_map_set [of "''enabled''" b ps]
    by blast
  with assms c show "steady (toggled_route now c b)"
    by (fastforce simp: toggled_route_def steady_JObj redact_to_iso)
  show "get (toggled_route now c b) ''id'' = get c ''id''"
    by (simp add: c toggled_route_def)
qed

lemma collection_put_last: "collection_wf rs \<Longrightarrow> is_obj r \<Longrightarrow> steady r \<Longrightarrow> collection_wf (put_last r rs)"
  by (auto simp: collection_wf_def put_last_def distinct_map inj_on_def list_all_iff)

lemma collection_replace_id:
  assumes "collection_wf rs" and "is_obj r" and "steady r" and "get r ''id'' = i"
  shows "collection_wf (replace_id i r rs)"
proof -
  have "map (\<lambda>r. get r ''id'') (replace_id i r rs) = map (\<lambda>r. get r ''id'') rs"
    using assms(4) by (auto simp: replace_id_def)
  moreover have "list_all (\<lambda>r. is_obj r \<and> steady r) (replace_id i r rs)"
    using assms by (auto simp: collection_wf_def list_all_iff replace_id_def)
  ultimately show ?thesis using assms(1) by (simp add: collection_wf_def)
qed

subsection \<open>The contract of an executor\<close>

text \<open>
  \<open>held\<close> is the collection of routes an executor keeps in its state. A list command reads it, a
  save puts the new route last, a toggle replaces the route in place or fails and changes nothing.
\<close>

locale route_executor =
  fixes execute :: "string \<Rightarrow> int \<Rightarrow> 's executor"
    and held :: "'s \<Rightarrow> js list"
    and inv :: "'s \<Rightarrow> bool"
  assumes held_wf: "inv s \<Longrightarrow> collection_wf (held s)"
    and list_law: "inv s \<Longrightarrow> execute uuid now ''routes:list'' (JObj [(''includeDisabled'', JBool b)]) s =
        (Inr (JObj [(''routes'', JArr (if b then held s else filter (\<lambda>r. truthy (get r ''enabled'')) (held s)))]), s)"
    and save_law: "inv s \<Longrightarrow> steady_draft uuid d \<Longrightarrow>
        \<exists>s'. execute uuid now ''routes:save'' (JObj [(''draft'', d)]) s = (Inr (JObj [(''route'', draft_route uuid now d)]), s') \<and>
          inv s' \<and> held s' = put_last (draft_route uuid now d) (held s)"
    and toggle_law: "inv s \<Longrightarrow> find (\<lambda>r. get r ''id'' = JStr i) (held s) = Some c \<Longrightarrow>
        \<exists>s'. execute uuid now ''routes:toggle'' (toggle_input i b) s = (Inr (JObj [(''route'', toggled_route now c (JBool b))]), s') \<and>
          inv s' \<and> held s' = replace_id (JStr i) (toggled_route now c (JBool b)) (held s)"
    and toggle_missing: "inv s \<Longrightarrow> find (\<lambda>r. get r ''id'' = JStr i) (held s) = None \<Longrightarrow>
        \<exists>e. execute uuid now ''routes:toggle'' (toggle_input i b) s = (Inl e, s)"
begin

lemma load_run:
  "inv s \<Longrightarrow> \<exists>p'. run_op execute (uuid, now, OpLoad b) (p, s) = (p', s) \<and>
     proj_routes p' = (if b then held s else filter (\<lambda>r. truthy (get r ''enabled'')) (held s))"
  using held_wf [of s]
  by (auto simp: run_op_def process_load_def run_process_def CommandRouteGateway_def nullish_def list_law replaceRoutes_def
      setPending_def collection_wf_def list_all_iff steady_def map_id_iff Let_def bind_def)

lemma save_run:
  assumes "inv s" and "steady_draft uuid d"
  shows "\<exists>p' s'. run_op execute (uuid, now, OpSave d) (p, s) = (p', s') \<and> inv s' \<and>
     held s' = put_last (draft_route uuid now d) (held s) \<and> proj_routes p' = proj_routes (upsertRoute (draft_route uuid now d) p)"
  using save_law [OF assms, of now]
  by (auto simp: run_op_def process_save_def run_process_def CommandRouteGateway_def Let_def upsertRoute_def setPending_def
      setError_def bind_def)

lemma toggle_run:
  assumes "inv s" and "find (\<lambda>r. get r ''id'' = JStr i) (held s) = Some c"
  shows "\<exists>p' s'. run_op execute (uuid, now, OpToggle i b) (p, s) = (p', s') \<and> inv s' \<and>
     held s' = replace_id (JStr i) (toggled_route now c (JBool b)) (held s) \<and>
     proj_routes p' = proj_routes (upsertRoute (toggled_route now c (JBool b)) p)"
  using toggle_law [OF assms, of uuid now b]
  by (auto simp: run_op_def process_toggle_def run_process_def CommandRouteGateway_def Let_def upsertRoute_def setPending_def
      setError_def bind_def)

lemma toggle_missing_run:
  assumes "inv s" and "find (\<lambda>r. get r ''id'' = JStr i) (held s) = None"
  shows "\<exists>p'. run_op execute (uuid, now, OpToggle i b) (p, s) = (p', s) \<and> proj_routes p' = proj_routes p"
  using toggle_missing [OF assms, of uuid now b]
  by (auto simp: run_op_def process_toggle_def run_process_def CommandRouteGateway_def Let_def setPending_def setError_def bind_def)

end

lemma set_put_last: "set (put_last r rs) = insert r {x \<in> set rs. get x ''id'' \<noteq> get r ''id''}"
  by (auto simp: put_last_def)

lemma set_replace_id:
  "x \<in> set rs \<Longrightarrow> get x ''id'' = i \<Longrightarrow> set (replace_id i r rs) = insert r {x \<in> set rs. get x ''id'' \<noteq> i}"
  by (auto simp: replace_id_def image_iff)

lemma set_upsertRoute:
  "steady r \<Longrightarrow> set (proj_routes (upsertRoute r p)) = insert r {x \<in> set (proj_routes p). get x ''id'' \<noteq> get r ''id''}"
  by (auto simp: upsertRoute_def steady_def list_ex_iff image_iff)

text \<open>A list command without the disabled routes.\<close>

definition full_op :: "string \<times> int \<times> process_op \<Rightarrow> bool" where
  "full_op = (\<lambda>(_, _, op). op \<noteq> OpLoad False)"

context route_executor
begin

lemma run_op_tracks:
  assumes "inv s" and "op_ok op" and "run_op execute op (p, s) = (p', s')"
  shows "inv s' \<and> (set (proj_routes p) \<subseteq> set (held s) \<longrightarrow> set (proj_routes p') \<subseteq> set (held s')) \<and>
     (set (proj_routes p) = set (held s) \<and> full_op op \<longrightarrow> set (proj_routes p') = set (held s'))"
proof (cases op)
  case (fields uuid now x)
  show ?thesis
  proof (cases x)
    case (OpLoad b)
    then show ?thesis using load_run [OF assms(1), of uuid now b p] assms fields by (auto simp: full_op_def)
  next
    case (OpSave d)
    then have d: "steady_draft uuid d" using assms(2) fields by (simp add: op_ok_def)
    show ?thesis using save_run [OF assms(1) d, of now p] assms(3) fields OpSave draft_route_wf [OF d, of now]
      by (auto simp: set_put_last set_upsertRoute)
  next
    case (OpToggle i b)
    show ?thesis
    proof (cases "find (\<lambda>r. get r ''id'' = JStr i) (held s)")
      case None
      then show ?thesis using toggle_missing_run [OF assms(1) None, of uuid now b p] assms fields OpToggle by auto
    next
      case (Some c)
      then have c: "c \<in> set (held s)" "get c ''id'' = JStr i" by (auto simp: find_Some_iff)
      with held_wf [OF assms(1)] have "is_obj c" "steady c" by (auto simp: collection_wf_def list_all_iff)
      note w = toggled_route_wf [OF this, of "JBool b" now, simplified]
      show ?thesis using toggle_run [OF assms(1) Some, of uuid now b p] assms(3) fields OpToggle w c
        by (auto simp: set_replace_id [OF c] set_upsertRoute)
    qed
  qed
qed

lemma run_ops_tracks:
  assumes "inv s" and "list_all op_ok ops" and "run_ops execute ops (p, s) = (p', s')"
  shows "inv s' \<and> (set (proj_routes p) \<subseteq> set (held s) \<longrightarrow> set (proj_routes p') \<subseteq> set (held s')) \<and>
     (set (proj_routes p) = set (held s) \<and> list_all full_op ops \<longrightarrow> set (proj_routes p') = set (held s'))"
  using assms
proof (induction ops arbitrary: p s)
  case (Cons op ops)
  obtain p1 s1 where 1: "run_op execute op (p, s) = (p1, s1)" by fastforce
  with Cons.prems have "run_ops execute ops (p1, s1) = (p', s')" by (simp add: run_ops_def)
  with Cons.IH [of s1 p1] run_op_tracks [OF Cons.prems(1) _ 1] Cons.prems(2) show ?case by auto
qed (simp add: run_ops_def)

end

interpretation mock: route_executor mock_execute "\<lambda>rs. rs" collection_wf
proof unfold_locales
  fix rs uuid now d
  assume "collection_wf rs" and d: "steady_draft uuid d"
  with draft_route_wf [OF d, of now] collection_put_last
  show "\<exists>s'. mock_execute uuid now ''routes:save'' (JObj [(''draft'', d)]) rs = (Inr (JObj [(''route'', draft_route uuid now d)]), s') \<and>
      collection_wf s' \<and> s' = put_last (draft_route uuid now d) rs"
    by (simp add: mock_execute_def steady_draft_def Let_def)
next
  fix rs i c uuid now b
  assume wf: "collection_wf rs" and "find (\<lambda>r. get r ''id'' = JStr i) rs = Some c"
  moreover from this have "is_obj c" "steady c" "get c ''id'' = JStr i"
    by (auto simp: collection_wf_def list_all_iff find_Some_iff)
  ultimately show "\<exists>s'. mock_execute uuid now ''routes:toggle'' (toggle_input i b) rs =
      (Inr (JObj [(''route'', toggled_route now c (JBool b))]), s') \<and>
      collection_wf s' \<and> s' = replace_id (JStr i) (toggled_route now c (JBool b)) rs"
    using toggled_route_wf [of c "JBool b" now] collection_replace_id [OF wf]
    by (simp add: mock_execute_def toggle_input_def Let_def)
qed (auto simp: mock_execute_def wants_disabled_def toggle_input_def)

definition local_held :: "storage \<Rightarrow> js list" where
  "local_held s = elems_of (local_loadRoutes s)"

definition local_inv :: "storage \<Rightarrow> bool" where
  "local_inv s \<longleftrightarrow> local_loadRoutes s = JArr (local_held s) \<and> collection_wf (local_held s)"

lemma local_load_after_save:
  assumes "collection_wf rs"
  shows "local_loadRoutes (local_saveRoutes rs s) = JArr rs"
proof -
  have "map stored rs = rs"
    using assms by (auto simp: collection_wf_def list_all_iff map_id_iff stored_def steady_def)
  then show ?thesis
    by (simp add: local_loadRoutes_def local_saveRoutes_def getItem_def stringify_array)
qed

lemma collection_no_null: "collection_wf rs \<Longrightarrow> JNull \<notin> set rs"
  by (auto simp: collection_wf_def list_all_iff)

interpretation local: route_executor local_execute local_held local_inv
proof unfold_locales
  fix s uuid now d
  assume s: "local_inv s" and d: "steady_draft uuid d"
  let ?rs = "put_last (draft_route uuid now d) (local_held s)"
  from s draft_route_wf [OF d, of now] have wf: "collection_wf ?rs"
    by (simp add: local_inv_def collection_put_last)
  have "local_execute uuid now ''routes:save'' (JObj [(''draft'', d)]) s =
      (Inr (JObj [(''route'', draft_route uuid now d)]), local_saveRoutes ?rs s)"
    using s d collection_no_null [of "local_held s"] by (simp add: local_execute_def local_inv_def steady_draft_def Let_def)
  then show "\<exists>s'. local_execute uuid now ''routes:save'' (JObj [(''draft'', d)]) s =
      (Inr (JObj [(''route'', draft_route uuid now d)]), s') \<and> local_inv s' \<and> local_held s' = ?rs"
    using wf by (auto simp: local_inv_def local_held_def local_load_after_save)
next
  fix s i c uuid now b
  assume s: "local_inv s" and c: "find (\<lambda>r. get r ''id'' = JStr i) (local_held s) = Some c"
  let ?r = "toggled_route now c (JBool b)" and ?rs = "replace_id (JStr i) (toggled_route now c (JBool b)) (local_held s)"
  from s c have "is_obj c" "steady c" "get c ''id'' = JStr i"
    by (auto simp: local_inv_def collection_wf_def list_all_iff find_Some_iff)
  with s toggled_route_wf [of c "JBool b" now] have wf: "collection_wf ?rs"
    by (simp add: local_inv_def collection_replace_id)
  have "local_execute uuid now ''routes:toggle'' (toggle_input i b) s = (Inr (JObj [(''route'', ?r)]), local_saveRoutes ?rs s)"
    using s c collection_no_null [of "local_held s"] by (simp add: local_execute_def local_inv_def toggle_input_def Let_def)
  then show "\<exists>s'. local_execute uuid now ''routes:toggle'' (toggle_input i b) s = (Inr (JObj [(''route'', ?r)]), s') \<and>
      local_inv s' \<and> local_held s' = ?rs"
    using wf by (auto simp: local_inv_def local_held_def local_load_after_save)
next
  fix s uuid now b
  assume "local_inv s"
  with collection_no_null [of "local_held s"]
  show "local_execute uuid now ''routes:list'' (JObj [(''includeDisabled'', JBool b)]) s =
     (Inr (JObj [(''routes'', JArr (if b then local_held s else filter (\<lambda>r. truthy (get r ''enabled'')) (local_held s)))]), s)"
    by (simp add: local_execute_def local_inv_def wants_disabled_def)
next
  fix s i uuid now b
  assume "local_inv s" and "find (\<lambda>r. get r ''id'' = JStr i) (local_held s) = None"
  with collection_no_null [of "local_held s"]
  show "\<exists>e. local_execute uuid now ''routes:toggle'' (toggle_input i b) s = (Inl e, s)"
    by (simp add: local_execute_def local_inv_def toggle_input_def)
qed (simp add: local_inv_def)

subsection \<open>Properties\<close>


definition sample_draft :: js where
  "sample_draft = JObj [(''id'', JStr ''r1''), (''host'', JStr ''a.b''), (''destination'', JStr ''c'')]"

lemma sample_draft_steady: "steady_draft ''u'' sample_draft"
proof -
  have "list_all plain_char ''u''" "list_all plain_char ''r1''" "list_all plain_char ''a.b''" "list_all plain_char ''c''"
    by code_simp+
  then show ?thesis by (simp add: steady_draft_def sample_draft_def redact_plain)
qed


definition settles ::
  "string \<Rightarrow> ('s, js_error, js) io \<Rightarrow> (js \<Rightarrow> projection \<Rightarrow> projection) \<Rightarrow> projection \<Rightarrow> 's \<Rightarrow> (js_error + unit) \<times> (projection \<times> 's) \<Rightarrow> bool" where
  "settles fallback call effect p s = (\<lambda>(r, (p', s')). \<not> pending p' \<and>
     (case call s of
        (Inr v, s1) \<Rightarrow> r = Inr () \<and> s' = s1 \<and> proj_error p' = None \<and> proj_routes p' = proj_routes (effect v p)
      | (Inl e, s1) \<Rightarrow> r = Inl e \<and> s' = s1 \<and> proj_routes p' = proj_routes p \<and>
          proj_error p' = (let m = (if is_error e then err_message e else fallback)
                           in if m = [] then None else Some (redactPotentialSecrets m))))"

lemma run_process_settles:
  assumes "\<And>v. proj_routes (effect v (p\<lparr>pending := True, proj_error := None\<rparr>)) = proj_routes (effect v p)"
    and "\<And>v q. proj_error (effect v q) = proj_error q"
  shows "settles fallback call effect p s (run_process fallback call effect (p, s))"
  using assms by (auto simp: settles_def run_process_def setPending_def setError_def failure_message_def Let_def
      split: prod.splits sum.splits)

text \<open>
  An operation of the process always ends with \<open>pending\<close> off. When the gateway answers, the
  error is cleared and the answer is shown; when it throws, the same error is thrown on, its
  redacted message is recorded and the routes shown stay as they were.
\<close>

theorem process_settles:
  "settles ''Failed to load routes'' (gw_list gateway (JObj [(''includeDisabled'', JBool b)])) replaceRoutes p s
     (process_load gateway b (p, s)) \<and>
   settles ''Failed to save route'' (gw_save gateway draft) upsertRoute p s (process_save gateway draft (p, s)) \<and>
   settles ''Failed to toggle route'' (gw_toggle gateway (toggle_input i b)) upsertRoute p s (process_toggle gateway i b (p, s))"
  unfolding process_load_def process_save_def process_toggle_def
  by (intro conjI run_process_settles) (simp_all add: replaceRoutes_def upsertRoute_def)

text \<open>
  Over HTTP a command succeeds exactly when it was not cancelled beforehand and the server
  answered with a success status and a JSON value whose \<open>ok\<close> and \<open>data\<close> are truthy; the result is
  that \<open>data\<close>. A cancelled command is never sent.
\<close>

theorem http_execute_ok_iff:
  "(http_execute fetch baseUrl aborted command payload = Inr v \<longleftrightarrow>
     \<not> aborted \<and> (\<exists>code result. fetch (http_url baseUrl) (JObj [(''command'', JStr command), (''payload'', payload)]) =
        FetchResponse True code (Some result) \<and> truthy (get result ''ok'') \<and> truthy v \<and> get result ''data'' = v)) \<and>
   http_execute fetch baseUrl True command payload = http_execute fetch' baseUrl True command payload"
  by (auto simp: http_execute_def get_def split: fetch_outcome.splits option.splits if_splits)

end
