(* ===== verification/Compositions.thy ===== *)
theory Compositions
  imports Routes_Process
begin

text \<open>
  How the front ends put the process of routes together: the composition roots of the web application
  and of the desktop renderer (\<open>composeRoutesProcess.ts\<close>), the gateway factory of
  \<open>packages/infra\<close> and the hook \<open>useRoutesProcess.ts\<close>. The locale
  \<open>executor_pair\<close> compares two executors with the same contract. The second half runs the operations
  of a process interleaved, as promises do.
\<close>

subsection \<open>Composition roots\<close>

record 's routes_process =
  rp_load :: "bool \<Rightarrow> (projection \<times> 's, js_error, unit) io"
  rp_save :: "js \<Rightarrow> (projection \<times> 's, js_error, unit) io"
  rp_toggle :: "string \<Rightarrow> bool \<Rightarrow> (projection \<times> 's, js_error, unit) io"

definition RoutesProcess :: "'s route_gateway \<Rightarrow> 's routes_process" where
  "RoutesProcess gateway = \<lparr>rp_load = process_load gateway, rp_save = process_save gateway, rp_toggle = process_toggle gateway\<rparr>"

definition createTransitionalRouteGateway :: "'s executor \<Rightarrow> 's route_gateway" where
  "createTransitionalRouteGateway execute = CommandRouteGateway execute"

definition SSHRouteRepository :: "'s executor \<Rightarrow> 's route_gateway" where
  "SSHRouteRepository execute = CommandRouteGateway execute"

datatype transport = HttpTransport | MockTransport

record web_options =
  wo_transport :: transport
  apiBaseUrl :: "string option"

text \<open>
  The executor the options choose. Its state is the list of the in-memory executor, which the one
  over HTTP does not touch; \<open>fetch\<close> answers the requests.
\<close>

definition web_executor :: "(string \<Rightarrow> js \<Rightarrow> fetch_outcome) \<Rightarrow> web_options \<Rightarrow> string \<Rightarrow> int \<Rightarrow> js list executor" where
  "web_executor fetch options uuid now =
     (case wo_transport options of
        HttpTransport \<Rightarrow> (\<lambda>command payload rs.
          (http_execute fetch (case apiBaseUrl options of None \<Rightarrow> ''/api'' | Some u \<Rightarrow> u) False command payload, rs))
      | MockTransport \<Rightarrow> mock_execute uuid now)"

definition web_composeRoutesProcess ::
  "(string \<Rightarrow> js \<Rightarrow> fetch_outcome) \<Rightarrow> web_options \<Rightarrow> string \<Rightarrow> int \<Rightarrow> js list routes_process" where
  "web_composeRoutesProcess fetch options uuid now =
     RoutesProcess (createTransitionalRouteGateway (web_executor fetch options uuid now))"

definition desktop_composeRoutesProcess :: "string \<Rightarrow> int \<Rightarrow> storage routes_process" where
  "desktop_composeRoutesProcess uuid now = RoutesProcess (createTransitionalRouteGateway (local_execute uuid now))"

text \<open>The hook: the options come from the build's environment, and mounting loads all routes.\<close>

definition hook_options :: "(string \<Rightarrow> string option) \<Rightarrow> web_options" where
  "hook_options e = \<lparr>wo_transport = (if e ''VITE_USE_MOCK'' = Some ''true'' then MockTransport else HttpTransport),
     apiBaseUrl = e ''VITE_API_BASE_URL''\<rparr>"

definition useRoutesProcess ::
  "(string \<Rightarrow> js \<Rightarrow> fetch_outcome) \<Rightarrow> (string \<Rightarrow> string option) \<Rightarrow> string \<Rightarrow> int \<Rightarrow> js list routes_process" where
  "useRoutesProcess fetch e = web_composeRoutesProcess fetch (hook_options e)"

text \<open>Operations of a composed process (\<open>load\<close>, \<open>save\<close> and \<open>toggle\<close> of the hook), one after the other, each with the random id and the time it finds.\<close>

definition drive :: "'s routes_process \<Rightarrow> process_op \<Rightarrow> projection \<times> 's \<Rightarrow> projection \<times> 's" where
  "drive process op w =
     snd (case op of OpLoad b \<Rightarrow> rp_load process b w | OpSave d \<Rightarrow> rp_save process d w | OpToggle i b \<Rightarrow> rp_toggle process i b w)"

text \<open>The effect of the hook when it is mounted.\<close>

definition hook_mount :: "'s routes_process \<Rightarrow> projection \<times> 's \<Rightarrow> projection \<times> 's" where
  "hook_mount process w = drive process (OpLoad True) w"

definition drive_all ::
  "(string \<Rightarrow> int \<Rightarrow> 's routes_process) \<Rightarrow> (string \<times> int \<times> process_op) list \<Rightarrow> projection \<times> 's \<Rightarrow> projection \<times> 's" where
  "drive_all process ops w = foldl (\<lambda>w (uuid, now, op). drive (process uuid now) op w) w ops"

lemma drive_all_run_ops:
  "drive_all (\<lambda>uuid now. RoutesProcess (createTransitionalRouteGateway (execute uuid now))) ops w = run_ops execute ops w"
proof -
  have "drive (RoutesProcess (createTransitionalRouteGateway (execute uuid now))) op w = run_op execute (uuid, now, op) w" for uuid now op w
    by (simp add: drive_def run_op_def RoutesProcess_def createTransitionalRouteGateway_def Let_def split: process_op.split)
  then show ?thesis by (auto simp: drive_all_def run_ops_def intro!: foldl_cong)
qed

subsection \<open>Executors with one contract\<close>

definition in_agreement ::
  "('a \<Rightarrow> bool) \<Rightarrow> ('a \<Rightarrow> js list) \<Rightarrow> ('b \<Rightarrow> bool) \<Rightarrow> ('b \<Rightarrow> js list) \<Rightarrow> projection \<times> 'a \<Rightarrow> projection \<times> 'b \<Rightarrow> bool" where
  "in_agreement i1 h1 i2 h2 = (\<lambda>(p, s) (q, t). i1 s \<and> i2 t \<and> h1 s = h2 t \<and> proj_routes p = proj_routes q)"

locale executor_pair =
  a: route_executor e1 h1 i1 + b: route_executor e2 h2 i2
  for e1 :: "string \<Rightarrow> int \<Rightarrow> 'a executor" and h1 i1 and e2 :: "string \<Rightarrow> int \<Rightarrow> 'b executor" and h2 i2
begin

abbreviation agree :: "projection \<times> 'a \<Rightarrow> projection \<times> 'b \<Rightarrow> bool" where
  "agree \<equiv> in_agreement i1 h1 i2 h2"

lemma run_op_agree:
  assumes "agree (p, s) (q, t)" and "op_ok op"
  shows "agree (run_op e1 op (p, s)) (run_op e2 op (q, t))"
proof (cases op)
  case (fields uuid now x)
  from assms(1) have inv: "i1 s" "i2 t" and eq: "h1 s = h2 t" "proj_routes p = proj_routes q" by (auto simp: in_agreement_def)
  have upsert: "proj_routes (upsertRoute r p) = proj_routes (upsertRoute r q)" for r using eq(2) by (simp add: upsertRoute_def)
  show ?thesis
  proof (cases x)
    case (OpLoad full)
    with a.load_run [OF inv(1), of uuid now full p] b.load_run [OF inv(2), of uuid now full q] inv eq fields
    show ?thesis by (auto simp: in_agreement_def)
  next
    case (OpSave d)
    with assms(2) fields have d: "steady_draft uuid d" by (simp add: op_ok_def)
    from a.save_run [OF inv(1) d, of now p] b.save_run [OF inv(2) d, of now q] eq upsert fields OpSave
    show ?thesis by (auto simp: in_agreement_def)
  next
    case (OpToggle i on)
    show ?thesis
    proof (cases "find (\<lambda>r. get r ''id'' = JStr i) (h1 s)")
      case None
      with a.toggle_missing_run [OF inv(1) None, of uuid now on p] b.toggle_missing_run [OF inv(2), of i uuid now on q] inv eq fields OpToggle
      show ?thesis by (auto simp: in_agreement_def)
    next
      case (Some c)
      with a.toggle_run [OF inv(1) Some, of uuid now on p] b.toggle_run [OF inv(2), of i c uuid now on q] eq upsert fields OpToggle
      show ?thesis by (auto simp: in_agreement_def)
    qed
  qed
qed

lemma run_ops_agree: "agree w v \<Longrightarrow> list_all op_ok ops \<Longrightarrow> agree (run_ops e1 ops w) (run_ops e2 ops v)"
proof (induction ops arbitrary: w v)
  case (Cons op ops)
  then have "agree (run_op e1 op w) (run_op e2 op v)" by (cases w; cases v) (auto intro: run_op_agree)
  with Cons show ?case by (simp add: run_ops_def)
qed (simp add: run_ops_def)

end

interpretation fronts: executor_pair mock_execute "\<lambda>rs. rs" collection_wf local_execute local_held local_inv
  by unfold_locales



subsection \<open>Interleaved operations\<close>

text \<open>
  An operation calls the gateway when it begins and touches the projection again when the answer is
  delivered; others may begin and end in between. \<open>waiting\<close> holds the answers that are still to be
  delivered, in the order of the calls.
\<close>

record 's running =
  proj :: projection
  kept :: 's
  waiting :: "(process_op \<times> (js_error + js)) list"

definition call_of :: "'s route_gateway \<Rightarrow> process_op \<Rightarrow> ('s, js_error, js) io" where
  "call_of gateway op =
     (case op of OpLoad b \<Rightarrow> gw_list gateway (JObj [(''includeDisabled'', JBool b)]) | OpSave d \<Rightarrow> gw_save gateway d
      | OpToggle i b \<Rightarrow> gw_toggle gateway (toggle_input i b))"

definition effect_of :: "process_op \<Rightarrow> js \<Rightarrow> projection \<Rightarrow> projection" where
  "effect_of op = (case op of OpLoad _ \<Rightarrow> replaceRoutes | _ \<Rightarrow> upsertRoute)"

definition fallback_of :: "process_op \<Rightarrow> string" where
  "fallback_of op =
     (case op of OpLoad _ \<Rightarrow> ''Failed to load routes'' | OpSave _ \<Rightarrow> ''Failed to save route'' | OpToggle _ _ \<Rightarrow> ''Failed to toggle route'')"

definition begin_op :: "(string \<Rightarrow> int \<Rightarrow> 's executor) \<Rightarrow> string \<times> int \<times> process_op \<Rightarrow> 's running \<Rightarrow> 's running" where
  "begin_op execute = (\<lambda>(uuid, now, op) r.
     case call_of (CommandRouteGateway (execute uuid now)) op (kept r) of (answer, s') \<Rightarrow>
       \<lparr>proj = setError None (setPending True (proj r)), kept = s', waiting = waiting r @ [(op, answer)]\<rparr>)"

definition end_op :: "process_op \<times> (js_error + js) \<Rightarrow> projection \<Rightarrow> projection" where
  "end_op = (\<lambda>(op, answer) p. setPending False
     (case answer of Inr v \<Rightarrow> effect_of op v p | Inl e \<Rightarrow> setError (Some (failure_message e (fallback_of op))) p))"

inductive process_step :: "(string \<Rightarrow> int \<Rightarrow> 's executor) \<Rightarrow> 's running \<Rightarrow> 's running \<Rightarrow> bool" for execute where
  begins: "process_step execute r (begin_op execute e r)"
| ends: "waiting r = ts @ x # us \<Longrightarrow> process_step execute r (r\<lparr>proj := end_op x (proj r), waiting := ts @ us\<rparr>)"

text \<open>Runs in which answers are delivered in the order of the calls, with the operations begun in them.\<close>

inductive in_order :: "(string \<Rightarrow> int \<Rightarrow> 's executor) \<Rightarrow> 's running \<Rightarrow> (string \<times> int \<times> process_op) list \<Rightarrow> 's running \<Rightarrow> bool"
  for execute where
  rest: "in_order execute r [] r"
| call: "in_order execute (begin_op execute e r) es r' \<Longrightarrow> in_order execute r (e # es) r'"
| answer: "waiting r = x # us \<Longrightarrow> in_order execute (r\<lparr>proj := end_op x (proj r), waiting := us\<rparr>) es r' \<Longrightarrow> in_order execute r es r'"

lemma begin_op_shape:
  obtains x s' where "begin_op execute e r = \<lparr>proj = setError None (setPending True (proj r)), kept = s', waiting = waiting r @ [x]\<rparr>"
proof (cases e)
  case (fields uuid now op)
  then show ?thesis
    using that by (cases "call_of (CommandRouteGateway (execute uuid now)) op (kept r)") (simp add: begin_op_def)
qed

lemma run_op_begin_end:
  assumes "begin_op execute e \<lparr>proj = p, kept = s, waiting = []\<rparr> = \<lparr>proj = q, kept = t, waiting = [x]\<rparr>"
  shows "run_op execute e (p, s) = (end_op x q, t)"
  using assms
  by (auto simp: begin_op_def run_op_def call_of_def end_op_def effect_of_def fallback_of_def process_load_def process_save_def
      process_toggle_def run_process_def Let_def split: prod.splits process_op.splits sum.splits)

text \<open>The routes shown once every answer has been delivered; they depend on nothing else of the projection.\<close>

definition shown_after :: "process_op \<times> (js_error + js) \<Rightarrow> js list \<Rightarrow> js list" where
  "shown_after x rs = proj_routes (end_op x \<lparr>pending = False, proj_error = None, proj_routes = rs\<rparr>)"

lemma shown_end_op: "proj_routes (end_op x p) = shown_after x (proj_routes p)"
  by (cases x; cases "fst x"; cases "snd x")
    (simp_all add: shown_after_def end_op_def effect_of_def setPending_def setError_def replaceRoutes_def upsertRoute_def)

lemma shown_begin: "proj_routes (setError None (setPending True p)) = proj_routes p"
  by (simp add: setError_def setPending_def)

definition settled_routes :: "'s running \<Rightarrow> js list" where
  "settled_routes r = foldl (\<lambda>rs x. shown_after x rs) (proj_routes (proj r)) (waiting r)"

lemma run_op_settled:
  "map_prod proj_routes id (run_op execute e (p, s)) =
   (let r = begin_op execute e \<lparr>proj = p, kept = s, waiting = []\<rparr> in (settled_routes r, kept r))"
proof -
  obtain q t x where r: "begin_op execute e \<lparr>proj = p, kept = s, waiting = []\<rparr> = \<lparr>proj = q, kept = t, waiting = [x]\<rparr>"
    by (rule begin_op_shape [of execute "e" "\<lparr>proj = p, kept = s, waiting = []\<rparr>"]) simp
  moreover have "proj_routes q = proj_routes p" using r by (auto simp: begin_op_def shown_begin split: prod.splits)
  ultimately show ?thesis by (simp add: run_op_begin_end [OF r] settled_routes_def shown_end_op)
qed

lemma in_order_routes:
  assumes "in_order execute r es r'" and "proj_routes p = settled_routes r"
  shows "map_prod proj_routes id (run_ops execute es (p, kept r)) = (settled_routes r', kept r')"
  using assms
proof (induction arbitrary: p rule: in_order.induct)
  case (rest r)
  then show ?case by (simp add: run_ops_def)
next
  case (call e r es r')
  obtain q t where q: "run_op execute e (p, kept r) = (q, t)" by fastforce
  have "settled_routes (begin_op execute e r) = settled_routes (begin_op execute e \<lparr>proj = p, kept = kept r, waiting = []\<rparr>)"
    "kept (begin_op execute e r) = kept (begin_op execute e \<lparr>proj = p, kept = kept r, waiting = []\<rparr>)"
    using call.prems by (auto simp: begin_op_def settled_routes_def shown_begin split: prod.split)
  with run_op_settled [of execute e p "kept r"] q
  have "proj_routes q = settled_routes (begin_op execute e r)" "t = kept (begin_op execute e r)" by (simp_all add: Let_def)
  with call.IH [of q] q show ?case by (simp add: run_ops_def)
next
  case (answer r x us es r')
  then have "settled_routes (r\<lparr>proj := end_op x (proj r), waiting := us\<rparr>) = settled_routes r"
    by (simp add: settled_routes_def shown_end_op)
  with answer show ?case by simp
qed

text \<open>
  C40: as long as answers arrive in the order of the calls, interleaving does not matter. When all have
  been delivered, the routes shown and the routes kept are those of the same operations run one
  after the other, whatever the executor.
\<close>

theorem in_order_like_sequential:
  assumes "in_order execute \<lparr>proj = p, kept = s, waiting = []\<rparr> es r" and "waiting r = []"
    and "run_ops execute es (p, s) = (q, t)"
  shows "proj_routes (proj r) = proj_routes q \<and> kept r = t"
  using in_order_routes [OF assms(1), of p] assms(2, 3) by (simp add: settled_routes_def)

theorem in_order_like_sequential_witness:
  "\<exists>r q t. in_order mock_execute \<lparr>proj = initial_projection, kept = [], waiting = []\<rparr>
        [(''u'', 0, OpSave sample_draft), (''u'', 5, OpToggle ''r1'' False)] r \<and> waiting r = [] \<and>
     run_ops mock_execute [(''u'', 0, OpSave sample_draft), (''u'', 5, OpToggle ''r1'' False)] (initial_projection, []) = (q, t) \<and>
     proj_routes (proj r) = proj_routes q"
proof -
  let ?idle = "\<lparr>proj = initial_projection, kept = [], waiting = []\<rparr>" and ?a = "(''u'', 0, OpSave sample_draft)" and ?b = "(''u'', 5, OpToggle ''r1'' False)"
  obtain x p1 s1 where 1: "begin_op mock_execute ?a ?idle = \<lparr>proj = p1, kept = s1, waiting = [x]\<rparr>"
    by (rule begin_op_shape [of mock_execute "?a" "?idle"]) simp
  obtain y p2 s2 where 2: "begin_op mock_execute ?b \<lparr>proj = p1, kept = s1, waiting = [x]\<rparr> = \<lparr>proj = p2, kept = s2, waiting = [x, y]\<rparr>"
    by (rule begin_op_shape [of mock_execute "?b" "\<lparr>proj = p1, kept = s1, waiting = [x]\<rparr>"]) simp
  let ?r = "\<lparr>proj = end_op y (end_op x p2), kept = s2, waiting = []\<rparr>"
  have "in_order mock_execute \<lparr>proj = end_op x p2, kept = s2, waiting = [y]\<rparr> [] ?r"
    by (rule answer [of _ y "[]"]) (simp_all add: rest)
  then have "in_order mock_execute \<lparr>proj = p2, kept = s2, waiting = [x, y]\<rparr> [] ?r"
    by (intro answer [of "\<lparr>proj = p2, kept = s2, waiting = [x, y]\<rparr>" x "[y]"]) simp_all
  with 1 2 have r: "in_order mock_execute ?idle [?a, ?b] ?r" by (intro call) simp
  obtain q t where q: "run_ops mock_execute [?a, ?b] (initial_projection, []) = (q, t)" by fastforce
  from in_order_like_sequential [OF r _ q] r q show ?thesis by fastforce
qed

text \<open>
  The flag is less faithful: while it is on something is in flight, but the first answer turns it
  off although another operation is still waiting for its own.
\<close>

lemma pending_means_waiting:
  assumes "process_step execute r r'" and "pending (proj r) \<longrightarrow> waiting r \<noteq> []"
  shows "pending (proj r') \<longrightarrow> waiting r' \<noteq> []"
  using assms
proof cases
  case (begins e)
  then show ?thesis by (auto simp: begin_op_def split: prod.splits)
next
  case (ends ts x us)
  have "\<not> pending (end_op x p)" for p by (auto simp: end_op_def setPending_def split: prod.split)
  with ends show ?thesis by simp
qed

lemma pending_off_too_early:
  "\<exists>r1 r2 r3. process_step execute \<lparr>proj = p, kept = s, waiting = []\<rparr> r1 \<and> process_step execute r1 r2 \<and> process_step execute r2 r3 \<and>
     \<not> pending (proj r3) \<and> length (waiting r3) = 1"
proof -
  fix e :: "string \<times> int \<times> process_op"
  let ?idle = "\<lparr>proj = p, kept = s, waiting = []\<rparr>"
  obtain x p1 s1 where 1: "begin_op execute e ?idle = \<lparr>proj = p1, kept = s1, waiting = [x]\<rparr>"
    by (rule begin_op_shape [of execute "e" "?idle"]) simp
  obtain y p2 s2 where 2: "begin_op execute e \<lparr>proj = p1, kept = s1, waiting = [x]\<rparr> = \<lparr>proj = p2, kept = s2, waiting = [x, y]\<rparr>"
    by (rule begin_op_shape [of execute "e" "\<lparr>proj = p1, kept = s1, waiting = [x]\<rparr>"]) simp
  have 3: "process_step execute \<lparr>proj = p2, kept = s2, waiting = [x, y]\<rparr> \<lparr>proj = end_op x p2, kept = s2, waiting = [y]\<rparr>"
    using ends [of "\<lparr>proj = p2, kept = s2, waiting = [x, y]\<rparr>" "[]" x "[y]" execute] by simp
  have "\<not> pending (end_op x p2)" by (auto simp: end_op_def setPending_def split: prod.split)
  with 3 begins [of execute ?idle e] begins [of execute "\<lparr>proj = p1, kept = s1, waiting = [x]\<rparr>" e] 1 2
  show ?thesis by (metis length_Cons list.size(3) One_nat_def running.select_convs(1) running.select_convs(3))
qed

end
