(* ===== verification/Views.thy ===== *)
theory Views
  imports Entities
begin

text \<open>
  What a React component renders, as data: a tree of elements with their handlers, and what a browser
  does with it. Handlers are values of a type \<open>'a\<close> of actions, so the same tree can be inspected and
  run. Styling and animation are left out. The second half models the form kit
  (\<open>packages/shared/src/ui-kit/form.tsx\<close>, \<open>form-hooks.ts\<close>, \<open>button.tsx\<close>). The form library
  stays a parameter: its values, and the error \<open>getFieldState\<close> reports for a field.
\<close>

subsection \<open>Elements\<close>

datatype button_type = SubmitType | ButtonType

text \<open>The attributes the form kit gives a control: \<open>id\<close>, \<open>aria-describedby\<close>, \<open>aria-invalid\<close>.\<close>

record control_attrs =
  attr_id :: string
  describedBy :: "string list"
  invalid :: bool

text \<open>
  \<open>Clickable\<close> is an element with an \<open>onClick\<close> handler; with \<open>None\<close> the handler only stops the
  event. A button has the list of what its handler calls, in order. \<open>Message\<close> is the error text of a
  field.
\<close>

datatype 'a view =
    Txt string
  | Element "'a view list"
  | Clickable "'a option" "'a view list"
  | Label string bool string
  | Message string string
  | Input "control_attrs option" string js "string \<Rightarrow> 'a"
  | Checkbox string bool "bool \<Rightarrow> 'a list"
  | Button button_type bool "'a list" "'a view list"
  | Form 'a "'a view list"

text \<open>A component either renders or throws; an error anywhere in a tree is an error of the whole.\<close>

type_synonym 'a rendering = "js_error + 'a view"

fun children :: "'a rendering list \<Rightarrow> js_error + 'a view list" where
  "children [] = Inr []"
| "children (Inl e # rs) = Inl e"
| "children (Inr v # rs) = map_sum id (Cons v) (children rs)"

definition element :: "'a rendering list \<Rightarrow> 'a rendering" where
  "element rs = map_sum id Element (children rs)"

definition renders :: "'a rendering \<Rightarrow> bool" where
  "renders r \<longleftrightarrow> \<not> isl r"

text \<open>A JavaScript value as a child: objects throw, booleans and missing values show nothing.\<close>

fun renderable :: "js \<Rightarrow> bool" where
  "renderable (JObj _) = False"
| "renderable (JDate _) = False"
| "renderable (JArr xs) = list_all renderable xs"
| "renderable _ = True"

fun child_text :: "js \<Rightarrow> string" where
  "child_text (JStr s) = s"
| "child_text (JNum n) = num_to_string n"
| "child_text (JArr xs) = concat (map child_text xs)"
| "child_text _ = []"

definition js_child :: "js \<Rightarrow> 'a rendering" where
  "js_child v = (if renderable v then Inr (Txt (child_text v)) else Inl (Error ''Objects are not valid as a React child''))"

text \<open>\<open>{v && element}\<close>: a falsy value is itself the child.\<close>

definition and_then :: "js \<Rightarrow> 'a rendering \<Rightarrow> 'a rendering" where
  "and_then v r = (if truthy v then r else js_child v)"

definition shown_if :: "bool \<Rightarrow> 'a rendering \<Rightarrow> 'a rendering list" where
  "shown_if b r = (if b then [r] else [])"

subsection \<open>What a browser does with them\<close>

fun text_of :: "'a view \<Rightarrow> string" where
  "text_of (Txt s) = s"
| "text_of (Element vs) = concat (map text_of vs)"
| "text_of (Clickable _ vs) = concat (map text_of vs)"
| "text_of (Label _ _ s) = s"
| "text_of (Message _ s) = s"
| "text_of (Input _ _ _ _) = []"
| "text_of (Checkbox s _ _) = s"
| "text_of (Button _ _ _ vs) = concat (map text_of vs)"
| "text_of (Form _ vs) = concat (map text_of vs)"

text \<open>
  The clicks a tree offers, with the actions each of them runs: the handler of the target, the
  handlers of the elements around it from the inside out, and, for a submit button, the handler of
  the form it stands in. A disabled button offers none.
\<close>

fun presses :: "'a list \<Rightarrow> 'a list \<Rightarrow> 'a view \<Rightarrow> (string \<times> 'a list) list" where
  "presses form outer (Element vs) = concat (map (presses form outer) vs)"
| "presses form outer (Clickable None vs) = concat (map (presses form []) vs)"
| "presses form outer (Clickable (Some a) vs) = ([], a # outer) # concat (map (presses form (a # outer)) vs)"
| "presses form outer (Form a vs) = concat (map (presses [a] outer) vs)"
| "presses form outer (Button t disabled acts vs) =
     (if disabled then []
      else [(concat (map text_of vs), acts @ outer @ (if t = SubmitType then form else []))])"
| "presses form outer _ = []"

text \<open>The submit buttons of a form in the order of the tree.\<close>

fun submit_buttons :: "'a view \<Rightarrow> 'a view list" where
  "submit_buttons (Element vs) = concat (map submit_buttons vs)"
| "submit_buttons (Clickable _ vs) = concat (map submit_buttons vs)"
| "submit_buttons (Form _ vs) = concat (map submit_buttons vs)"
| "submit_buttons (Button t disabled acts vs) = (if t = SubmitType then [Button t disabled acts vs] else [])"
| "submit_buttons _ = []"

text \<open>
  The Enter key in a field of a form clicks the form's first submit button, unless that is disabled;
  a form without one is submitted.
\<close>

fun enter_key :: "'a view \<Rightarrow> 'a list list" where
  "enter_key (Form a vs) =
     (case concat (map submit_buttons vs) of
        [] \<Rightarrow> [[a]]
      | b # _ \<Rightarrow> map snd (presses [a] [] b))"
| "enter_key (Element vs) = concat (map enter_key vs)"
| "enter_key (Clickable _ vs) = concat (map enter_key vs)"
| "enter_key _ = []"

text \<open>The fields a tree offers, by name, and what typing a text or setting a check mark runs.\<close>

fun text_fields :: "'a view \<Rightarrow> (string \<times> (string \<Rightarrow> 'a)) list" where
  "text_fields (Input _ name _ change) = [(name, change)]"
| "text_fields (Element vs) = concat (map text_fields vs)"
| "text_fields (Clickable _ vs) = concat (map text_fields vs)"
| "text_fields (Form _ vs) = concat (map text_fields vs)"
| "text_fields _ = []"

fun checks :: "'a view \<Rightarrow> (string \<times> (bool \<Rightarrow> 'a list)) list" where
  "checks (Checkbox name _ change) = [(name, change)]"
| "checks (Element vs) = concat (map checks vs)"
| "checks (Clickable _ vs) = concat (map checks vs)"
| "checks (Form _ vs) = concat (map checks vs)"
| "checks _ = []"

subsection \<open>The form kit\<close>

text \<open>What \<open>useFormField\<close> returns; \<open>item\<close> is the \<open>useId\<close> of the surrounding \<open>FormItem\<close>.\<close>

record form_field =
  ff_name :: string
  formItemId :: string
  formDescriptionId :: string
  formMessageId :: string
  ff_error :: js

definition useFormField :: "(string \<Rightarrow> js) \<Rightarrow> string \<Rightarrow> string \<Rightarrow> form_field" where
  "useFormField errors item name =
     \<lparr>ff_name = name, formItemId = item @ ''-form-item'', formDescriptionId = item @ ''-form-item-description'',
      formMessageId = item @ ''-form-item-message'', ff_error = errors name\<rparr>"

definition FormLabel :: "form_field \<Rightarrow> string \<Rightarrow> 'a view" where
  "FormLabel ff text = Label (formItemId ff) (truthy (ff_error ff)) text"

definition FormControl :: "form_field \<Rightarrow> control_attrs" where
  "FormControl ff =
     \<lparr>attr_id = formItemId ff,
      describedBy = (if \<not> truthy (ff_error ff) then [formDescriptionId ff] else [formDescriptionId ff, formMessageId ff]),
      invalid = truthy (ff_error ff)\<rparr>"

definition FormMessage :: "form_field \<Rightarrow> 'a view list" where
  "FormMessage ff =
     (let m = get (ff_error ff) ''message'';
          body = (if truthy (ff_error ff) then js_to_string (if m = JUndef \<or> m = JNull then JStr [] else m) else [])
      in if body = [] then [] else [Message (formMessageId ff) body])"

text \<open>\<open>FormField\<close> with the item the tabs put into it: label, control, message.\<close>

definition FormField ::
  "(string \<Rightarrow> js) \<Rightarrow> (string \<Rightarrow> string) \<Rightarrow> string \<Rightarrow> string \<Rightarrow> js \<Rightarrow> (string \<Rightarrow> 'a) \<Rightarrow> 'a view" where
  "FormField errors ids name label value change =
     (let ff = useFormField errors (ids name) name
      in Element ([FormLabel ff label, Input (Some (FormControl ff)) name value change] @ FormMessage ff))"

text \<open>A description is shown with the id the control names; no page has one.\<close>

definition FormDescription :: "form_field \<Rightarrow> string \<Rightarrow> 'a view" where
  "FormDescription ff text = Message (formDescriptionId ff) text"

text \<open>The animated frame of a tab: its children, in one element.\<close>

definition AnimatedTab :: "'a rendering list \<Rightarrow> 'a rendering" where
  "AnimatedTab rs = element rs"

text \<open>\<open>Button\<close> passes its properties on, so without a \<open>type\<close> it is a submit button.\<close>

definition ui_Button :: "button_type option \<Rightarrow> bool \<Rightarrow> 'a list \<Rightarrow> 'a view list \<Rightarrow> 'a view" where
  "ui_Button t disabled acts vs = Button (case t of None \<Rightarrow> SubmitType | Some t' \<Rightarrow> t') disabled acts vs"

subsection \<open>Lemmas\<close>

lemma children_map_Inr [simp]: "children (map Inr vs) = Inr vs"
  by (induction vs) auto

lemma children_InrD: "children rs = Inr vs \<Longrightarrow> rs = map Inr vs"
proof (induction rs arbitrary: vs rule: children.induct)
  case (3 v rs)
  then show ?case by (cases "children rs") auto
qed auto

lemma children_Inr: "children rs = Inr vs \<longleftrightarrow> rs = map Inr vs"
  using children_InrD by auto

lemma children_append: "children (rs @ qs) = (case children rs of Inl e \<Rightarrow> Inl e | Inr vs \<Rightarrow> map_sum id (append vs) (children qs))"
proof (induction rs)
  case Nil
  show ?case by (cases "children qs") auto
next
  case (Cons r rs)
  then show ?case by (cases r; cases "children rs"; cases "children qs") auto
qed

lemma renders_children: "(\<exists>vs. children rs = Inr vs) \<longleftrightarrow> list_all renders rs"
proof (induction rs)
  case (Cons r rs)
  then show ?case by (cases r; cases "children rs") (auto simp: renders_def)
qed simp

lemma renders_element [simp]: "renders (element rs) \<longleftrightarrow> list_all renders rs"
  using renders_children [of rs] by (cases "children rs") (auto simp: renders_def element_def)

lemma element_Inr [simp]: "element rs = Inr v \<longleftrightarrow> (\<exists>vs. v = Element vs \<and> rs = map Inr vs)"
proof (cases "children rs")
  case (Inl e)
  then have "rs \<noteq> map Inr vs" for vs by auto
  with Inl show ?thesis by (simp add: element_def)
next
  case (Inr vs)
  with children_InrD [OF Inr] show ?thesis by (auto simp: element_def)
qed

lemma renders_Inr [simp]: "renders (Inr v)" and renders_Inl [simp]: "\<not> renders (Inl e)"
  by (simp_all add: renders_def)

lemma renders_map_sum [simp]: "renders (map_sum id f r) \<longleftrightarrow> renders r"
  by (cases r) auto

lemma renders_js_child [simp]: "renders (js_child v) \<longleftrightarrow> renderable v"
  by (simp add: js_child_def)

lemma falsy_renderable: "\<not> truthy v \<Longrightarrow> renderable v"
  by (cases v) auto

lemma renders_and_then [simp]: "renders (and_then v r) \<longleftrightarrow> (truthy v \<longrightarrow> renders r)"
  by (auto simp: and_then_def falsy_renderable)

lemma shown_if_simps [simp]: "shown_if True r = [r]" "shown_if False r = []"
  by (simp_all add: shown_if_def)

lemma presses_Txt_list [simp]: "concat (map (presses form outer) (map Txt ts)) = []"
  by (induction ts) auto

lemma presses_FormField [simp]: "presses form outer (FormField errors ids name label value change) = []"
  by (simp add: FormField_def FormLabel_def FormMessage_def Let_def)

lemma text_fields_FormField [simp]: "text_fields (FormField errors ids name label value change) = [(name, change)]"
  by (simp add: FormField_def FormLabel_def FormMessage_def Let_def)

lemma checks_FormField [simp]: "checks (FormField errors ids name label value change) = []"
  by (simp add: FormField_def FormLabel_def FormMessage_def Let_def)

lemma submit_buttons_FormField [simp]: "submit_buttons (FormField errors ids name label value change) = []"
  by (simp add: FormField_def FormLabel_def FormMessage_def Let_def)

text \<open>The clicks of a component that renders, composed the way components are.\<close>

definition offers :: "'a list \<Rightarrow> 'a list \<Rightarrow> 'a rendering \<Rightarrow> 'a list list" where
  "offers form outer r = (case r of Inl _ \<Rightarrow> [] | Inr v \<Rightarrow> map snd (presses form outer v))"

lemma offers_Inr [simp]: "offers form outer (Inr v) = map snd (presses form outer v)"
  by (simp add: offers_def)

lemma offers_element: "list_all renders rs \<Longrightarrow> offers form outer (element rs) = concat (map (offers form outer) rs)"
proof -
  assume "list_all renders rs"
  then obtain vs where "children rs = Inr vs" using renders_children by blast
  moreover from this have "rs = map Inr vs" by (rule children_InrD)
  ultimately show ?thesis by (simp add: element_def map_concat comp_def)
qed

lemma offers_js_child [simp]: "offers form outer (js_child v) = []"
  by (simp add: offers_def js_child_def)

lemma offers_and_then [simp]: "offers form outer (and_then v r) = (if truthy v then offers form outer r else [])"
  by (simp add: and_then_def)

lemma offers_map_sum: "offers form outer (map_sum id f r) = (case r of Inl _ \<Rightarrow> [] | Inr v \<Rightarrow> map snd (presses form outer (f v)))"
  by (cases r) (auto simp: offers_def)

text \<open>
  The form kit links what it renders: the label points to the control, the control is marked invalid
  exactly when the field has an error, and an error text that is shown is one the control names.
\<close>

lemma form_field_linked:
  assumes "FormField errors ids name label value change = Element vs"
  shows "\<exists>attrs. vs ! 0 = Label (attr_id attrs) (invalid attrs) label \<and> vs ! 1 = Input (Some attrs) name value change \<and>
    (invalid attrs \<longleftrightarrow> truthy (errors name)) \<and> (\<forall>i t. Message i t \<in> set vs \<longrightarrow> i \<in> set (describedBy attrs) \<and> invalid attrs)"
  using assms
  by (auto simp: FormField_def FormLabel_def FormMessage_def FormControl_def useFormField_def Let_def split: if_splits)

end
