(* ===== verification/Route_Use_Cases.thy ===== *)
theory Route_Use_Cases
  imports Route_Repository
begin

text \<open>
  The use cases on routes, \<open>packages/core/src/useCases/routes.ts\<close> and \<open>routeForm.ts\<close>, and the
  factories of \<open>packages/shared/src/lib/factories.ts\<close>. The clock readings, the random suffix and
  the UUIDs are arguments. The lemmas about the use cases are proved once in the locale
  \<open>route_reader\<close>, for every repository that behaves like a map.
\<close>

subsection \<open>\<open>routes.ts\<close>\<close>

text \<open>\<open>stamp\<close> is \<open>Date.now()\<close>, \<open>rnd\<close> the base-36 suffix, \<open>c\<close> and \<open>u\<close> the two \<open>new Date()\<close>.\<close>

definition new_route_id :: "int \<Rightarrow> string \<Rightarrow> string" where
  "new_route_id stamp rnd = ''route_'' @ show_int stamp @ ''_'' @ rnd"

definition new_route :: "int \<Rightarrow> string \<Rightarrow> int \<Rightarrow> int \<Rightarrow> js \<Rightarrow> js" where
  "new_route stamp rnd c u routeData =
     JObj (spread (own_props routeData)
       [(''id'', JStr (new_route_id stamp rnd)),
        (''metadata'', JObj
           [(''createdAt'', JDate (Some c)), (''updatedAt'', JDate (Some u)),
            (''createdBy'', JStr ''system''), (''tags'', JArr [])])])"

definition createRoute ::
  "host \<Rightarrow> 's route_repository \<Rightarrow> int \<Rightarrow> string \<Rightarrow> int \<Rightarrow> int \<Rightarrow> js \<Rightarrow> ('s, js_error, string) io" where
  "createRoute z repository stamp rnd c u routeData =
     (if \<not> validateDomain z (get routeData ''domain'') then throw (Error ''Invalid domain format'')
      else if \<not> validatePort z (get routeData ''port'') then throw (Error ''Port must be between 1 and 65535'')
      else if \<not> validateUnixPath z (get routeData ''root'') then throw (Error ''Invalid path format'')
      else (let route = new_route stamp rnd c u routeData in
            case zod_parse z (RouteSchema z) route of
              Inl e \<Rightarrow> throw e
            | Inr _ \<Rightarrow> bind (rr_save repository route) (\<lambda>_. ret (new_route_id stamp rnd))))"

definition updated_route :: "int \<Rightarrow> js \<Rightarrow> js \<Rightarrow> js" where
  "updated_route now existing updates =
     JObj (spread (spread (own_props existing) (own_props updates))
       [(''metadata'',
         if truthy (get existing ''metadata'')
         then JObj (spread (own_props (get existing ''metadata'')) [(''updatedAt'', JDate (Some now))])
         else JUndef)])"

definition updateRoute ::
  "host \<Rightarrow> 's route_repository \<Rightarrow> int \<Rightarrow> string \<Rightarrow> js \<Rightarrow> ('s, js_error, unit) io" where
  "updateRoute z repository now i updates =
     bind (rr_findById repository i) (\<lambda>existing.
       if \<not> truthy existing then throw (Error ''Route not found'')
       else (let updatedRoute = updated_route now existing updates in
             case zod_parse z (RouteSchema z) updatedRoute of
               Inl e \<Rightarrow> throw e
             | Inr _ \<Rightarrow> rr_save repository updatedRoute))"

definition toggleRouteStatus ::
  "host \<Rightarrow> 's route_repository \<Rightarrow> int \<Rightarrow> string \<Rightarrow> ('s, js_error, unit) io" where
  "toggleRouteStatus z repository now i =
     bind (rr_findById repository i) (\<lambda>route.
       if \<not> truthy route then throw (Error ''Route not found'')
       else updateRoute z repository now i (JObj [(''enabled'', JBool (\<not> truthy (get route ''enabled'')))]))"

subsection \<open>\<open>routeForm.ts\<close>\<close>

definition validateForm :: "host \<Rightarrow> js \<Rightarrow> (string, string) jsmap" where
  "validateForm z formData =
     (if \<not> truthy (get formData ''domain'') \<or> \<not> validateDomain z (get formData ''domain'')
      then [(''domain'', ''Invalid domain format'')] else []) @
     (if \<not> truthy (get formData ''port'') \<or> \<not> validatePort z (get formData ''port'')
      then [(''port'', ''Port must be between 1 and 65535'')] else []) @
     (if \<not> truthy (get formData ''root'') \<or> \<not> validateUnixPath z (get formData ''root'')
      then [(''root'', ''Invalid path format'')] else [])"

definition issue_key :: "issue \<Rightarrow> string" where
  "issue_key i = (let k = join ''.'' (issue_path i) in if k = [] then ''location'' else k)"

definition validateLocationForm :: "host \<Rightarrow> js \<Rightarrow> (string, string) jsmap" where
  "validateLocationForm z location =
     (let errors = (if \<not> truthy (get location ''path'') \<or> \<not> validateURLPath z (get location ''path'')
                    then [(''path'', ''Invalid URL path format'')] else [])
      in case safeParse z LocationConfigSchema location of
           Inr _ \<Rightarrow> errors
         | Inl issues \<Rightarrow> fold (\<lambda>i. map_set (issue_key i) (issue_message i)) issues errors)"

definition createLocation :: "js \<Rightarrow> js" where
  "createLocation locationData = JObj (spread [(''path'', JStr ''/'')] (own_props locationData))"

definition addLocationToRoute :: "js list \<Rightarrow> js \<Rightarrow> js list" where
  "addLocationToRoute locations location = locations @ [location]"

text \<open>Assignment to an index: past the end the array grows, and a negative index is no element.\<close>

definition updateLocationInRoute :: "js list \<Rightarrow> int \<Rightarrow> js \<Rightarrow> js list" where
  "updateLocationInRoute locations index location =
     (if index < 0 then locations
      else if nat index < length locations then locations[nat index := location]
      else locations @ replicate (nat index - length locations) JUndef @ [location])"

definition removeLocation :: "js list \<Rightarrow> int \<Rightarrow> js list" where
  "removeLocation locations index =
     map snd (filter (\<lambda>(i, l). int i \<noteq> index) (enumerate 0 locations))"

subsection \<open>Factories\<close>

definition createBranded :: "js \<Rightarrow> js" where
  "createBranded value = value"

definition createLocationConfig :: "js \<Rightarrow> js" where
  "createLocationConfig overrides =
     JObj (spread
       [(''path'', createBranded (JStr ''/'')), (''proxy_pass'', JUndef), (''try_files'', JUndef),
        (''index'', JUndef), (''extra_directives'', JUndef)]
       (own_props overrides))"

definition createAdvancedConfig :: "js \<Rightarrow> js" where
  "createAdvancedConfig overrides =
     JObj (spread
       [(''client_max_body_size'', JStr ''1m''), (''keepalive_timeout'', JStr ''65s''),
        (''gzip'', JBool False), (''gzip_types'', JUndef), (''caching'', JBool False), (''cache_valid'', JUndef)]
       (own_props overrides))"

definition createRoute_factory :: "string \<Rightarrow> int \<Rightarrow> js \<Rightarrow> js" where
  "createRoute_factory uuid now overrides =
     JObj (spread
       [(''id'', JStr uuid),
        (''domain'', createBranded (JStr ''sh.ru'')),
        (''port'', createBranded (jint 80)),
        (''root'', createBranded (JStr ''/'')),
        (''enabled'', JBool True),
        (''ssl'', JBool False),
        (''ssl_certificate'', createBranded (JStr '''')),
        (''ssl_certificate_key'', createBranded (JStr '''')),
        (''proxy_pass'', JUndef),
        (''locations'', JArr []),
        (''advanced'', createAdvancedConfig (JObj [])),
        (''metadata'', JObj
           [(''createdAt'', JDate (Some now)), (''updatedAt'', JDate (Some now)),
            (''createdBy'', JStr ''system''), (''tags'', JArr [])])]
       (own_props overrides))"

definition createLogEntry_factory :: "string \<Rightarrow> int \<Rightarrow> js \<Rightarrow> js" where
  "createLogEntry_factory uuid now overrides =
     JObj (spread
       [(''id'', JStr uuid), (''timestamp'', JDate (Some now)), (''level'', JStr ''info''),
        (''message'', JStr ''''), (''source'', JStr ''system'')]
       (own_props overrides))"

definition createServerState :: "int \<Rightarrow> js \<Rightarrow> js" where
  "createServerState now overrides =
     JObj (spread
       [(''status'', JStr ''stopped''),
        (''stats'', JObj
           [(''requests'', jint 0), (''traffic'', JStr ''0b''), (''activeConnections'', jint 0),
            (''uptime'', jint 0), (''cpuUsage'', jint 0), (''memoryUsage'', jint 0)]),
        (''version'', JStr ''0.0.0''),
        (''lastUpdated'', JDate (Some now))]
       (own_props overrides))"

subsection \<open>Lemmas on the use cases\<close>

lemma rejected_parse: "zod_parse z sch v = Inl e \<longleftrightarrow> (\<exists>issues. safeParse z sch v = Inl issues \<and> e = ZodError issues (errorMessage z issues))"
  by (auto simp: zod_parse_def split: sum.splits)

text \<open>Whatever the repository does: an invalid route is never handed to it.\<close>

lemma createRoute_rejects:
  assumes "\<forall>out. \<not> accepts z (RouteSchema z) (new_route stamp rnd c u d) out"
  shows "\<exists>e. createRoute z repo stamp rnd c u d s = (Inl e, s)"
  using assms
  by (auto simp: createRoute_def accepts_def zod_parse_def Let_def split: sum.splits)

lemma createRoute_saves:
  assumes "validateDomain z (get d ''domain'')" "validatePort z (get d ''port'')" "validateUnixPath z (get d ''root'')"
    and "accepts z (RouteSchema z) (new_route stamp rnd c u d) out"
  shows "createRoute z repo stamp rnd c u d s =
    (case rr_save repo (new_route stamp rnd c u d) s of
       (Inl e, s') \<Rightarrow> (Inl e, s') | (Inr _, s') \<Rightarrow> (Inr (new_route_id stamp rnd), s'))"
  using assms by (simp add: createRoute_def accepts_def zod_parse_def Let_def bind_def split: prod.splits sum.splits)

text \<open>The fields of the new and of the updated route.\<close>

lemma new_route_id_field: "get (new_route stamp rnd c u d) ''id'' = JStr (new_route_id stamp rnd)"
  by (simp add: new_route_def)

lemma new_route_keeps:
  "k \<noteq> ''id'' \<Longrightarrow> k \<noteq> ''metadata'' \<Longrightarrow> get (new_route stamp rnd c u (JObj ps)) k = pget ps k"
  by (simp add: new_route_def)

lemma updated_route_field:
  "k \<noteq> ''metadata'' \<Longrightarrow> get (updated_route now (JObj ps) (JObj us)) k =
     (case map_of (rev us) k of Some v \<Rightarrow> v | None \<Rightarrow> pget ps k)"
  by (simp add: updated_route_def pget_spread)

context route_reader
begin

text \<open>\<open>createRoute\<close> adds the route under a new id.\<close>

lemma create_adds:
  assumes "inv s" and "storable (new_route stamp rnd c u d)"
    and "validateDomain z (get d ''domain'')" "validatePort z (get d ''port'')" "validateUnixPath z (get d ''root'')"
    and "accepts z (RouteSchema z) (new_route stamp rnd c u d) out"
  shows "\<exists>s'. createRoute z repo stamp rnd c u d s = (Inr (new_route_id stamp rnd), s') \<and> inv s' \<and>
    view s' = (view s)(new_route_id stamp rnd \<mapsto> norm (new_route stamp rnd c u d))"
  using createRoute_saves [OF assms(3-6), of repo s] save_law [OF assms(1, 2) new_route_id_field] by auto

lemma update_missing:
  assumes "inv s" and "view s i = None"
  shows "updateRoute z repo now i us s = (Inl (Error ''Route not found''), s)"
    and "toggleRouteStatus z repo now i s = (Inl (Error ''Route not found''), s)"
  using find_None [OF assms] by (simp_all add: updateRoute_def toggleRouteStatus_def bind_def)

lemma truthy_view: "inv s \<Longrightarrow> view s i = Some v \<Longrightarrow> truthy v"
  using view_law [of s i v] by (cases v) auto

lemma update_rejects:
  assumes "inv s" and "view s i = Some v"
    and "\<forall>out. \<not> accepts z (RouteSchema z) (updated_route now v us) out"
  shows "\<exists>e. updateRoute z repo now i us s = (Inl e, s)"
  using find_Some [OF assms(1, 2)] truthy_view [OF assms(1, 2)] assms(3)
  by (auto simp: updateRoute_def accepts_def zod_parse_def Let_def bind_def split: sum.splits)

lemma update_replaces:
  assumes "inv s" and "view s i = Some v" and "get (updated_route now v us) ''id'' = JStr i"
    and "storable (updated_route now v us)" and "accepts z (RouteSchema z) (updated_route now v us) out"
  shows "\<exists>s'. updateRoute z repo now i us s = (Inr (), s') \<and> inv s' \<and>
    view s' = (view s)(i \<mapsto> norm (updated_route now v us))"
  using save_law [OF assms(1, 4, 3)] find_Some [OF assms(1, 2)] truthy_view [OF assms(1, 2)] assms(5)
  by (auto simp: updateRoute_def accepts_def zod_parse_def Let_def bind_def)

lemma toggle_is_update:
  assumes "inv s" and "view s i = Some v"
  shows "toggleRouteStatus z repo now i s =
    updateRoute z repo now i (JObj [(''enabled'', JBool (\<not> truthy (get v ''enabled'')))]) s"
  using find_Some [OF assms] truthy_view [OF assms] by (simp add: toggleRouteStatus_def bind_def)

end

subsection \<open>New routes in the browser repository\<close>

lemma map_set_last: "k \<notin> fst ` set ps \<Longrightarrow> map_set k v ps = ps @ [(k, v)]"
  by (rule map_set_fresh)

lemma new_route_dated:
  assumes "''id'' \<notin> fst ` set ps" and "''metadata'' \<notin> fst ` set ps"
  shows "new_route stamp rnd c u (JObj ps) =
    dated_route (ps @ [(''id'', JStr (new_route_id stamp rnd))]) (JDate (Some c)) (JDate (Some u)) small_metadata"
  using assms by (simp add: new_route_def dated_route_def small_metadata_def map_set_last)

lemma digit_plain: "is_digit c \<Longrightarrow> plain_char c"
  by (auto simp: plain_char_def is_space_def is_digit_def in_range_def code_of_def)

lemma new_route_id_plain: "list_all plain_char rnd \<Longrightarrow> list_all plain_char (new_route_id stamp rnd)"
  using show_nat_digits digit_plain
  by (auto simp: new_route_id_def show_int_def list_all_iff) (simp_all add: plain_char_def is_space_def in_range_def code_of_def)

lemma clean_props_append: "clean_props ps \<Longrightarrow> clean_props qs \<Longrightarrow> clean_props (ps @ qs)"
  by (simp add: clean_props_def stored_props_append)

lemma clean_id_prop: "list_all plain_char i \<Longrightarrow> clean_props [(''id'', JStr i)]"
  by (simp add: clean_props_def stored_props_Cons id_not_sensitive stored_plain)


definition form_data :: props where
  "form_data =
     [(''domain'', JStr ''sh.ru''), (''port'', jint 80), (''root'', JStr ''/var''), (''enabled'', JBool True),
      (''ssl'', JBool False), (''locations'', JArr [])]"

lemma form_data_valid:
  "validateDomain zod_reference (pget form_data ''domain'')" "validatePort zod_reference (pget form_data ''port'')"
  "validateUnixPath zod_reference (pget form_data ''root'')"
  by code_simp+

lemma form_data_names:
  "\<not> isSensitiveFieldName ''domain''" "\<not> isSensitiveFieldName ''port''" "\<not> isSensitiveFieldName ''root''"
  "\<not> isSensitiveFieldName ''enabled''" "\<not> isSensitiveFieldName ''ssl''" "\<not> isSensitiveFieldName ''locations''"
  unfolding isSensitiveFieldName_word by code_simp+

lemma form_data_clean: "clean_props form_data"
proof -
  have "list_all plain_char ''sh.ru''" "list_all plain_char ''/var''" by code_simp+
  then show ?thesis
    by (simp add: form_data_def clean_props_def stored_props_Cons form_data_names stored_plain) (simp add: stored_def jint_def)
qed

lemma form_data_accepted:
  "\<exists>out. accepts zod_reference (RouteSchema zod_reference) (new_route 5 ''ab'' 0 1 (JObj form_data)) out"
proof -
  have "ref_out (RouteSchema zod_reference) (new_route 5 ''ab'' 0 1 (JObj form_data)) \<noteq> None" by code_simp
  then show ?thesis by (auto simp: accepts_reference)
qed


text \<open>
  C26: validation comes before every write, for any repository: when the schema rejects the new
  route, \<open>createRoute\<close> throws and the store is untouched; when the schema rejects the merged route,
  \<open>updateRoute\<close> on a repository that behaves like a map (here \<open>LocalStorageRouteRepository\<close>) throws
  and the store is untouched.
\<close>

theorem invalid_routes_never_stored:
  assumes "\<forall>out. \<not> accepts z (RouteSchema z) (new_route stamp rnd c u d) out"
    and "ls_inv t" and "ls_view t i = Some v"
    and "\<forall>out. \<not> accepts z (RouteSchema z) (updated_route now v us) out"
  shows "(\<exists>e. createRoute z repo stamp rnd c u d s = (Inl e, s)) \<and>
    (\<exists>e. updateRoute z LocalStorageRouteRepository now i us t = (Inl e, t))"
  by (rule conjI [OF createRoute_rejects [OF assms(1)] ls.update_rejects [OF assms(2-4)]])

definition small_store :: storage where
  "small_store = [ls_key \<mapsto> Text (JArr [JArr [JStr ''r1'', small_route]])]"

lemma small_store_inv: "ls_inv small_store" "ls_view small_store ''r1'' = Some small_route"
proof -
  have r: "ls_read small_store = [(JStr ''r1'', small_route)]"
    by (simp add: small_store_def ls_read_def getItem_def elem_def map_new_def map_set_Nil)
  moreover have "ls_entry_ok (JStr ''r1'', small_route)"
    using small_route_clean by (simp add: ls_entry_ok_def clean_id_def small_route_def stored_JObj clean_props_def)
  ultimately show "ls_inv small_store" by (simp add: ls_inv_def map_wf_def)
  show "ls_view small_store ''r1'' = Some small_route" by (simp add: ls_view_def r)
qed

theorem invalid_routes_never_stored_witness:
  "(\<exists>e. createRoute zod_reference LocalStorageRouteRepository 5 ''ab'' 0 1 (JObj []) small_store = (Inl e, small_store)) \<and>
   (\<exists>e. updateRoute zod_reference LocalStorageRouteRepository 9 ''r1'' (JObj []) small_store = (Inl e, small_store))"
proof -
  have d: "\<not> domain_wf (get (new_route 5 ''ab'' 0 1 (JObj [])) ''domain'')"
    "\<not> domain_wf (get (updated_route 9 small_route (JObj [])) ''domain'')"
    by (simp_all add: new_route_def updated_route_def small_route_def domain_wf_def)
  have reject: "\<not> domain_wf (get v ''domain'') \<Longrightarrow> \<forall>out. \<not> accepts zod_reference (RouteSchema zod_reference) v out" for v
    using zref.route_accepts_domain [of v] by blast
  show ?thesis
    by (rule invalid_routes_never_stored [OF reject [OF d(1)] small_store_inv reject [OF d(2)]])
qed

text \<open>
  Toggling a route on a store that keeps its routes in a map flips \<open>enabled\<close>, leaves every other
  field but the metadata, and every other route, as they were; on an unknown id it throws and
  changes nothing.
\<close>

theorem toggleRouteStatus_flips:
  assumes "map_inv m" and "map_of m (JStr i) = Some (JObj ps)"
    and "accepts z (RouteSchema z) (updated_route now (JObj ps) (JObj [(''enabled'', JBool (\<not> truthy (pget ps ''enabled'')))])) out"
    and "map_of m (JStr j) = None"
  shows "(\<exists>m' r. toggleRouteStatus z map_repository now i m = (Inr (), m') \<and> map_inv m' \<and>
      map_of m' (JStr i) = Some r \<and> get r ''enabled'' = JBool (\<not> truthy (pget ps ''enabled'')) \<and>
      (\<forall>k. k = ''enabled'' \<or> k = ''metadata'' \<or> get r k = pget ps k) \<and>
      (\<forall>l. l = i \<or> map_of m' (JStr l) = map_of m (JStr l))) \<and>
    toggleRouteStatus z map_repository now j m = (Inl (Error ''Route not found''), m)"
proof -
  let ?us = "[(''enabled'', JBool (\<not> truthy (pget ps ''enabled'')))]"
  let ?r = "updated_route now (JObj ps) (JObj ?us)"
  have v: "map_view m i = Some (JObj ps)" using assms(2) by (simp add: map_view_def)
  have fields: "get ?r k = (if k = ''enabled'' then JBool (\<not> truthy (pget ps ''enabled'')) else pget ps k)"
    if "k \<noteq> ''metadata''" for k
    using updated_route_field [OF that, of now ps ?us] by simp
  have id: "get ?r ''id'' = JStr i"
    using adapter.view_law [OF assms(1) v] fields [of "''id''"] by simp
  then have "has_id ?r" by (simp add: has_id_def updated_route_def)
  from adapter.update_replaces [OF assms(1) v id this assms(3)]
  obtain m' where m': "updateRoute z map_repository now i (JObj ?us) m = (Inr (), m')" "map_inv m'"
    "map_view m' = (map_view m)(i \<mapsto> ?r)"
    by (auto simp: identity_def)
  have "toggleRouteStatus z map_repository now i m = (Inr (), m')"
    using adapter.toggle_is_update [OF assms(1) v] m'(1) by simp
  moreover have "map_of m' (JStr l) = (if l = i then Some ?r else map_of m (JStr l))" for l
    using fun_cong [OF m'(3), of l] by (simp add: map_view_def)
  moreover have "toggleRouteStatus z map_repository now j m = (Inl (Error ''Route not found''), m)"
    using adapter.update_missing(2) [OF assms(1)] assms(4) by (simp add: map_view_def)
  moreover have "k = ''enabled'' \<or> k = ''metadata'' \<or> get ?r k = pget ps k" for k
    using fields [of k] by (cases "k = ''metadata''") simp_all
  ultimately show ?thesis using m'(2) fields [of "''enabled''"] by auto
qed

theorem toggleRouteStatus_flips_witness:
  "\<exists>m' r. toggleRouteStatus zod_reference map_repository 9 ''r'' [(JStr ''r'', JObj ((''id'', JStr ''r'') # form_data))] = (Inr (), m') \<and>
     map_of m' (JStr ''r'') = Some r \<and> get r ''enabled'' = JBool False"
proof -
  let ?ps = "(''id'', JStr ''r'') # form_data"
  have inv: "map_inv [(JStr ''r'', JObj ?ps)]" by (simp add: map_inv_def map_wf_def entry_ok_def)
  have look: "map_of [(JStr ''r'', JObj ?ps)] (JStr ''r'') = Some (JObj ?ps)"
    "map_of [(JStr ''r'', JObj ?ps)] (JStr ''q'') = None" by simp_all
  have "ref_out (RouteSchema zod_reference)
      (updated_route 9 (JObj ?ps) (JObj [(''enabled'', JBool (\<not> truthy (pget ?ps ''enabled'')))])) \<noteq> None"
    by code_simp
  then obtain out where a: "accepts zod_reference (RouteSchema zod_reference)
      (updated_route 9 (JObj ?ps) (JObj [(''enabled'', JBool (\<not> truthy (pget ?ps ''enabled'')))])) out"
    by (auto simp: accepts_reference)
  have "truthy (pget ?ps ''enabled'')" by (simp add: form_data_def)
  then show ?thesis using toggleRouteStatus_flips [OF inv look(1) a look(2)] by auto
qed

text \<open>
  The form is valid exactly when its domain is a valid domain, its port is a port, and its root
  is a non-empty Unix path: an empty root, which the route schema allows beside a proxy target, is
  always an error in the form.
\<close>

theorem validateForm_iff:
  assumes "zod z"
  shows "validateForm z f = [] \<longleftrightarrow>
    domain_wf (get f ''domain'') \<and> truthy (get f ''port'') \<and> port_wf (port_preprocess (get f ''port'')) \<and>
    (\<exists>s. get f ''root'' = JStr s \<and> test unix_path_re s)"
proof -
  have d: "validateDomain z v \<longleftrightarrow> domain_wf v" "validatePort z v \<longleftrightarrow> port_wf (port_preprocess v)" for v
    using zod.domain_accepts [OF assms] zod.port_accepts [OF assms]
    by (auto simp: validateDomain_def validatePort_def makeValidator_iff)
  have r: "truthy v \<and> validateUnixPath z v \<longleftrightarrow> (\<exists>s. v = JStr s \<and> test unix_path_re s)" for v
  proof -
    have "validateUnixPath z v \<longleftrightarrow> (\<exists>out. accepts z UnixPathSchema v out)"
      by (simp add: validateUnixPath_def makeValidator_iff)
    also have "\<dots> \<longleftrightarrow> (\<exists>s. v = JStr s \<and> test unix_path_re s) \<or> v = JStr []"
      by (auto simp: UnixPathSchema_def zod.check_laws [OF assms] zod.or_law [OF assms] zod.string_law [OF assms]
          zod.literal_law [OF assms] is_str_iff)
    finally show ?thesis using test_unix_path_re by auto
  qed
  have t: "domain_wf v \<Longrightarrow> truthy v" for v
    using valid_domain_safe by (auto simp: domain_wf_def is_str_iff)
  show ?thesis using r [of "get f ''root''"] t [of "get f ''domain''"] by (auto simp: validateForm_def d)
qed

theorem validateForm_iff_witness:
  "validateForm zod_reference (JObj [(''domain'', JStr ''sh.ru''), (''port'', jint 80), (''root'', JStr [])]) \<noteq> []"
  using validateForm_iff [OF zref.zod_axioms] by (auto dest: test_unix_path_re)

text \<open>
  Editing the list of locations: removing the location that was just added gives the old list
  back, replacing the last location is adding the new one instead, removing an index that is not in
  the list changes nothing, and assigning to the index after the last one appends.
\<close>

theorem locations_edit:
  "removeLocation (addLocationToRoute ls l) (int (length ls)) = ls \<and>
   updateLocationInRoute (addLocationToRoute ls l) (int (length ls)) l' = addLocationToRoute ls l' \<and>
   removeLocation ls (int (length ls + n)) = ls \<and>
   updateLocationInRoute ls (int (length ls)) l = addLocationToRoute ls l"
proof -
  have keep: "map snd (filter (\<lambda>(i, l). i \<noteq> k) (enumerate a xs)) = xs"
    if "k < a \<or> a + length xs \<le> k" for k a and xs :: "js list"
    using that by (induction xs arbitrary: a) (auto simp: case_prod_unfold)
  show ?thesis
    by (simp add: removeLocation_def addLocationToRoute_def updateLocationInRoute_def enumerate_append_eq keep
        del: of_nat_add)
qed

end
