(* ===== verification/Route_Stores.thy ===== *)
theory Route_Stores
  imports Route_Use_Cases Logs_Server Config_Generator
begin

text \<open>
  The client stores of routes: \<open>routesSlice\<close>, \<open>routeFormSlice\<close>, the modal store
  \<open>useRouteFormStore\<close>, the hook \<open>useRoutesRepository\<close>, the subscriptions of
  \<open>storeIntegrations.ts\<close> and the hooks \<open>useRouteOperations\<close>, \<open>useRoutePreview\<close> and
  \<open>useRoutesList\<close> of the web application. An asynchronous action runs on the pair of the store's
  state and the repository's store.
\<close>

subsection \<open>The routes store\<close>

record routes_state =
  routes :: routes_map
  currentRouteId :: "string option"
  isLoading :: bool
  error :: "string option"

type_synonym ('s, 'a) rs_io = "(routes_state \<times> 's, js_error, 'a) io"

definition initial_routes :: routes_state where
  "initial_routes = \<lparr>routes = [], currentRouteId = None, isLoading = False, error = None\<rparr>"

definition sanitizeRoutesMap :: "routes_map \<Rightarrow> routes_map" where
  "sanitizeRoutesMap m = map_new (map (\<lambda>(i, route). (i, sanitizeForJson route)) m)"

text \<open>A call of the repository, and \<open>try ... catch (error) { set({ error }); throw error; }\<close>.\<close>

definition on_repository :: "('s, js_error, 'a) io \<Rightarrow> ('s, 'a) rs_io" where
  "on_repository m = (\<lambda>(st, s). let (r, s') = m s in (r, (st, s')))"

definition redacted_message :: "js_error \<Rightarrow> string" where
  "redacted_message e = redactPotentialSecrets (err_message e)"

definition recording :: "('s, 'a) rs_io \<Rightarrow> ('s, 'a) rs_io" where
  "recording m = (\<lambda>w. case m w of
       (Inl e, (st, s)) \<Rightarrow> (Inl e, (st\<lparr>error := Some (redacted_message e)\<rparr>, s))
     | (Inr x, w') \<Rightarrow> (Inr x, w'))"

definition store_addRoute ::
  "host \<Rightarrow> 's route_repository \<Rightarrow> int \<Rightarrow> string \<Rightarrow> int \<Rightarrow> int \<Rightarrow> js \<Rightarrow> ('s, string) rs_io" where
  "store_addRoute z repository stamp rnd c u routeData =
     recording (on_repository (createRoute z repository stamp rnd c u routeData))"

definition store_updateRoute :: "host \<Rightarrow> 's route_repository \<Rightarrow> int \<Rightarrow> string \<Rightarrow> js \<Rightarrow> ('s, unit) rs_io" where
  "store_updateRoute z repository now i updates = recording (on_repository (updateRoute z repository now i updates))"

definition store_deleteRoute :: "'s route_repository \<Rightarrow> string \<Rightarrow> ('s, unit) rs_io" where
  "store_deleteRoute repository i =
     recording (bind (on_repository (rr_delete repository i)) (\<lambda>_ (st, s).
       (Inr (), (st\<lparr>currentRouteId := if currentRouteId st = Some i then None else currentRouteId st\<rparr>, s))))"

definition store_toggleRouteStatus :: "host \<Rightarrow> 's route_repository \<Rightarrow> int \<Rightarrow> string \<Rightarrow> ('s, unit) rs_io" where
  "store_toggleRouteStatus z repository now i = recording (on_repository (toggleRouteStatus z repository now i))"

definition setCurrentRoute :: "string option \<Rightarrow> routes_state \<Rightarrow> routes_state" where
  "setCurrentRoute i st = st\<lparr>currentRouteId := i\<rparr>"

definition loadRoutes :: "'s route_repository \<Rightarrow> ('s, unit) rs_io" where
  "loadRoutes repository = (\<lambda>(st0, s).
     let st = st0\<lparr>isLoading := True, error := None\<rparr> in
     case rr_loadAll repository s of
       (Inr m, s') \<Rightarrow> (Inr (), (st\<lparr>routes := sanitizeRoutesMap m, isLoading := False\<rparr>, s'))
     | (Inl e, s') \<Rightarrow> (Inr (), (st\<lparr>error := Some (redacted_message e), isLoading := False\<rparr>, s')))"

definition saveRoutes :: "'s route_repository \<Rightarrow> ('s, bool) rs_io" where
  "saveRoutes repository = (\<lambda>(st, s).
     case rr_saveAll repository (routes st) s of
       (Inr _, s') \<Rightarrow> (Inr True, (st, s'))
     | (Inl e, s') \<Rightarrow> (Inr False, (st\<lparr>error := Some (redacted_message e)\<rparr>, s')))"

subsection \<open>The repository hook\<close>

text \<open>
  The hook captures the routes of the render in which it was called: reads go to that snapshot and
  updaters are applied to it, then the result becomes the store's routes and is saved.
\<close>

definition useRoutesRepository :: "'s route_repository \<Rightarrow> routes_map \<Rightarrow> (routes_state \<times> 's) route_repository" where
  "useRoutesRepository repository snapshot =
     createRouteRepositoryAdapter (\<lambda>_. snapshot)
       (\<lambda>updater (st, s). snd (saveRoutes repository (st\<lparr>routes := map_new (updater snapshot)\<rparr>, s)))"

subsection \<open>The form store\<close>

record form_state =
  isEditing :: bool
  formData :: js
  isLocationModalOpen :: bool
  editingLocationIndex :: "int option"
  locationFormData :: js
  validationErrors :: "(string, string) jsmap"

definition initialRouteForm :: js where
  "initialRouteForm = JObj
     [(''domain'', JStr []), (''port'', jint 80), (''root'', JStr ''/var/www/html''), (''enabled'', JBool True),
      (''ssl'', JBool False), (''locations'', JArr []),
      (''advanced'', JObj
         [(''client_max_body_size'', JStr ''1m''), (''keepalive_timeout'', JStr ''65s''), (''gzip'', JBool True),
          (''gzip_types'', JStr ''text/plain text/css application/json''), (''caching'', JBool False),
          (''cache_valid'', JStr ''5m'')])]"

definition initialLocationForm :: js where
  "initialLocationForm = JObj
     [(''path'', JStr ''/''), (''proxy_pass'', JUndef), (''try_files'', JUndef), (''index'', JStr ''index.html''),
      (''extra_directives'', JStr [])]"

definition initial_form :: form_state where
  "initial_form = \<lparr>isEditing = False, formData = initialRouteForm, isLocationModalOpen = False,
     editingLocationIndex = None, locationFormData = initialLocationForm, validationErrors = []\<rparr>"

definition setField :: "string \<Rightarrow> js \<Rightarrow> form_state \<Rightarrow> form_state" where
  "setField field value st = st\<lparr>
     formData := sanitizeForJson (JObj (spread (own_props (formData st)) [(field, value)])),
     validationErrors := map_set field [] (validationErrors st)\<rparr>"

definition setAdvancedField :: "string \<Rightarrow> js \<Rightarrow> form_state \<Rightarrow> form_state" where
  "setAdvancedField field value st = st\<lparr>
     formData := JObj (spread (own_props (formData st))
       [(''advanced'', sanitizeForJson (JObj (spread (own_props (get (formData st) ''advanced'')) [(field, value)])))])\<rparr>"

definition setLocationField :: "string \<Rightarrow> js \<Rightarrow> form_state \<Rightarrow> form_state" where
  "setLocationField field value st = st\<lparr>
     locationFormData := sanitizeForJson (JObj (spread (own_props (locationFormData st)) [(field, value)]))\<rparr>"

text \<open>\<open>formData.locations?.[index]\<close>.\<close>

definition location_at :: "js \<Rightarrow> int \<Rightarrow> js" where
  "location_at fd index = (if index < 0 then JUndef else elem (elems_of (get fd ''locations'')) (nat index))"

definition openLocationModal :: "int option \<Rightarrow> form_state \<Rightarrow> form_state" where
  "openLocationModal index st = st\<lparr>
     isLocationModalOpen := True,
     editingLocationIndex := index,
     locationFormData :=
       (case index of
          Some i \<Rightarrow> if truthy (location_at (formData st) i)
                    then sanitizeForJson (JObj (own_props (location_at (formData st) i))) else initialLocationForm
        | None \<Rightarrow> initialLocationForm)\<rparr>"

definition closeLocationModal :: "form_state \<Rightarrow> form_state" where
  "closeLocationModal st = st\<lparr>isLocationModalOpen := False, editingLocationIndex := None,
     locationFormData := initialLocationForm\<rparr>"

definition with_locations :: "js \<Rightarrow> js list \<Rightarrow> js" where
  "with_locations fd ls = sanitizeForJson (JObj (spread (own_props fd) [(''locations'', JArr ls)]))"

definition addLocation :: "form_state \<Rightarrow> form_state" where
  "addLocation st =
     (let locations = elems_of (get (formData st) ''locations'');
          newLocation = createLocation (locationFormData st)
      in st\<lparr>formData := with_locations (formData st) (locations @ [newLocation]),
            isLocationModalOpen := False, locationFormData := initialLocationForm\<rparr>)"

definition updateLocation :: "form_state \<Rightarrow> form_state" where
  "updateLocation st =
     (let locations = elems_of (get (formData st) ''locations'');
          locations' =
            (case editingLocationIndex st of
               Some i \<Rightarrow> if truthy (location_at (formData st) i)
                         then locations[nat i := createLocation (locationFormData st)] else locations
             | None \<Rightarrow> locations)
      in st\<lparr>formData := with_locations (formData st) locations', isLocationModalOpen := False,
            editingLocationIndex := None, locationFormData := initialLocationForm\<rparr>)"

text \<open>\<open>splice(index, 1)\<close>: a negative index counts from the end.\<close>

definition splice_one :: "int \<Rightarrow> 'a list \<Rightarrow> 'a list" where
  "splice_one index xs =
     (let start = (if index < 0 then nat (max 0 (int (length xs) + index)) else nat index)
      in take start xs @ drop (Suc start) xs)"

definition deleteLocation :: "int \<Rightarrow> form_state \<Rightarrow> form_state" where
  "deleteLocation index st = st\<lparr>
     formData := with_locations (formData st) (splice_one index (elems_of (get (formData st) ''locations'')))\<rparr>"

definition resetForm :: "form_state \<Rightarrow> form_state" where
  "resetForm st = st\<lparr>formData := initialRouteForm, isEditing := False, validationErrors := []\<rparr>"

definition setFormData :: "js \<Rightarrow> form_state \<Rightarrow> form_state" where
  "setFormData route st = st\<lparr>formData := sanitizeForJson route, isEditing := truthy (get route ''id''),
     validationErrors := []\<rparr>"

definition store_validateForm :: "host \<Rightarrow> form_state \<Rightarrow> bool \<times> form_state" where
  "store_validateForm z st =
     (let errors = validateForm z (formData st) in (length errors = 0, st\<lparr>validationErrors := errors\<rparr>))"

subsection \<open>The modal store\<close>

datatype form_mode = CreateMode | EditMode
datatype active_tab = Basic | Locations | Advanced | Preview

record modal_state =
  modalOpen :: bool
  mode :: form_mode
  activeTab :: active_tab
  editing_index :: "int option"
  editing_value :: js

definition initial_modal :: modal_state where
  "initial_modal = \<lparr>modalOpen = False, mode = CreateMode, activeTab = Basic, editing_index = None, editing_value = JNull\<rparr>"

definition openForCreate :: "modal_state \<Rightarrow> modal_state" where
  "openForCreate st = st\<lparr>modalOpen := True, mode := CreateMode, activeTab := Basic\<rparr>"

definition openForEdit :: "modal_state \<Rightarrow> modal_state" where
  "openForEdit st = st\<lparr>modalOpen := True, mode := EditMode, activeTab := Basic\<rparr>"

definition closeModal :: "modal_state \<Rightarrow> modal_state" where
  "closeModal st = st\<lparr>modalOpen := False, editing_index := None, editing_value := JNull\<rparr>"

definition setActiveTab :: "active_tab \<Rightarrow> modal_state \<Rightarrow> modal_state" where
  "setActiveTab tab st = st\<lparr>activeTab := tab\<rparr>"

definition startEditLocation :: "int option \<Rightarrow> js \<Rightarrow> modal_state \<Rightarrow> modal_state" where
  "startEditLocation index val st = st\<lparr>editing_index := index, editing_value := sanitizeForJson val\<rparr>"

subsection \<open>Subscriptions\<close>

definition on_routes_change :: "routes_state \<Rightarrow> routes_state \<Rightarrow> form_state \<Rightarrow> form_state" where
  "on_routes_change state prevState form =
     (case handleRouteSelectionChange (currentRouteId state) (currentRouteId prevState) (routes state) of
        Some route \<Rightarrow> setFormData route form
      | None \<Rightarrow> if currentRouteId state = None \<and> currentRouteId prevState \<noteq> None then resetForm form else form)"

text \<open>The third subscription: a state with routes schedules a save of the state that is current when it fires.\<close>

definition autosave_scheduled :: "routes_state \<Rightarrow> bool" where
  "autosave_scheduled state \<longleftrightarrow> 0 < length (routes state)"

definition autosave_fires :: "'s route_repository \<Rightarrow> routes_state \<times> 's \<Rightarrow> routes_state \<times> 's" where
  "autosave_fires repository w = snd (saveRoutes repository w)"

subsection \<open>Hooks of the web application\<close>

record op_state =
  loading :: bool
  op_error :: "string option"
  success :: "string option"

definition wrap :: "string \<Rightarrow> ('w, js_error, 'a) io \<Rightarrow> op_state \<times> 'w \<Rightarrow> 'a option \<times> (op_state \<times> 'w)" where
  "wrap successMessage fn = (\<lambda>(o0, w).
     let o1 = o0\<lparr>loading := True, op_error := None, success := None\<rparr> in
     case fn w of
       (Inr res, w') \<Rightarrow> (Some res, (o1\<lparr>success := Some successMessage, loading := False\<rparr>, w'))
     | (Inl e, w') \<Rightarrow> (None, (o1\<lparr>op_error := Some (redacted_message e), loading := False\<rparr>, w')))"

abbreviation then_reload :: "'s route_repository \<Rightarrow> ('s, 'a) rs_io \<Rightarrow> ('s, unit) rs_io" where
  "then_reload repository m \<equiv> bind m (\<lambda>_. loadRoutes repository)"

definition op_create ::
  "host \<Rightarrow> 's route_repository \<Rightarrow> routes_map \<Rightarrow> int \<Rightarrow> string \<Rightarrow> int \<Rightarrow> int \<Rightarrow> js \<Rightarrow>
   op_state \<times> routes_state \<times> 's \<Rightarrow> unit option \<times> (op_state \<times> routes_state \<times> 's)" where
  "op_create z repository snapshot stamp rnd c u data =
     wrap ''Sohraneno'' (then_reload repository
       (createRoute z (useRoutesRepository repository snapshot) stamp rnd c u data))"

definition op_update ::
  "host \<Rightarrow> 's route_repository \<Rightarrow> routes_map \<Rightarrow> int \<Rightarrow> string \<Rightarrow> js \<Rightarrow>
   op_state \<times> routes_state \<times> 's \<Rightarrow> unit option \<times> (op_state \<times> routes_state \<times> 's)" where
  "op_update z repository snapshot now i updates =
     wrap ''Obnovleno'' (then_reload repository
       (updateRoute z (useRoutesRepository repository snapshot) now i updates))"

definition op_toggle ::
  "host \<Rightarrow> 's route_repository \<Rightarrow> routes_map \<Rightarrow> int \<Rightarrow> string \<Rightarrow>
   op_state \<times> routes_state \<times> 's \<Rightarrow> unit option \<times> (op_state \<times> routes_state \<times> 's)" where
  "op_toggle z repository snapshot now i =
     wrap ''Gotovo'' (then_reload repository
       (toggleRouteStatus z (useRoutesRepository repository snapshot) now i))"

definition op_remove ::
  "'s route_repository \<Rightarrow> routes_map \<Rightarrow> string \<Rightarrow>
   op_state \<times> routes_state \<times> 's \<Rightarrow> unit option \<times> (op_state \<times> routes_state \<times> 's)" where
  "op_remove repository snapshot i =
     wrap ''Udaleno'' (then_reload repository (rr_delete (useRoutesRepository repository snapshot) i))"

definition op_reset :: "op_state \<Rightarrow> op_state" where
  "op_reset st = st\<lparr>loading := False, op_error := None, success := None\<rparr>"

definition useRoutePreview :: "host \<Rightarrow> js \<Rightarrow> string" where
  "useRoutePreview z values =
     (case zod_parse z (RouteSchema z) values of
        Inr route \<Rightarrow> generateConfigPreview route
      | Inl _ \<Rightarrow> ''# Oshibka konfiguracii'')"

definition useRoutesList :: "routes_state \<Rightarrow> js list \<times> bool \<times> string option" where
  "useRoutesList st = (map snd (routes st), isLoading st, error st)"

subsection \<open>Sequences of form actions\<close>

datatype form_action =
    SetField string js
  | SetAdvancedField string js
  | SetLocationField string js
  | OpenLocationModal "int option"
  | CloseLocationModal
  | AddLocation
  | UpdateLocation
  | DeleteLocation int
  | ResetForm
  | SetFormData js
  | ValidateForm

fun form_step :: "host \<Rightarrow> form_action \<Rightarrow> form_state \<Rightarrow> form_state" where
  "form_step z (SetField f v) = setField f v"
| "form_step z (SetAdvancedField f v) = setAdvancedField f v"
| "form_step z (SetLocationField f v) = setLocationField f v"
| "form_step z (OpenLocationModal i) = openLocationModal i"
| "form_step z CloseLocationModal = closeLocationModal"
| "form_step z AddLocation = addLocation"
| "form_step z UpdateLocation = updateLocation"
| "form_step z (DeleteLocation i) = deleteLocation i"
| "form_step z ResetForm = resetForm"
| "form_step z (SetFormData r) = setFormData r"
| "form_step z ValidateForm = (\<lambda>st. snd (store_validateForm z st))"

inductive form_reachable :: "host \<Rightarrow> form_state \<Rightarrow> bool" for z where
  form_start: "form_reachable z initial_form"
| form_action: "form_reachable z st \<Longrightarrow> form_reachable z (form_step z a st)"

definition form_clean :: "form_state \<Rightarrow> bool" where
  "form_clean st \<longleftrightarrow> \<not> hasSensitiveFieldName (formData st) \<and> \<not> hasSensitiveFieldName (locationFormData st)"

lemma digits_not_sensitive: "isSensitiveFieldName (show_nat n) = False"
proof -
  have "\<not> has_sensitive_word (show_nat n)"
  proof
    assume "has_sensitive_word (show_nat n)"
    then obtain word where "word \<in> set sensitive_words" "set word \<subseteq> set (to_lower (show_nat n))"
      by (auto simp: has_sensitive_word_def list_ex_iff str_includes_sublist dest: set_mono_sublist)
    moreover have "is_digit c" if "c \<in> set (to_lower (show_nat n))" for c
      using that show_nat_digits
      by (force simp: to_lower_def lower_char_def is_digit_def is_upper_def in_range_def)
    moreover have "list_all (list_ex (\<lambda>c. \<not> is_digit c)) sensitive_words" by code_simp
    ultimately show False by (fastforce simp: list_all_iff list_ex_iff)
  qed
  then show ?thesis by (simp add: isSensitiveFieldName_word)
qed

lemma own_props_clean:
  "\<not> hasSensitiveFieldName v \<Longrightarrow> (k, x) \<in> set (own_props v) \<Longrightarrow> \<not> isSensitiveFieldName k \<and> \<not> hasSensitiveFieldName x"
  by (cases v rule: own_props.cases)
    (auto simp: list_ex_iff digits_not_sensitive elim!: in_set_zipE)

lemma set_spread: "set (spread a b) \<subseteq> set a \<union> set b"
proof (induction b arbitrary: a)
  case (Cons e b)
  then show ?case using set_map_set by (cases e) fastforce
qed simp

lemma spread_clean:
  "\<not> hasSensitiveFieldName v \<Longrightarrow> \<not> isSensitiveFieldName k \<Longrightarrow> \<not> hasSensitiveFieldName x \<Longrightarrow>
   \<not> hasSensitiveFieldName (JObj (spread (own_props v) [(k, x)]))"
  using set_spread [of "own_props v" "[(k, x)]"] own_props_clean [of v]
  by (fastforce simp: list_ex_iff simp del: spread_Cons)

lemma initial_forms_clean: "\<not> hasSensitiveFieldName initialRouteForm" "\<not> hasSensitiveFieldName initialLocationForm"
proof -
  have "list_all (\<lambda>k. \<not> has_sensitive_word k)
      [''domain'', ''port'', ''root'', ''enabled'', ''ssl'', ''locations'', ''advanced'', ''client_max_body_size'',
       ''keepalive_timeout'', ''gzip'', ''gzip_types'', ''caching'', ''cache_valid'', ''path'', ''proxy_pass'', ''try_files'',
       ''index'', ''extra_directives'']"
    by code_simp
  then show "\<not> hasSensitiveFieldName initialRouteForm" "\<not> hasSensitiveFieldName initialLocationForm"
    by (simp_all add: initialRouteForm_def initialLocationForm_def isSensitiveFieldName_word jint_def)
qed

lemma advanced_not_sensitive: "\<not> isSensitiveFieldName ''advanced''"
  unfolding isSensitiveFieldName_word by code_simp

lemmas form_ops = setField_def setAdvancedField_def setLocationField_def openLocationModal_def closeLocationModal_def
  addLocation_def updateLocation_def deleteLocation_def resetForm_def setFormData_def store_validateForm_def
  with_locations_def

lemma form_step_clean: "form_clean st \<Longrightarrow> form_clean (form_step z a st)"
proof (cases a)
  case (SetAdvancedField f v)
  assume "form_clean st"
  with SetAdvancedField spread_clean [of "formData st" "''advanced''"] advanced_not_sensitive sanitize_no_sensitive
  show ?thesis
    by (simp add: form_clean_def setAdvancedField_def del: spread_Cons hasSensitiveFieldName.simps sanitizeForJson.simps)
qed (simp_all add: form_clean_def form_ops sanitize_no_sensitive initial_forms_clean Let_def
    del: sanitizeForJson.simps split: option.split)

subsection \<open>Lemmas on the stores\<close>

lemma saveRoutes_keeps_routes: "routes (fst (snd (saveRoutes repo (st, s)))) = routes st"
  by (simp add: saveRoutes_def split: prod.splits sum.splits)

lemma hook_save:
  "\<exists>st' s'. rr_save (useRoutesRepository repo snap) r (st, s) = (Inr (), (st', s')) \<and>
     routes st' = map_new (map_set (get r ''id'') r (map_new snap))"
  using saveRoutes_keeps_routes [of repo "st\<lparr>routes := map_new (map_set (get r ''id'') r (map_new snap))\<rparr>" s]
  by (cases "snd (saveRoutes repo (st\<lparr>routes := map_new (map_set (get r ''id'') r (map_new snap))\<rparr>, s))")
    (auto simp: useRoutesRepository_def createRouteRepositoryAdapter_def)

lemma addRoute_keeps_store:
  "store_addRoute z repo stamp rnd c u d (st, s) = (Inr i, (st', s')) \<Longrightarrow> st' = st"
  by (auto simp: store_addRoute_def recording_def on_repository_def split: prod.splits sum.splits)

subsection \<open>Properties\<close>

text \<open>
  C18: whatever sequence of actions the form store has gone through, neither the route being edited
  nor the location being edited holds a sensitive field name at any depth.
\<close>

theorem form_never_holds_sensitive_fields:
  assumes "form_reachable z st"
  shows "\<not> hasSensitiveFieldName (formData st) \<and> \<not> hasSensitiveFieldName (locationFormData st)"
proof -
  from assms have "form_clean st"
  proof induction
    case form_start
    show ?case using initial_forms_clean by (simp add: form_clean_def initial_form_def)
  qed (rule form_step_clean)
  then show ?thesis by (simp add: form_clean_def)
qed

theorem form_never_holds_sensitive_fields_witness:
  "\<not> hasSensitiveFieldName (formData (setField ''token'' (JStr ''x'') initial_form))"
  using form_never_holds_sensitive_fields
    [OF form_action [OF form_start, of zod_reference "SetField ''token'' (JStr ''x'')"]] by simp

text \<open>
  Two saves through the same value of the repository hook lose the first one. The hook works on
  the routes it captured when it was called, so after saving \<open>r1\<close> and then \<open>r2\<close> the store holds the
  captured routes with \<open>r2\<close> alone, and \<open>r1\<close> is gone unless it was captured.
\<close>

theorem hook_loses_first_save:
  assumes "get r1 ''id'' \<noteq> get r2 ''id''" and "map_wf snap" and "map_of snap (get r1 ''id'') = None"
  shows "\<exists>st' s'. bind (rr_save (useRoutesRepository repo snap) r1) (\<lambda>_. rr_save (useRoutesRepository repo snap) r2) (st, s) =
      (Inr (), (st', s')) \<and> map_of (routes st') (get r2 ''id'') = Some r2 \<and> map_of (routes st') (get r1 ''id'') = None"
proof -
  obtain st1 s1 where 1: "rr_save (useRoutesRepository repo snap) r1 (st, s) = (Inr (), (st1, s1))"
    using hook_save [of repo snap r1 st s] by blast
  obtain st2 s2 where 2: "rr_save (useRoutesRepository repo snap) r2 (st1, s1) = (Inr (), (st2, s2))"
    "routes st2 = map_new (map_set (get r2 ''id'') r2 (map_new snap))"
    using hook_save [of repo snap r2 st1 s1] by blast
  have "routes st2 = map_set (get r2 ''id'') r2 snap"
    using 2(2) assms(2) by (simp add: map_new_wf_id)
  with 1 2(1) assms show ?thesis by auto
qed

theorem hook_loses_first_save_witness:
  "\<exists>st' s'. bind (rr_save (useRoutesRepository LocalStorageRouteRepository []) (JObj [(''id'', JStr ''a'')]))
      (\<lambda>_. rr_save (useRoutesRepository LocalStorageRouteRepository []) (JObj [(''id'', JStr ''b'')])) (initial_routes, Map.empty) =
      (Inr (), (st', s')) \<and> map_of (routes st') (JStr ''a'') = None"
  using hook_loses_first_save [of "JObj [(''id'', JStr ''a'')]" "JObj [(''id'', JStr ''b'')]" "[]"
      LocalStorageRouteRepository initial_routes Map.empty]
  by auto

text \<open>
  The autosave undoes a creation. A route added through the store goes to the repository only;
  the store's own map is not refreshed. When the autosave of the old map fires afterwards, the
  repository no longer has the new route.
\<close>

theorem autosave_drops_added_route:
  assumes "store_addRoute z LocalStorageRouteRepository stamp rnd c u d (st, s) = (Inr i, w)"
    and "autosave_scheduled st" and "map_wf (routes st)" and "list_all (\<lambda>(k, v). stored k = k) (routes st)"
    and "map_of (routes st) (JStr i) = None"
  shows "ls_view (snd (autosave_fires LocalStorageRouteRepository w)) i = None"
proof -
  obtain s' where w: "w = (st, s')" using addRoute_keeps_store assms(1) by (metis surj_pair)
  have "snd (autosave_fires LocalStorageRouteRepository w) = snd (ls_saveAll (routes st) s')"
    by (simp add: w autosave_fires_def saveRoutes_def LocalStorageRouteRepository_def ls_saveAll_def setItem_def)
  then show ?thesis
    using ls_read_after_saveAll [OF assms(3, 4), of s'] assms(5) by (simp add: ls_view_def map_of_map)
qed

lemma added_route_accepted:
  "store_addRoute zod_reference LocalStorageRouteRepository 5 ''ab'' 0 1 (JObj form_data) (st, s) =
     (Inr (new_route_id 5 ''ab''), (st, snd (ls_save (new_route 5 ''ab'' 0 1 (JObj form_data)) s)))"
proof -
  obtain out where a: "accepts zod_reference (RouteSchema zod_reference) (new_route 5 ''ab'' 0 1 (JObj form_data)) out"
    using form_data_accepted by blast
  have save: "ls_save r s = (Inr (), snd (ls_save r s))" for r
    by (simp add: ls_save_def ls_loadAll_def bind_def ls_saveAll_def setItem_def)
  have "createRoute zod_reference LocalStorageRouteRepository 5 ''ab'' 0 1 (JObj form_data) s =
      (Inr (new_route_id 5 ''ab''), snd (ls_save (new_route 5 ''ab'' 0 1 (JObj form_data)) s))"
    using form_data_valid
    by (subst createRoute_saves [OF _ _ _ a]) (simp_all add: LocalStorageRouteRepository_def, subst save, simp)
  then show ?thesis
    by (simp add: store_addRoute_def recording_def on_repository_def)
qed

theorem autosave_drops_added_route_witness:
  "ls_view (snd (autosave_fires LocalStorageRouteRepository
     (snd (store_addRoute zod_reference LocalStorageRouteRepository 5 ''ab'' 0 1 (JObj form_data)
       (initial_routes\<lparr>routes := [(JStr ''r1'', small_route)]\<rparr>, Map.empty))))) (new_route_id 5 ''ab'') = None"
proof -
  let ?st = "initial_routes\<lparr>routes := [(JStr ''r1'', small_route)]\<rparr>"
  have s: "autosave_scheduled ?st" "map_wf (routes ?st)" "list_all (\<lambda>(k, v). stored k = k) (routes ?st)"
    "map_of (routes ?st) (JStr (new_route_id 5 ''ab'')) = None"
    using small_route_clean(2)
    by (simp_all add: autosave_scheduled_def map_wf_def stored_def new_route_id_def)
  show ?thesis
    using autosave_drops_added_route [OF added_route_accepted s] by (simp add: added_route_accepted)
qed

text \<open>
  An operation of the page never throws: it ends with \<open>loading\<close> off and with exactly one of the
  two messages, success with the result or the redacted error without one.
\<close>

theorem wrap_settles:
  "\<exists>r o' w'. wrap msg fn (o0, w) = (r, (o', w')) \<and> \<not> loading o' \<and>
     (case fn w of
        (Inr x, w1) \<Rightarrow> r = Some x \<and> w' = w1 \<and> success o' = Some msg \<and> op_error o' = None
      | (Inl e, w1) \<Rightarrow> r = None \<and> w' = w1 \<and> success o' = None \<and> op_error o' = Some (redactPotentialSecrets (err_message e)))"
  by (cases "fn w"; cases "fst (fn w)") (auto simp: wrap_def redacted_message_def)

text \<open>
  Selecting a route that is in the store fills the form with its sanitised data in edit mode;
  clearing the selection resets the form; a change of the routes alone leaves the form untouched.
\<close>

theorem selection_drives_form:
  assumes "map_of (routes st) (JStr i) = Some r" and "truthy r" and "i \<noteq> []" and "currentRouteId st = None"
  shows "formData (on_routes_change (setCurrentRoute (Some i) st) st form) = sanitizeForJson r \<and>
    isEditing (on_routes_change (setCurrentRoute (Some i) st) st form) = truthy (get r ''id'') \<and>
    on_routes_change st (setCurrentRoute (Some i) st) form = resetForm form \<and>
    on_routes_change (st\<lparr>routes := m\<rparr>) st form = form"
  using assms by (simp add: on_routes_change_def handleRouteSelectionChange_def setCurrentRoute_def setFormData_def)

theorem selection_drives_form_witness:
  "formData (on_routes_change (setCurrentRoute (Some ''r1'') (initial_routes\<lparr>routes := [(JStr ''r1'', small_route)]\<rparr>))
     (initial_routes\<lparr>routes := [(JStr ''r1'', small_route)]\<rparr>) initial_form) = sanitizeForJson small_route"
  using selection_drives_form [of "initial_routes\<lparr>routes := [(JStr ''r1'', small_route)]\<rparr>" "''r1''" small_route initial_form]
  by (simp add: initial_routes_def small_route_def)

text \<open>
  Errors of the repository. The store's asynchronous actions record the redacted message and
  throw the error on; loading and saving never throw, and loading always ends with the flag off.
\<close>

theorem store_actions_record_errors:
  "((\<exists>e w. store_addRoute z repo stamp rnd c u d (st, s) = (Inl e, w) \<and> error (fst w) = Some (redactPotentialSecrets (err_message e))) \<or>
    (\<exists>i w. store_addRoute z repo stamp rnd c u d (st, s) = (Inr i, w) \<and> fst w = st)) \<and>
   (\<exists>w. loadRoutes repo (st, s) = (Inr (), w) \<and> \<not> isLoading (fst w)) \<and>
   (\<exists>b w. saveRoutes repo (st, s) = (Inr b, w) \<and> routes (fst w) = routes st)"
  by (auto simp: store_addRoute_def recording_def on_repository_def redacted_message_def loadRoutes_def saveRoutes_def Let_def
      split: prod.splits sum.splits)

end
