(* ===== verification/Ssh_Connection.thy ===== *)
theory Ssh_Connection
  imports Secrets
begin

text \<open>
  \<open>apps/desktop/src/main/ssh/SSHConnectionManager.ts\<close> as a state machine. The manager keeps at most
  one active client of the \<open>ssh2\<close> library and one connection attempt in flight. Callers, abort
  signals, the library's events and the promise jobs of the runtime interleave freely: each is one
  step, made of the handlers of the source. Time is not modelled; a timer may fire at any step after
  it was set. What is logged is in \<open>Ssh_Log\<close>.
\<close>

subsection \<open>State\<close>

definition ABORTED_CODE :: string where
  "ABORTED_CODE = ''ABORTED''"

definition CONNECT_FAILED_CODE :: string where
  "CONNECT_FAILED_CODE = ''SSH_CONNECT_FAILED''"

definition SHUTTING_DOWN_CODE :: string where
  "SHUTTING_DOWN_CODE = ''SSH_SHUTTING_DOWN''"

definition aborted_error :: js_error where
  "aborted_error = RemoteExecutionError ''Operation aborted'' ABORTED_CODE"

text \<open>
  An attempt is one call of \<open>connect\<close>: its closure variable \<open>settled\<close>, the promise it returns, the
  signal it was given, whether its three listeners are attached, whether the listeners of an active
  client are attached, and whether \<open>client.end()\<close> was called. Attempts and clients are numbered in
  the order of their creation.
\<close>

datatype promise = Pending | Resolved | Rejected js_error

record attempt =
  att_settled :: bool
  att_promise :: promise
  att_signal :: "nat option"
  listening :: bool
  watched :: bool
  ended :: bool

text \<open>A call of \<open>getClient\<close>: the attempt and the signal it waits for, and what became of it.\<close>

datatype outcome = Waiting | Got nat | Failed js_error

record call =
  call_attempt :: nat
  call_signal :: "nat option"
  call_outcome :: outcome

text \<open>
  \<open>closings\<close> are the clients whose \<open>close\<close> event (or one second timer) a call of \<open>shutdown\<close> waits
  for; \<open>uncaught\<close> collects the errors that were emitted with no listener attached, which the
  runtime throws.
\<close>

record manager =
  activeClient :: "nat option"
  connectPromise :: "nat option"
  shuttingDown :: bool
  attempts :: "attempt list"
  calls :: "call list"
  aborted_signals :: "nat list"
  closings :: "nat list"
  uncaught :: "string list"

definition initial_manager :: manager where
  "initial_manager = \<lparr>activeClient = None, connectPromise = None, shuttingDown = False, attempts = [],
     calls = [], aborted_signals = [], closings = [], uncaught = []\<rparr>"

definition is_aborted :: "nat option \<Rightarrow> manager \<Rightarrow> bool" where
  "is_aborted signal m \<longleftrightarrow> (case signal of None \<Rightarrow> False | Some i \<Rightarrow> i \<in> set (aborted_signals m))"

definition upd_attempt :: "nat \<Rightarrow> (attempt \<Rightarrow> attempt) \<Rightarrow> manager \<Rightarrow> manager" where
  "upd_attempt n f m = m\<lparr>attempts := (attempts m)[n := f (attempts m ! n)]\<rparr>"

subsection \<open>\<open>connect\<close> and its handlers\<close>

definition cleanup :: "attempt \<Rightarrow> attempt" where
  "cleanup a = a\<lparr>listening := False\<rparr>"

definition onAbort :: "attempt \<Rightarrow> attempt" where
  "onAbort a =
     (if att_settled a then a
      else (cleanup a)\<lparr>att_settled := True, ended := True, att_promise := Rejected aborted_error\<rparr>)"

definition new_attempt :: "nat option \<Rightarrow> manager \<Rightarrow> attempt" where
  "new_attempt signal m =
     (let a = \<lparr>att_settled = False, att_promise = Pending, att_signal = signal, listening = False, watched = False, ended = False\<rparr>
      in if is_aborted signal m then onAbort a else a\<lparr>listening := True\<rparr>)"

definition connect :: "nat option \<Rightarrow> manager \<Rightarrow> manager" where
  "connect signal m = m\<lparr>attempts := attempts m @ [new_attempt signal m]\<rparr>"

definition onReady :: "nat \<Rightarrow> manager \<Rightarrow> manager" where
  "onReady n m =
     (if att_settled (attempts m ! n) then m
      else (upd_attempt n (\<lambda>a. (cleanup a)\<lparr>att_settled := True, watched := True, att_promise := Resolved\<rparr>) m)
             \<lparr>activeClient := Some n\<rparr>)"

definition invalidate :: "nat \<Rightarrow> manager \<Rightarrow> manager" where
  "invalidate n m = (if activeClient m = Some n then m\<lparr>activeClient := None\<rparr> else m)"

definition onError :: "nat \<Rightarrow> string \<Rightarrow> manager \<Rightarrow> manager" where
  "onError n msg m =
     (if att_settled (attempts m ! n) then invalidate n m
      else upd_attempt n (\<lambda>a. (cleanup a)\<lparr>att_settled := True,
             att_promise := Rejected (RemoteExecutionError (redactPotentialSecrets msg) CONNECT_FAILED_CODE)\<rparr>) m)"

subsection \<open>\<open>getClient\<close> and \<open>shutdown\<close>\<close>

definition new_call :: "nat \<Rightarrow> nat option \<Rightarrow> outcome \<Rightarrow> manager \<Rightarrow> manager" where
  "new_call n signal r m = m\<lparr>calls := calls m @ [\<lparr>call_attempt = n, call_signal = signal, call_outcome = r\<rparr>]\<rparr>"

definition withAbort :: "nat \<Rightarrow> nat option \<Rightarrow> manager \<Rightarrow> manager" where
  "withAbort n signal m =
     (if is_aborted signal m then new_call n signal (Failed aborted_error) m else new_call n signal Waiting m)"

definition getClient :: "nat option \<Rightarrow> manager \<Rightarrow> manager" where
  "getClient signal m =
     (if shuttingDown m then
        new_call 0 signal (Failed (RemoteExecutionError ''SSH connection manager is shutting down'' SHUTTING_DOWN_CODE)) m
      else case activeClient m of
        Some c \<Rightarrow> new_call c signal (Got c) m
      | None \<Rightarrow>
          (case connectPromise m of
             None \<Rightarrow> withAbort (length (attempts m)) signal ((connect signal m)\<lparr>connectPromise := Some (length (attempts m))\<rparr>)
           | Some n \<Rightarrow> withAbort n signal m))"

definition shutdown :: "manager \<Rightarrow> manager" where
  "shutdown m =
     (case activeClient m of
        None \<Rightarrow> m\<lparr>shuttingDown := False\<rparr>
      | Some c \<Rightarrow>
          (upd_attempt c (\<lambda>a. a\<lparr>ended := True\<rparr>) m)\<lparr>shuttingDown := True, activeClient := None, closings := c # closings m\<rparr>)"

definition shutdown_complete :: "nat \<Rightarrow> manager \<Rightarrow> manager" where
  "shutdown_complete c m = m\<lparr>shuttingDown := False, closings := remove1 c (closings m)\<rparr>"

subsection \<open>Events\<close>

text \<open>An abort runs the listener of every attempt with that signal, then rejects the waiting calls with it.\<close>

definition abort_call :: "nat \<Rightarrow> call \<Rightarrow> call" where
  "abort_call i c =
     (if call_signal c = Some i \<and> call_outcome c = Waiting then c\<lparr>call_outcome := Failed aborted_error\<rparr> else c)"

definition abort :: "nat \<Rightarrow> manager \<Rightarrow> manager" where
  "abort i m = m\<lparr>aborted_signals := i # aborted_signals m,
     attempts := map (\<lambda>a. if att_signal a = Some i \<and> listening a then onAbort a else a) (attempts m),
     calls := map (abort_call i) (calls m)\<rparr>"

text \<open>An \<open>error\<close> event reaches the listener of the attempt or the one of an active client; without either it is thrown.\<close>

definition emit_error :: "nat \<Rightarrow> string \<Rightarrow> manager \<Rightarrow> manager" where
  "emit_error n msg m =
     (let a = attempts m ! n in
      if listening a then onError n msg m
      else if watched a then invalidate n m
      else m\<lparr>uncaught := msg # uncaught m\<rparr>)"

definition emit_close :: "nat \<Rightarrow> manager \<Rightarrow> manager" where
  "emit_close n m = (if watched (attempts m ! n) then invalidate n m else m)"

definition emit_ready :: "nat \<Rightarrow> manager \<Rightarrow> manager" where
  "emit_ready n m = (if listening (attempts m ! n) then onReady n m else m)"

text \<open>A waiting call takes over the result of its attempt once that attempt's \<open>finally\<close> job has run.\<close>

definition deliver_call :: "attempt list \<Rightarrow> call \<Rightarrow> call" where
  "deliver_call as c =
     (case call_outcome c of
        Waiting \<Rightarrow>
          (case att_promise (as ! call_attempt c) of
             Pending \<Rightarrow> c
           | Resolved \<Rightarrow> c\<lparr>call_outcome := Got (call_attempt c)\<rparr>
           | Rejected e \<Rightarrow> c\<lparr>call_outcome := Failed e\<rparr>)
      | _ \<Rightarrow> c)"

definition deliver :: "nat \<Rightarrow> manager \<Rightarrow> manager" where
  "deliver k m = m\<lparr>calls := (calls m)[k := deliver_call (attempts m) (calls m ! k)]\<rparr>"

datatype event =
    GetClient "nat option"
  | Shutdown
  | ShutdownDone nat
  | Abort nat
  | ClientReady nat
  | ClientError nat string
  | ClientClose nat
  | Finally nat
  | Deliver nat

inductive manager_step :: "manager \<Rightarrow> event \<Rightarrow> manager \<Rightarrow> bool" where
  GetClient: "manager_step m (GetClient signal) (getClient signal m)"
| Shutdown: "manager_step m Shutdown (shutdown m)"
| ShutdownDone: "c \<in> set (closings m) \<Longrightarrow> manager_step m (ShutdownDone c) (shutdown_complete c m)"
| Abort: "manager_step m (Abort i) (abort i m)"
| ClientReady: "n < length (attempts m) \<Longrightarrow> manager_step m (ClientReady n) (emit_ready n m)"
| ClientError: "n < length (attempts m) \<Longrightarrow> manager_step m (ClientError n msg) (emit_error n msg m)"
| ClientClose: "n < length (attempts m) \<Longrightarrow> manager_step m (ClientClose n) (emit_close n m)"
| Finally: "connectPromise m = Some n \<Longrightarrow> att_promise (attempts m ! n) \<noteq> Pending \<Longrightarrow>
    manager_step m (Finally n) (m\<lparr>connectPromise := None\<rparr>)"
| Deliver: "k < length (calls m) \<Longrightarrow> call_outcome (calls m ! k) = Waiting \<Longrightarrow>
    connectPromise m \<noteq> Some (call_attempt (calls m ! k)) \<Longrightarrow> manager_step m (Deliver k) (deliver k m)"

inductive_cases manager_stepE [elim]: "manager_step m e m'"

inductive_simps manager_step_simps [simp]:
  "manager_step m (GetClient signal) m'" "manager_step m Shutdown m'" "manager_step m (Abort i) m'"
  "manager_step m (ClientReady n) m'" "manager_step m (Finally n) m'" "manager_step m (Deliver k) m'"

inductive manager_reachable :: "manager \<Rightarrow> bool" where
  start: "manager_reachable initial_manager"
| step: "manager_reachable m \<Longrightarrow> manager_step m e m' \<Longrightarrow> manager_reachable m'"

subsection \<open>Invariant\<close>

definition error_ok :: "js_error \<Rightarrow> bool" where
  "error_ok e \<longleftrightarrow> (case e of RemoteExecutionError _ code \<Rightarrow> code \<in> {ABORTED_CODE, CONNECT_FAILED_CODE, SHUTTING_DOWN_CODE} | _ \<Rightarrow> False)"

definition attempt_ok :: "attempt \<Rightarrow> bool" where
  "attempt_ok a \<longleftrightarrow> (att_settled a \<longleftrightarrow> att_promise a \<noteq> Pending) \<and> (listening a \<longleftrightarrow> att_promise a = Pending) \<and>
     (watched a \<longleftrightarrow> att_promise a = Resolved) \<and> (\<forall>e. att_promise a = Rejected e \<longrightarrow> error_ok e)"

definition promises :: "manager \<Rightarrow> promise list" where
  "promises m = map att_promise (attempts m)"

definition call_ok :: "promise list \<Rightarrow> call \<Rightarrow> bool" where
  "call_ok ps c \<longleftrightarrow>
     (case call_outcome c of
        Waiting \<Rightarrow> call_attempt c < length ps
      | Got n \<Rightarrow> n < length ps \<and> ps ! n = Resolved
      | Failed e \<Rightarrow> error_ok e)"

text \<open>The part that speaks of the promises alone: at most one attempt is pending, and none beside an active client.\<close>

definition single_flight :: "promise list \<Rightarrow> nat option \<Rightarrow> nat option \<Rightarrow> bool" where
  "single_flight ps flight active \<longleftrightarrow>
     (\<forall>n < length ps. ps ! n = Pending \<longrightarrow> flight = Some n \<and> active = None) \<and>
     (\<forall>n. flight = Some n \<longrightarrow> n < length ps) \<and>
     (\<forall>n. active = Some n \<longrightarrow> n < length ps \<and> ps ! n = Resolved)"

definition manager_inv :: "manager \<Rightarrow> bool" where
  "manager_inv m \<longleftrightarrow> list_all attempt_ok (attempts m) \<and> list_all (call_ok (promises m)) (calls m) \<and>
     single_flight (promises m) (connectPromise m) (activeClient m)"

lemma single_flightD:
  assumes "single_flight ps flight active"
  shows "n < length ps \<Longrightarrow> ps ! n = Pending \<Longrightarrow> flight = Some n \<and> active = None"
    "flight = Some n \<Longrightarrow> n < length ps" "active = Some n \<Longrightarrow> n < length ps \<and> ps ! n = Resolved"
  using assms unfolding single_flight_def by blast+

lemma single_flight_inactive: "single_flight ps flight active \<Longrightarrow> single_flight ps flight None"
  unfolding single_flight_def by blast

lemma single_flight_landed: "single_flight ps (Some n) active \<Longrightarrow> ps ! n \<noteq> Pending \<Longrightarrow> single_flight ps None active"
  unfolding single_flight_def by (metis option.distinct(1) option.inject)

text \<open>
  Promises settle once, an order on their states. A later list of promises extends an earlier one and
  changes pending ones only.
\<close>

instantiation promise :: order
begin

definition less_eq_promise :: "promise \<Rightarrow> promise \<Rightarrow> bool" where
  "less_eq_promise p q \<longleftrightarrow> p = Pending \<or> p = q"

definition less_promise :: "promise \<Rightarrow> promise \<Rightarrow> bool" where
  "less_promise p q \<longleftrightarrow> p = Pending \<and> q \<noteq> Pending"

instance
  by standard (auto simp: less_eq_promise_def less_promise_def)

end

lemma promise_le_iff: "(p :: promise) \<le> q \<longleftrightarrow> (p \<noteq> Pending \<longrightarrow> q = p)"
  by (auto simp: less_eq_promise_def)

definition settles_to :: "promise list \<Rightarrow> promise list \<Rightarrow> bool" where
  "settles_to ps qs \<longleftrightarrow> length ps \<le> length qs \<and> (\<forall>n < length ps. ps ! n \<le> qs ! n)"

lemma settles_to_refl [simp]: "settles_to ps ps"
  by (simp add: settles_to_def)

lemma settles_to_append [simp]: "settles_to ps (ps @ qs)"
  by (simp add: settles_to_def nth_append)

lemma settles_to_update [simp]: "ps ! n = Pending \<Longrightarrow> settles_to ps (ps[n := q])"
  by (cases "n < length ps") (auto simp: settles_to_def nth_list_update promise_le_iff)

lemma call_ok_settles: "settles_to ps qs \<Longrightarrow> call_ok ps c \<Longrightarrow> call_ok qs c"
  by (auto simp: settles_to_def call_ok_def promise_le_iff split: outcome.splits)

lemma calls_ok_settle: "settles_to ps qs \<Longrightarrow> list_all (call_ok ps) cs \<Longrightarrow> list_all (call_ok qs) cs"
  by (auto simp: list_all_iff call_ok_settles)

lemma error_ok_simps [simp]:
  "error_ok aborted_error" "error_ok (RemoteExecutionError msg CONNECT_FAILED_CODE)" "error_ok (RemoteExecutionError msg SHUTTING_DOWN_CODE)"
  by (simp_all add: error_ok_def aborted_error_def)

lemma attempt_ok_settle:
  "attempt_ok a \<Longrightarrow> attempt_ok (onAbort a)"
  "attempt_ok ((cleanup a)\<lparr>att_settled := True, watched := True, att_promise := Resolved\<rparr>)"
  "\<not> watched a \<Longrightarrow> error_ok e \<Longrightarrow> attempt_ok ((cleanup a)\<lparr>att_settled := True, att_promise := Rejected e\<rparr>)"
  by (auto simp: attempt_ok_def onAbort_def cleanup_def)

lemma promises_simps [simp]:
  "promises (m\<lparr>activeClient := x\<rparr>) = promises m" "promises (m\<lparr>connectPromise := x\<rparr>) = promises m"
  "promises (m\<lparr>shuttingDown := b\<rparr>) = promises m" "promises (m\<lparr>calls := cs\<rparr>) = promises m"
  "promises (m\<lparr>closings := ns\<rparr>) = promises m" "promises (m\<lparr>uncaught := ms'\<rparr>) = promises m"
  "length (promises m) = length (attempts m)"
  by (simp_all add: promises_def)

lemma promises_upd_attempt: "promises (upd_attempt n f m) = (promises m)[n := att_promise (f (attempts m ! n))]"
  by (simp add: promises_def upd_attempt_def map_update)

lemma upd_attempt_simps [simp]:
  "activeClient (upd_attempt n f m) = activeClient m" "connectPromise (upd_attempt n f m) = connectPromise m"
  "calls (upd_attempt n f m) = calls m" "attempts (upd_attempt n f m) = (attempts m)[n := f (attempts m ! n)]"
  by (simp_all add: upd_attempt_def)

lemma promises_nth: "n < length (attempts m) \<Longrightarrow> promises m ! n = att_promise (attempts m ! n)"
  by (simp add: promises_def)

lemma attempt_nth: "manager_inv m \<Longrightarrow> n < length (attempts m) \<Longrightarrow> attempt_ok (attempts m ! n)"
  by (simp add: manager_inv_def list_all_length)

lemma inv_new_call: "manager_inv m \<Longrightarrow> call_ok (promises m) \<lparr>call_attempt = n, call_signal = s, call_outcome = r\<rparr> \<Longrightarrow> manager_inv (new_call n s r m)"
  by (simp add: manager_inv_def new_call_def)

lemma inv_withAbort: "manager_inv m \<Longrightarrow> n < length (attempts m) \<Longrightarrow> manager_inv (withAbort n signal m)"
  by (simp add: withAbort_def inv_new_call call_ok_def)

lemma inv_connect:
  assumes "manager_inv m" and "connectPromise m = None" and "activeClient m = None"
  shows "manager_inv ((connect signal m)\<lparr>connectPromise := Some (length (attempts m))\<rparr>)"
proof -
  have "attempt_ok (new_attempt signal m)"
    by (simp add: new_attempt_def Let_def attempt_ok_def onAbort_def cleanup_def)
  moreover have "promises (connect signal m) = promises m @ [att_promise (new_attempt signal m)]"
    by (simp add: promises_def connect_def)
  ultimately show ?thesis using assms calls_ok_settle [OF settles_to_append]
    by (auto simp: manager_inv_def single_flight_def nth_append less_Suc_eq connect_def)
qed

lemma inv_getClient:
  assumes "manager_inv m"
  shows "manager_inv (getClient signal m)"
proof -
  have flight: "n < length (attempts m)" if "connectPromise m = Some n" for n
    using assms that by (simp add: manager_inv_def single_flight_def)
  have active: "c < length (attempts m) \<and> promises m ! c = Resolved" if "activeClient m = Some c" for c
    using assms that by (simp add: manager_inv_def single_flight_def)
  have "length (attempts m) < length (attempts ((connect signal m)\<lparr>connectPromise := p\<rparr>))" for p
    by (simp add: connect_def)
  with assms flight active show ?thesis
    by (auto simp: getClient_def call_ok_def intro!: inv_withAbort inv_new_call inv_connect split: option.split)
qed

lemma inv_settled_state:
  assumes "manager_inv m" and "list_all attempt_ok (attempts m')" and to: "settles_to (promises m) (promises m')"
    and len: "length (attempts m') = length (attempts m)" and flight: "connectPromise m' = connectPromise m"
    and active: "activeClient m' = activeClient m \<or> activeClient m' = None \<or>
      (\<exists>k. activeClient m' = Some k \<and> k < length (attempts m) \<and> promises m ! k = Pending \<and> promises m' ! k = Resolved)"
    and "list_all (call_ok (promises m)) (calls m')"
  shows "manager_inv m'"
proof -
  have sf: "single_flight (promises m) (connectPromise m) (activeClient m)" using assms(1) by (simp add: manager_inv_def)
  have "single_flight (promises m') (connectPromise m') (activeClient m')"
    unfolding single_flight_def
  proof (intro conjI allI impI)
    fix n
    assume n: "n < length (promises m')" and "promises m' ! n = Pending"
    with to len have p: "promises m ! n = Pending" unfolding settles_to_def promise_le_iff by (metis promises_simps(7))
    with single_flightD(1) [OF sf, of n] n len have f: "connectPromise m = Some n" "activeClient m = None" by simp_all
    then show "connectPromise m' = Some n" by (simp add: flight)
    have "k = n" if "k < length (attempts m)" "promises m ! k = Pending" for k
      using single_flightD(1) [OF sf, of k] that f by simp
    with active f \<open>promises m' ! n = Pending\<close> show "activeClient m' = None" by auto
  next
    fix n
    assume "connectPromise m' = Some n"
    with single_flightD(2) [OF sf] flight len show "n < length (promises m')" by simp
  next
    fix n
    assume "activeClient m' = Some n"
    with active single_flightD(3) [OF sf, of n] len to
    have "n < length (promises m') \<and> promises m' ! n = Resolved"
      unfolding settles_to_def promise_le_iff by auto
    then show "n < length (promises m')" "promises m' ! n = Resolved" by simp_all
  qed
  with assms show ?thesis by (auto simp: manager_inv_def intro: calls_ok_settle)
qed

lemma inv_invalidate: "manager_inv m \<Longrightarrow> manager_inv (invalidate n m)"
  by (auto simp: invalidate_def manager_inv_def intro: single_flight_inactive)

lemma listening_pending:
  "manager_inv m \<Longrightarrow> n < length (attempts m) \<Longrightarrow> listening (attempts m ! n) \<longleftrightarrow> promises m ! n = Pending"
  using attempt_nth [of m n] by (simp add: attempt_ok_def promises_nth)

lemma inv_parts:
  assumes "manager_inv m"
  shows "list_all attempt_ok (attempts m)" "list_all (call_ok (promises m)) (calls m)"
  using assms by (simp_all add: manager_inv_def)

lemma inv_upd_attempt:
  assumes "manager_inv m" and "n < length (attempts m)" and "attempt_ok (f (attempts m ! n))"
    and "promises m ! n = Pending \<or> att_promise (f (attempts m ! n)) = promises m ! n"
  shows "manager_inv (upd_attempt n f m)"
proof (rule inv_settled_state [OF assms(1)])
  show "list_all attempt_ok (attempts (upd_attempt n f m))"
    using inv_parts [OF assms(1)] assms(3) by (simp add: list_all_update)
  show "settles_to (promises m) (promises (upd_attempt n f m))"
    using assms(4) by (auto simp: promises_upd_attempt)
qed (use inv_parts [OF assms(1)] in simp_all)

lemma inv_onReady:
  assumes "manager_inv m" and "n < length (attempts m)" and "listening (attempts m ! n)"
  shows "manager_inv (onReady n m)"
proof -
  let ?f = "\<lambda>a. (cleanup a)\<lparr>att_settled := True, watched := True, att_promise := Resolved\<rparr>"
  have p: "promises m ! n = Pending" using assms listening_pending by blast
  have ns: "\<not> att_settled (attempts m ! n)" using attempt_nth [OF assms(1,2)] assms(3) by (auto simp: attempt_ok_def)
  let ?m' = "(upd_attempt n ?f m)\<lparr>activeClient := Some n\<rparr>"
  have "manager_inv ?m'"
  proof (rule inv_settled_state [OF assms(1)])
    show "list_all attempt_ok (attempts ?m')"
      using inv_parts [OF assms(1)] attempt_ok_settle(2) by (simp add: list_all_update)
    show "settles_to (promises m) (promises ?m')"
      using p by (simp add: promises_upd_attempt)
    have "promises ?m' ! n = Resolved" using assms(2) by (simp add: promises_upd_attempt)
    with p assms(2) show "activeClient ?m' = activeClient m \<or> activeClient ?m' = None \<or>
        (\<exists>k. activeClient ?m' = Some k \<and> k < length (attempts m) \<and> promises m ! k = Pending \<and> promises ?m' ! k = Resolved)"
      by simp
  qed (use inv_parts [OF assms(1)] in simp_all)
  with ns show ?thesis by (simp add: onReady_def)
qed

lemma inv_emit_ready: "manager_inv m \<Longrightarrow> n < length (attempts m) \<Longrightarrow> manager_inv (emit_ready n m)"
  by (simp add: emit_ready_def inv_onReady)

lemma inv_emit_error:
  assumes "manager_inv m" and n: "n < length (attempts m)"
  shows "manager_inv (emit_error n msg m)"
proof (cases "listening (attempts m ! n)")
  case True
  then have p: "promises m ! n = Pending" and "\<not> att_settled (attempts m ! n)" "\<not> watched (attempts m ! n)"
    using listening_pending [OF assms] attempt_nth [OF assms] by (auto simp: attempt_ok_def)
  then have "manager_inv (onError n msg m)"
    by (simp add: onError_def inv_upd_attempt [OF assms] attempt_ok_settle)
  with True show ?thesis by (simp add: emit_error_def)
next
  case False
  have "manager_inv (m\<lparr>uncaught := us\<rparr>)" for us using assms(1) by (simp add: manager_inv_def)
  with False assms show ?thesis by (simp add: emit_error_def inv_invalidate)
qed

lemma promises_abort_nth:
  "n < length (attempts m) \<Longrightarrow> attempt_ok (attempts m ! n) \<Longrightarrow>
   promises (abort i m) ! n = (if promises m ! n = Pending \<and> att_signal (attempts m ! n) = Some i then Rejected aborted_error else promises m ! n)"
  by (auto simp: promises_def abort_def onAbort_def attempt_ok_def)

lemma inv_abort:
  assumes "manager_inv m"
  shows "manager_inv (abort i m)"
proof (rule inv_settled_state [OF assms])
  show "list_all attempt_ok (attempts (abort i m))"
    using assms by (auto simp: abort_def manager_inv_def list_all_iff attempt_ok_settle)
  show "settles_to (promises m) (promises (abort i m))"
    using promises_abort_nth attempt_nth [OF assms] by (auto simp: settles_to_def promise_le_iff) (simp add: abort_def)
  show "list_all (call_ok (promises m)) (calls (abort i m))"
    using assms by (auto simp: abort_def manager_inv_def list_all_iff abort_call_def call_ok_def)
qed (simp_all add: abort_def)

lemma inv_inactive:
  "manager_inv m \<Longrightarrow> manager_inv (m\<lparr>shuttingDown := b, activeClient := None, closings := ns\<rparr>)"
  by (auto simp: manager_inv_def intro: single_flight_inactive)

lemma inv_shutdown:
  assumes "manager_inv m"
  shows "manager_inv (shutdown m)"
proof (cases "activeClient m")
  case None
  with assms show ?thesis by (simp add: shutdown_def manager_inv_def)
next
  case (Some c)
  with assms have c: "c < length (attempts m)" using single_flightD(3) [of "promises m"] by (auto simp: manager_inv_def)
  then have "manager_inv (upd_attempt c (\<lambda>a. a\<lparr>ended := True\<rparr>) m)"
    using attempt_nth [OF assms c] by (intro inv_upd_attempt [OF assms c]) (simp_all add: attempt_ok_def promises_nth)
  then show ?thesis by (simp add: Some shutdown_def inv_inactive)
qed

lemma inv_deliver:
  assumes "manager_inv m" and "k < length (calls m)"
  shows "manager_inv (deliver k m)"
proof -
  let ?c = "calls m ! k"
  have ok: "call_ok (promises m) ?c" using assms by (simp add: manager_inv_def list_all_length)
  have "call_ok (promises m) (deliver_call (attempts m) ?c)"
  proof (cases "call_outcome ?c")
    case Waiting
    with ok have n: "call_attempt ?c < length (attempts m)" by (simp add: call_ok_def)
    with Waiting ok attempt_nth [OF assms(1) n] show ?thesis
      by (auto simp: deliver_call_def call_ok_def promises_nth attempt_ok_def split: promise.split)
  qed (use ok in \<open>simp_all add: deliver_call_def\<close>)
  with inv_parts [OF assms(1)] have "list_all (call_ok (promises m)) (calls (deliver k m))"
    by (simp add: deliver_def list_all_update)
  with assms show ?thesis by (simp add: manager_inv_def deliver_def promises_def)
qed

lemma manager_inv_step:
  assumes "manager_step m e m'" and inv: "manager_inv m"
  shows "manager_inv m'"
  using assms(1)
proof cases
  case (ShutdownDone c)
  with inv show ?thesis by (simp add: shutdown_complete_def manager_inv_def promises_def)
next
  case (ClientClose n)
  with inv show ?thesis by (simp add: emit_close_def inv_invalidate)
next
  case (Finally n)
  with inv single_flightD(2) [of "promises m" "Some n" "activeClient m"] show ?thesis
    by (auto simp: manager_inv_def promises_nth intro: single_flight_landed)
qed (use inv in \<open>simp_all add: inv_getClient inv_shutdown inv_abort inv_emit_ready inv_emit_error inv_deliver\<close>)

lemma manager_inv_reachable: "manager_reachable m \<Longrightarrow> manager_inv m"
proof (induction rule: manager_reachable.induct)
  case start
  show ?case by (simp add: initial_manager_def manager_inv_def promises_def single_flight_def)
qed (rule manager_inv_step)

subsection \<open>Properties\<close>


text \<open>A caller starts an attempt; a second one shares it, and it succeeds.\<close>

definition connecting :: manager where
  "connecting = getClient None initial_manager"

definition shared_connect :: manager where
  "shared_connect = emit_ready 0 (getClient None connecting)"

lemma connecting_reachable: "manager_reachable connecting"
  unfolding connecting_def by (rule manager_reachable.step [OF manager_reachable.start manager_step.GetClient])

lemma shared_connect_reachable: "manager_reachable shared_connect"
proof -
  have "0 < length (attempts (getClient None connecting))" by code_simp
  then show ?thesis
    unfolding shared_connect_def
    by (intro manager_reachable.step [OF manager_reachable.step [OF connecting_reachable manager_step.GetClient] manager_step.ClientReady])
qed


text \<open>
  Callers do not wait for ever. Once the attempt a caller waits for is over (the library reported
  success or failure, or the signal aborted it), the manager forgets the attempt and the caller is
  handed its result: the client, or the error.
\<close>

theorem waiting_call_settles:
  assumes "manager_reachable m" and "k < length (calls m)" and "call_outcome (calls m ! k) = Waiting"
    and "att_promise (attempts m ! call_attempt (calls m ! k)) \<noteq> Pending"
  shows "\<exists>m1 m2. (m1 = m \<or> manager_step m (Finally (call_attempt (calls m ! k))) m1) \<and> manager_step m1 (Deliver k) m2 \<and>
    (case att_promise (attempts m ! call_attempt (calls m ! k)) of
       Resolved \<Rightarrow> call_outcome (calls m2 ! k) = Got (call_attempt (calls m ! k))
     | Rejected e \<Rightarrow> call_outcome (calls m2 ! k) = Failed e
     | Pending \<Rightarrow> False)"
proof -
  let ?n = "call_attempt (calls m ! k)"
  let ?m1 = "if connectPromise m = Some ?n then m\<lparr>connectPromise := None\<rparr> else m"
  have "manager_step ?m1 (Deliver k) (deliver k ?m1)"
    using assms(2,3) by auto
  moreover have "?m1 = m \<or> manager_step m (Finally ?n) ?m1" using assms(4) by simp
  moreover have "case att_promise (attempts m ! ?n) of Resolved \<Rightarrow> call_outcome (calls (deliver k ?m1) ! k) = Got ?n
     | Rejected e \<Rightarrow> call_outcome (calls (deliver k ?m1) ! k) = Failed e | Pending \<Rightarrow> False"
    using assms(2-4) by (auto simp: deliver_def deliver_call_def split: promise.split)
  ultimately show ?thesis by blast
qed

theorem waiting_call_settles_witness:
  "\<exists>m1 m2. (m1 = shared_connect \<or> manager_step shared_connect (Finally 0) m1) \<and> manager_step m1 (Deliver 1) m2 \<and>
     call_outcome (calls m2 ! 1) = Got 0"
proof -
  have "1 < length (calls shared_connect)" "call_outcome (calls shared_connect ! 1) = Waiting"
    "call_attempt (calls shared_connect ! 1) = 0" "att_promise (attempts shared_connect ! 0) = Resolved"
    by code_simp+
  with waiting_call_settles [OF shared_connect_reachable, of 1] show ?thesis by simp
qed

text \<open>
  C31: a shutdown does not stop a connection attempt in flight. With an attempt pending, \<open>shutdown\<close>
  ends no client and completes at once; when the library then reports success, the manager has an
  active client that nobody asked to end and hands it to callers.
\<close>

theorem shutdown_misses_inflight:
  assumes "manager_reachable m" and "n < length (attempts m)" and "att_promise (attempts m ! n) = Pending"
  shows "attempts (shutdown m) = attempts m \<and> \<not> shuttingDown (shutdown m) \<and>
    activeClient (emit_ready n (shutdown m)) = Some n \<and>
    call_outcome (last (calls (getClient None (emit_ready n (shutdown m))))) = Got n"
proof -
  have inv: "manager_inv m" by (rule manager_inv_reachable) (rule assms)
  then have "activeClient m = None"
    using single_flightD(1) [of "promises m" _ _ n] assms(2,3) by (auto simp: manager_inv_def promises_nth)
  moreover have "listening (attempts m ! n)" "\<not> att_settled (attempts m ! n)"
    using attempt_nth [OF inv assms(2)] assms(3) by (auto simp: attempt_ok_def)
  ultimately show ?thesis
    by (simp add: shutdown_def emit_ready_def onReady_def getClient_def new_call_def upd_attempt_def)
qed

theorem shutdown_misses_inflight_witness:
  "manager_reachable connecting \<and> activeClient (emit_ready 0 (shutdown connecting)) = Some 0"
proof -
  have "0 < length (attempts connecting)" "att_promise (attempts connecting ! 0) = Pending"
    by code_simp+
  with shutdown_misses_inflight [OF connecting_reachable] connecting_reachable show ?thesis by simp
qed

text \<open>
  An attempt is bound to the signal of the caller that started it. When that signal is aborted, every
  other caller that shares the attempt fails as aborted, whatever its own signal; and an error event
  of the abandoned client finds no listener any more and is thrown.
\<close>

lemma abort_of_first_caller:
  assumes "manager_reachable m" and "n < length (attempts m)" and "att_promise (attempts m ! n) = Pending"
    and "att_signal (attempts m ! n) = Some i"
  shows "k < length (calls m) \<Longrightarrow> call_outcome (calls m ! k) = Waiting \<Longrightarrow> call_attempt (calls m ! k) = n \<Longrightarrow>
      call_signal (calls m ! k) \<noteq> Some i \<Longrightarrow>
      \<exists>m1 m2. manager_step (abort i m) (Finally n) m1 \<and> manager_step m1 (Deliver k) m2 \<and>
        call_outcome (calls m2 ! k) = Failed aborted_error"
    and "uncaught (emit_error n msg (abort i m)) = msg # uncaught m"
proof -
  have inv: "manager_inv m" by (rule manager_inv_reachable) (rule assms)
  then have flight: "connectPromise m = Some n"
    using single_flightD(1) [of "promises m" _ _ n] assms(2, 3) by (auto simp: manager_inv_def promises_nth)
  have a: "listening (attempts m ! n)" "\<not> att_settled (attempts m ! n)" "\<not> watched (attempts m ! n)"
    using attempt_nth [OF inv assms(2)] assms(3) by (auto simp: attempt_ok_def)
  with assms(2, 4) have rejected: "attempts (abort i m) ! n = onAbort (attempts m ! n)" by (simp add: abort_def)
  show "uncaught (emit_error n msg (abort i m)) = msg # uncaught m"
    using a by (simp add: emit_error_def rejected onAbort_def cleanup_def) (simp add: abort_def)
  assume k: "k < length (calls m)" "call_outcome (calls m ! k) = Waiting" "call_attempt (calls m ! k) = n"
    "call_signal (calls m ! k) \<noteq> Some i"
  then have call: "calls (abort i m) ! k = calls m ! k" "k < length (calls (abort i m))"
    by (simp_all add: abort_def abort_call_def)
  let ?m1 = "(abort i m)\<lparr>connectPromise := None\<rparr>"
  have "connectPromise (abort i m) = Some n" using flight by (simp add: abort_def)
  then have "manager_step (abort i m) (Finally n) ?m1" using a by (simp add: rejected onAbort_def)
  moreover have "manager_step ?m1 (Deliver k) (deliver k ?m1)" using k call by simp
  moreover have "call_outcome (calls (deliver k ?m1) ! k) = Failed aborted_error"
    using k call a by (simp add: deliver_def deliver_call_def rejected onAbort_def)
  ultimately show "\<exists>m1 m2. manager_step (abort i m) (Finally n) m1 \<and> manager_step m1 (Deliver k) m2 \<and>
      call_outcome (calls m2 ! k) = Failed aborted_error" by blast
qed

end
