(* ===== verification/Json.thy ===== *)
theory Json
  imports Js_Value
begin

text \<open>
  \<open>JSON.stringify\<close> and \<open>JSON.parse\<close> on texts. Printing follows ECMAScript's \<open>SerializeJSONProperty\<close>
  without replacer and indentation. Reading is a tokenizer and a machine that consumes one token at a
  time with a stack of open arrays and objects. Texts have Latin-1 characters only, so an escape for
  any other character, which no text of this model prints, is not read. The theorems show that
  reading a printed value gives what \<open>json_val\<close> keeps of it, so storing texts up to what
  \<open>JSON.parse\<close> makes of them (type \<open>json_text\<close>) loses nothing.
\<close>

subsection \<open>Printing\<close>

definition hex_char :: "nat \<Rightarrow> char" where
  "hex_char d = (if d < 10 then digit_char d else char_of (87 + d))"

definition escape_char :: "char \<Rightarrow> string" where
  "escape_char c =
     (if c = CHR 0x22 then [CHR 0x5C, CHR 0x22]
      else if c = CHR 0x5C then [CHR 0x5C, CHR 0x5C]
      else if c = CHR 0x08 then [CHR 0x5C, CHR ''b'']
      else if c = CHR 0x0C then [CHR 0x5C, CHR ''f'']
      else if c = CHR 0x0A then [CHR 0x5C, CHR ''n'']
      else if c = CHR 0x0D then [CHR 0x5C, CHR ''r'']
      else if c = CHR 0x09 then [CHR 0x5C, CHR ''t'']
      else if code_of c < 32 then CHR 0x5C # ''u00'' @ [hex_char (code_of c div 16), hex_char (code_of c mod 16)]
      else [c])"

definition json_quote :: "string \<Rightarrow> string" where
  "json_quote s = CHR 0x22 # concat (map escape_char s) @ [CHR 0x22]"

fun json_print :: "js \<Rightarrow> string" where
  "json_print JUndef = ''null''"
| "json_print JNull = ''null''"
| "json_print (JBool b) = (if b then ''true'' else ''false'')"
| "json_print (JNum n) = (if num_is_finite n then num_to_string n else ''null'')"
| "json_print (JStr s) = json_quote s"
| "json_print (JDate None) = ''null''"
| "json_print (JDate (Some t)) = json_quote (to_iso t)"
| "json_print (JArr xs) = ''['' @ join '','' (map json_print xs) @ '']''"
| "json_print (JObj ps) =
     ''{'' @ join '','' (map (\<lambda>(k, v). json_quote k @ '':'' @ json_print v) (filter (\<lambda>(k, v). v \<noteq> JUndef) ps)) @ ''}''"

definition JSON_stringify :: "js \<Rightarrow> string option" where
  "JSON_stringify v = (if v = JUndef then None else Some (json_print v))"

subsection \<open>Tokens\<close>

datatype token = TLBrace | TRBrace | TLBracket | TRBracket | TComma | TColon | TVal js

definition simple_escape :: "char \<Rightarrow> char option" where
  "simple_escape e =
     (if e = CHR 0x22 \<or> e = CHR 0x5C \<or> e = CHR ''/'' then Some e
      else if e = CHR ''b'' then Some (CHR 0x08)
      else if e = CHR ''f'' then Some (CHR 0x0C)
      else if e = CHR ''n'' then Some (CHR 0x0A)
      else if e = CHR ''r'' then Some (CHR 0x0D)
      else if e = CHR ''t'' then Some (CHR 0x09)
      else None)"

definition is_hex :: "char \<Rightarrow> bool" where
  "is_hex c \<longleftrightarrow> is_alnum c \<and> digit_val c < 16"

definition hex_escape :: "string \<Rightarrow> char option" where
  "hex_escape ds = (if list_all is_hex ds \<and> digits_val 16 ds < 256 then Some (char_of (digits_val 16 ds)) else None)"

text \<open>The rest of a string after its opening quote.\<close>

fun lex_string :: "string \<Rightarrow> (string \<times> string) option" where
  "lex_string [] = None"
| "lex_string (c # s) =
     (if c = CHR 0x22 then Some ([], s)
      else if c = CHR 0x5C then
        (case s of
           [] \<Rightarrow> None
         | e # r \<Rightarrow>
             (case simple_escape e of
                Some d \<Rightarrow> map_option (apfst (Cons d)) (lex_string r)
              | None \<Rightarrow>
                  if e = CHR ''u'' then
                    (case r of
                       a # b # x # y # r' \<Rightarrow>
                         (case hex_escape [a, b, x, y] of
                            None \<Rightarrow> None
                          | Some d \<Rightarrow> map_option (apfst (Cons d)) (lex_string r'))
                     | _ \<Rightarrow> None)
                  else None))
      else if code_of c < 32 then None
      else map_option (apfst (Cons c)) (lex_string s))"

declare lex_string.simps(2) [simp del]

definition number_char :: "char \<Rightarrow> bool" where
  "number_char c \<longleftrightarrow> is_digit c \<or> c \<in> set ''+-.eE''"

definition json_number :: "string \<Rightarrow> bool" where
  "json_number s \<longleftrightarrow>
     (let t = (if s \<noteq> [] \<and> hd s = CHR ''-'' then tl s else s); ip = takeWhile is_digit t; r = dropWhile is_digit t in
      ip \<noteq> [] \<and> (hd ip = CHR ''0'' \<longrightarrow> length ip = 1) \<and>
      (if r \<noteq> [] \<and> hd r = CHR ''.''
       then takeWhile is_digit (tl r) \<noteq> [] \<and> exponent_part (dropWhile is_digit (tl r)) \<noteq> None
       else exponent_part r \<noteq> None))"

definition number_value :: "string \<Rightarrow> jsnum" where
  "number_value s = (if s \<noteq> [] \<and> hd s = CHR ''-'' then num_neg (unsigned_decimal (tl s)) else unsigned_decimal s)"

definition json_space :: "char \<Rightarrow> bool" where
  "json_space c \<longleftrightarrow> c = CHR '' '' \<or> c = CHR 0x09 \<or> c = CHR 0x0A \<or> c = CHR 0x0D"

definition punctuation :: "char \<Rightarrow> token option" where
  "punctuation c =
     (if c = CHR ''{'' then Some TLBrace else if c = CHR ''}'' then Some TRBrace
      else if c = CHR ''['' then Some TLBracket else if c = CHR '']'' then Some TRBracket
      else if c = CHR '','' then Some TComma else if c = CHR '':'' then Some TColon else None)"

lemma lex_string_shorter: "lex_string s = Some (t, r) \<Longrightarrow> length r < length s"
proof (induction "length s" arbitrary: s t r rule: less_induct)
  case less
  have IH: "lex_string s' = Some (t', r') \<Longrightarrow> length s' < length s \<Longrightarrow> length r' < length s'" for s' t' r'
    using less.hyps by blast
  show ?case
  proof (cases s)
    case (Cons c s')
    from less.prems show ?thesis unfolding Cons lex_string.simps(2)
      by (auto split: if_splits list.splits option.splits dest!: IH simp: Cons)
  qed (use less.prems in simp)
qed

function tokenize :: "string \<Rightarrow> token list option" where
  "tokenize [] = Some []"
| "tokenize (c # s) =
     (if json_space c then tokenize s
      else case punctuation c of
        Some t \<Rightarrow> map_option (Cons t) (tokenize s)
      | None \<Rightarrow>
          if c = CHR 0x22 then
            (case lex_string s of None \<Rightarrow> None | Some (t, r) \<Rightarrow> map_option (Cons (TVal (JStr t))) (tokenize r))
          else if c = CHR ''-'' \<or> is_digit c then
            (if json_number (takeWhile number_char (c # s))
             then map_option (Cons (TVal (JNum (number_value (takeWhile number_char (c # s)))))) (tokenize (dropWhile number_char (c # s)))
             else None)
          else if prefix ''true'' (c # s) then map_option (Cons (TVal (JBool True))) (tokenize (drop 4 (c # s)))
          else if prefix ''false'' (c # s) then map_option (Cons (TVal (JBool False))) (tokenize (drop 5 (c # s)))
          else if prefix ''null'' (c # s) then map_option (Cons (TVal JNull)) (tokenize (drop 4 (c # s)))
          else None)"
  by pat_completeness auto
termination
proof (relation "measure length")
  fix c :: char and s :: string
  assume "c = CHR ''-'' \<or> is_digit c"
  then have "number_char c" by (auto simp: number_char_def)
  then show "(dropWhile number_char (c # s), c # s) \<in> measure length"
    by (simp add: less_Suc_eq_le length_dropWhile_le)
qed (auto dest: lex_string_shorter)

declare tokenize.simps(2) [simp del]

subsection \<open>Reading\<close>

text \<open>What surrounds the value being read, and where in it the reader is.\<close>

datatype frame = InArray "js list" | InObject props string

datatype reader =
    AtValue "frame list"
  | AtFirst "frame list"
  | AtFirstKey "frame list"
  | AtKey props "frame list"
  | AtColon props string "frame list"
  | AtEnd js "frame list"

fun value_start :: "token \<Rightarrow> frame list \<Rightarrow> reader option" where
  "value_start (TVal v) fs = Some (AtEnd v fs)"
| "value_start TLBracket fs = Some (AtFirst fs)"
| "value_start TLBrace fs = Some (AtFirstKey fs)"
| "value_start _ fs = None"

fun key_start :: "token \<Rightarrow> props \<Rightarrow> frame list \<Rightarrow> reader option" where
  "key_start (TVal (JStr k)) ps fs = Some (AtColon ps k fs)"
| "key_start _ ps fs = None"

fun read_step :: "token \<Rightarrow> reader \<Rightarrow> reader option" where
  "read_step t (AtValue fs) = value_start t fs"
| "read_step t (AtFirst fs) = (if t = TRBracket then Some (AtEnd (JArr []) fs) else value_start t (InArray [] # fs))"
| "read_step t (AtFirstKey fs) = (if t = TRBrace then Some (AtEnd (JObj []) fs) else key_start t [] fs)"
| "read_step t (AtKey ps fs) = key_start t ps fs"
| "read_step t (AtColon ps k fs) = (if t = TColon then Some (AtValue (InObject ps k # fs)) else None)"
| "read_step t (AtEnd v (InArray xs # fs)) =
     (if t = TComma then Some (AtValue (InArray (xs @ [v]) # fs))
      else if t = TRBracket then Some (AtEnd (JArr (xs @ [v])) fs) else None)"
| "read_step t (AtEnd v (InObject ps k # fs)) =
     (if t = TComma then Some (AtKey (map_set k v ps) fs)
      else if t = TRBrace then Some (AtEnd (JObj (map_set k v ps)) fs) else None)"
| "read_step t (AtEnd v []) = None"

fun read_tokens :: "token list \<Rightarrow> reader \<Rightarrow> js option" where
  "read_tokens [] r = (case r of AtEnd v [] \<Rightarrow> Some v | _ \<Rightarrow> None)"
| "read_tokens (t # ts) r = (case read_step t r of None \<Rightarrow> None | Some r' \<Rightarrow> read_tokens ts r')"

definition JSON_parse :: "string \<Rightarrow> js option" where
  "JSON_parse s = (case tokenize s of None \<Rightarrow> None | Some ts \<Rightarrow> read_tokens ts (AtValue []))"

subsection \<open>Strings\<close>

lemma hex_char_value: "d < 16 \<Longrightarrow> is_hex (hex_char d) \<and> digit_val (hex_char d) = d"
  by (auto simp: is_hex_def hex_char_def digit_char_def digit_val_def is_alnum_def is_digit_def is_upper_def is_lower_def in_range_def)

lemma hex_escape_code:
  assumes "n < 256"
  shows "hex_escape [CHR ''0'', CHR ''0'', hex_char (n div 16), hex_char (n mod 16)] = Some (char_of n)"
proof -
  have "code_of (CHR ''0'') = code_of (hex_char 0)" by (simp add: hex_char_def digit_char_def) (simp add: code_of_def)
  then have "CHR ''0'' = hex_char 0" by (simp only: code_of_inject)
  moreover have "n div 16 < 16" "n mod 16 < 16" using assms by auto
  ultimately show ?thesis using assms hex_char_value [of 0]
    by (simp add: hex_escape_def digits_val_def hex_char_value)
qed

lemma lex_string_escape: "lex_string (escape_char c @ s) = map_option (apfst (Cons c)) (lex_string s)"
proof (cases "escape_char c = CHR 0x5C # ''u00'' @ [hex_char (code_of c div 16), hex_char (code_of c mod 16)] \<and> code_of c < 32")
  case True
  moreover from True hex_escape_code [of "code_of c"] have "hex_escape [CHR ''0'', CHR ''0'', hex_char (code_of c div 16), hex_char (code_of c mod 16)] = Some c"
    by (simp add: code_of_def)
  ultimately show ?thesis by (simp add: lex_string.simps(2) simple_escape_def)
next
  case False
  then show ?thesis by (auto simp: escape_char_def lex_string.simps(2) simple_escape_def split: if_splits)
qed

lemma lex_string_escaped: "lex_string (concat (map escape_char s) @ CHR 0x22 # rest) = Some (s, rest)"
  by (induction s) (simp_all add: lex_string_escape, simp add: lex_string.simps(2))

lemma lex_quote [simp]: "tokenize (json_quote s @ rest) = map_option (Cons (TVal (JStr s))) (tokenize rest)"
  by (simp add: json_quote_def tokenize.simps(2) json_space_def punctuation_def lex_string_escaped)

lemma lex_punctuation: "punctuation c = Some t \<Longrightarrow> tokenize (c # s) = map_option (Cons t) (tokenize s)"
  by (auto simp: tokenize.simps(2) json_space_def punctuation_def split: if_splits)

lemma lex_marks [simp]:
  "tokenize (CHR ''{'' # s) = map_option (Cons TLBrace) (tokenize s)" "tokenize (CHR ''}'' # s) = map_option (Cons TRBrace) (tokenize s)"
  "tokenize (CHR ''['' # s) = map_option (Cons TLBracket) (tokenize s)" "tokenize (CHR '']'' # s) = map_option (Cons TRBracket) (tokenize s)"
  "tokenize (CHR '','' # s) = map_option (Cons TComma) (tokenize s)" "tokenize (CHR '':'' # s) = map_option (Cons TColon) (tokenize s)"
  by (simp_all add: lex_punctuation punctuation_def)

subsection \<open>Numbers\<close>

text \<open>A number whose printed text is a number of JSON with its value.\<close>

definition readable :: "jsnum \<Rightarrow> bool" where
  "readable n \<longleftrightarrow> (let s = num_to_string n in json_number s \<and> list_all number_char s \<and> number_value s = n)"

text \<open>What may follow a number.\<close>

definition separated :: "string \<Rightarrow> bool" where
  "separated s \<longleftrightarrow> (case s of [] \<Rightarrow> True | c # _ \<Rightarrow> \<not> number_char c)"

lemma json_number_hd: "json_number s \<Longrightarrow> s \<noteq> [] \<and> (hd s = CHR ''-'' \<or> is_digit (hd s))"
  by (cases s) (auto simp: json_number_def Let_def split: if_splits)

lemma number_start: "c = CHR ''-'' \<or> is_digit c \<Longrightarrow> \<not> json_space c \<and> punctuation c = None \<and> c \<noteq> CHR 0x22"
proof -
  have "list_all (\<lambda>d. \<not> is_digit d \<and> d \<noteq> CHR ''-'') (CHR 0x22 # CHR 0x09 # CHR 0x0A # CHR 0x0D # '' {}[],:'')"
    by (simp add: is_digit_def in_range_def code_of_def)
  then show "c = CHR ''-'' \<or> is_digit c \<Longrightarrow> ?thesis" by (auto simp: json_space_def punctuation_def)
qed

lemma lex_number:
  assumes "readable n" and "separated rest"
  shows "tokenize (num_to_string n @ rest) = map_option (Cons (TVal (JNum n))) (tokenize rest)"
proof -
  let ?s = "num_to_string n"
  from assms(1) have r: "json_number ?s" "list_all number_char ?s" "number_value ?s = n" by (auto simp: readable_def Let_def)
  from json_number_hd [OF r(1)] obtain c s where s: "?s = c # s" "c = CHR ''-'' \<or> is_digit c" by (cases ?s) auto
  have "takeWhile number_char (?s @ rest) = ?s" "dropWhile number_char (?s @ rest) = rest"
    using r(2) assms(2) by (cases rest; auto simp: list_all_iff separated_def takeWhile_append dropWhile_append)+
  with s r number_start [OF s(2)] show ?thesis by (auto simp: tokenize.simps(2))
qed

text \<open>Integers up to \<open>2 ^ 53\<close> are doubles and print in plain decimal.\<close>

lemma ilog2_bounds: "0 < n \<Longrightarrow> 2 ^ ilog2 n \<le> n \<and> n < 2 * 2 ^ ilog2 n"
proof (induction n rule: ilog2.induct)
  case (1 n)
  show ?case
  proof (cases "n \<le> 1")
    case True
    with "1.prems" show ?thesis by (subst (1 2) ilog2.simps) simp
  next
    case False
    then have "2 ^ ilog2 (n div 2) \<le> n div 2 \<and> n div 2 < 2 * 2 ^ ilog2 (n div 2)" by (intro "1.IH") auto
    moreover have "ilog2 n = Suc (ilog2 (n div 2))" using False by (subst ilog2.simps) simp
    ultimately show ?thesis by (simp add: less_mult_imp_div_less) linarith
  qed
qed

lemma rat_log2_nat: "0 < n \<Longrightarrow> rat_log2 (of_nat n) = int (ilog2 n)"
proof -
  assume n: "0 < n"
  have q: "quotient_of (of_nat n) = (int n, 1)" by (simp add: of_nat_rat quotient_of_Fract Rat.normalize_def)
  have "ilog2 1 = 0" by (subst ilog2.simps) simp
  moreover have "(2::rat) ^ ilog2 n \<le> of_nat n"
    using ilog2_bounds [OF n] by (metis of_nat_le_iff of_nat_numeral of_nat_power)
  ultimately show ?thesis by (simp add: rat_log2_def q pow2_def)
qed

lemma round_even_int [simp]: "round_even (of_int i) = i"
  by (simp add: round_even_def)

lemma round_double_nat: "n \<le> 2 ^ 53 \<Longrightarrow> round_double (of_nat n) = Fin (of_nat n)"
proof (cases "n = 0")
  case False
  assume n: "n \<le> 2 ^ 53"
  from False have "0 < n" by simp
  note b = ilog2_bounds [OF this] and lg = rat_log2_nat [OF this]
  have e: "ilog2 n \<le> 53" using b n by (metis le_trans less_exp not_less order.strict_trans1 power_le_imp_le_exp one_less_numeral_iff semiring_norm(76))
  let ?q = "max (int (ilog2 n) - 52) (- 1074)"
  have "\<exists>m::int. of_nat n / pow2 ?q = of_int m"
  proof (cases "ilog2 n = 53")
    case True
    with b n have "n = 2 ^ 53" by simp
    with True show ?thesis by (intro exI [of _ "2 ^ 52"]) (simp add: pow2_def)
  next
    case False
    with e have "?q \<le> 0" by simp
    then show ?thesis by (intro exI [of _ "int n * 2 ^ nat (- ?q)"]) (auto simp: pow2_def)
  qed
  then obtain m :: int where m: "of_nat n / pow2 ?q = of_int m" by blast
  have "of_int (round_even (of_nat n / pow2 ?q)) * pow2 ?q = of_nat n"
    using m by (simp add: pow2_def field_simps split: if_splits)
  moreover have "(of_nat n :: rat) < pow2 1024"
  proof -
    have "(of_nat n :: rat) \<le> of_nat (2 ^ 53)" using n by (simp only: of_nat_le_iff)
    also have "\<dots> < pow2 1024" by (simp add: pow2_def)
    finally show ?thesis .
  qed
  ultimately show ?thesis using False lg by (simp add: round_double_def Let_def)
qed (simp add: round_double_def)

lemma digit_val_digit [simp]: "d < 10 \<Longrightarrow> digit_val (digit_char d) = d"
  by (simp add: digit_val_def digit_char_def is_digit_def in_range_def)

lemma digits_val_show_nat: "digits_val 10 (show_nat n) = n"
proof (induction n rule: show_nat.induct)
  case (1 n)
  show ?case
  proof (cases "n < 10")
    case True
    then show ?thesis by (subst show_nat.simps) (simp add: digits_val_def)
  next
    case False
    with 1 show ?thesis by (subst show_nat.simps) (simp add: digits_val_def)
  qed
qed

lemma show_nat_hd: "hd (show_nat n) = CHR ''0'' \<Longrightarrow> length (show_nat n) = 1"
proof (induction n rule: show_nat.induct)
  case (1 n)
  show ?case
  proof (cases "n < 10")
    case False
    then have s: "show_nat n = show_nat (n div 10) @ [digit_char (n mod 10)]" by (subst show_nat.simps) simp
    with "1.prems" "1.IH" [OF False] have "length (show_nat (n div 10)) = 1" "hd (show_nat (n div 10)) = CHR ''0''" by simp_all
    then have z: "show_nat (n div 10) = ''0''" by (cases "show_nat (n div 10)") auto
    have "digit_val (CHR ''0'') = 0" by (simp add: digit_val_def is_digit_def in_range_def code_of_def)
    with digits_val_show_nat [of "n div 10"] have "n div 10 = 0" by (simp add: z digits_val_def)
    with False show ?thesis by simp
  qed (subst show_nat.simps, simp)
qed

lemma show_nat_span [simp]: "takeWhile is_digit (show_nat n) = show_nat n" "dropWhile is_digit (show_nat n) = []"
  using show_nat_digits by auto

lemma show_nat_number:
  assumes "n \<le> 2 ^ 53"
  shows "hd (show_nat n) \<noteq> CHR ''-''" "unsigned_decimal (show_nat n) = Fin (of_nat n)"
proof -
  have d: "is_digit (hd (show_nat n))" by (rule show_nat_digits [of _ n]) simp
  then show "hd (show_nat n) \<noteq> CHR ''-''" by (auto simp: is_digit_def in_range_def code_of_def)
  have "show_nat n \<noteq> ''Infinity''" using d by (auto simp: is_digit_def in_range_def code_of_def)
  with assms show "unsigned_decimal (show_nat n) = Fin (of_nat n)"
    by (simp add: unsigned_decimal_def Let_def digits_val_show_nat pow10_def round_double_nat)
qed

lemma readable_int: "\<bar>i\<bar> \<le> 2 ^ 53 \<Longrightarrow> readable (Fin (of_int i))"
proof -
  assume i: "\<bar>i\<bar> \<le> 2 ^ 53"
  have shown: "num_to_string (Fin (of_int i)) = show_int i"
  proof -
    have "\<bar>of_int i :: rat\<bar> = of_int \<bar>i\<bar>" by simp
    also have "\<dots> \<le> of_int (2 ^ 53)" using i by (simp only: of_int_le_iff)
    finally show ?thesis by (simp add: num_to_string_def)
  qed
  let ?n = "nat \<bar>i\<bar>"
  have n: "?n \<le> 2 ^ 53" using i by (simp add: nat_le_iff)
  note f = show_nat_number [OF n]
  have "list_all number_char (show_nat ?n)" using show_nat_digits by (auto simp: list_all_iff number_char_def)
  moreover have "number_char (CHR ''-'')" by (simp add: number_char_def)
  ultimately show ?thesis
    using f show_nat_hd [of ?n]
    by (cases "i < 0") (simp_all add: readable_def shown show_int_def json_number_def number_value_def Let_def Ball_def show_nat_digits)
qed

subsection \<open>Values\<close>

fun commas :: "token list list \<Rightarrow> token list" where
  "commas [] = []"
| "commas [x] = x"
| "commas (x # y # xs) = x @ TComma # commas (y # xs)"

fun tokens_of :: "js \<Rightarrow> token list" where
  "tokens_of (JArr xs) = TLBracket # commas (map tokens_of xs) @ [TRBracket]"
| "tokens_of (JObj ps) =
     TLBrace # commas (map (\<lambda>(k, v). TVal (JStr k) # TColon # tokens_of v) (filter (\<lambda>(k, v). v \<noteq> JUndef) ps)) @ [TRBrace]"
| "tokens_of v = [TVal (json_val v)]"

text \<open>Objects have every key once, as in JavaScript, and numbers are readable.\<close>

fun json_ok :: "js \<Rightarrow> bool" where
  "json_ok (JNum n) \<longleftrightarrow> (num_is_finite n \<longrightarrow> readable n)"
| "json_ok (JArr xs) \<longleftrightarrow> list_all json_ok xs"
| "json_ok (JObj ps) \<longleftrightarrow> map_wf ps \<and> list_all (\<lambda>(k, v). json_ok v) ps"
| "json_ok _ \<longleftrightarrow> True"

lemma separated_simps [simp]: "separated []" "separated (CHR '','' # s)" "separated (CHR '']'' # s)" "separated (CHR ''}'' # s)"
  by (auto simp: separated_def number_char_def is_digit_def in_range_def code_of_def)

lemma lex_words [simp]:
  "tokenize (CHR ''n'' # CHR ''u'' # CHR ''l'' # CHR ''l'' # s) = map_option (Cons (TVal JNull)) (tokenize s)"
  "tokenize (CHR ''t'' # CHR ''r'' # CHR ''u'' # CHR ''e'' # s) = map_option (Cons (TVal (JBool True))) (tokenize s)"
  "tokenize (CHR ''f'' # CHR ''a'' # CHR ''l'' # CHR ''s'' # CHR ''e'' # s) = map_option (Cons (TVal (JBool False))) (tokenize s)"
  by (simp_all add: tokenize.simps(2) json_space_def punctuation_def is_digit_def in_range_def code_of_def)

lemma append_single [simp]: "(@) [x] = (#) x"
  by (rule ext) simp

lemma lex_join:
  assumes "\<And>x rest. x \<in> set xs \<Longrightarrow> separated rest \<Longrightarrow> tokenize (f x @ rest) = map_option (append (g x)) (tokenize rest)" and "separated rest"
  shows "tokenize (join '','' (map f xs) @ rest) = map_option (append (commas (map g xs))) (tokenize rest)"
  using assms
proof (induction xs rule: induct_list012)
  case (3 x y xs)
  then have "tokenize (join '','' (map f (y # xs)) @ rest) = map_option (append (commas (map g (y # xs)))) (tokenize rest)" by simp
  with 3 show ?case by (auto simp: option.map_comp comp_def)
qed (simp_all add: option.map_ident append_def)

lemma lex_print: "json_ok v \<Longrightarrow> separated rest \<Longrightarrow> tokenize (json_print v @ rest) = map_option (append (tokens_of v)) (tokenize rest)"
proof (induction v arbitrary: rest rule: json_print.induct)
  case (8 xs)
  then have "tokenize (join '','' (map json_print xs) @ CHR '']'' # rest) = map_option (append (commas (map tokens_of xs))) (tokenize (CHR '']'' # rest))"
    by (intro lex_join) (auto simp: list_all_iff)
  then show ?case by (simp add: option.map_comp comp_def)
next
  case (9 ps)
  let ?ps = "filter (\<lambda>(k, v). v \<noteq> JUndef) ps"
  have "tokenize (join '','' (map (\<lambda>(k, v). json_quote k @ '':'' @ json_print v) ?ps) @ CHR ''}'' # rest) =
      map_option (append (commas (map (\<lambda>(k, v). TVal (JStr k) # TColon # tokens_of v) ?ps))) (tokenize (CHR ''}'' # rest))"
  proof (rule lex_join)
    fix x and rest :: string
    assume x: "x \<in> set ?ps" "separated rest"
    obtain k v where kv: "x = (k, v)" by fastforce
    with x "9.prems" have "json_ok v" by (auto simp: list_all_iff)
    with "9.IH" [of x k v rest] x kv have "tokenize (json_print v @ rest) = map_option (append (tokens_of v)) (tokenize rest)" by blast
    then show "tokenize ((case x of (k, v) \<Rightarrow> json_quote k @ '':'' @ json_print v) @ rest) =
        map_option (append (case x of (k, v) \<Rightarrow> TVal (JStr k) # TColon # tokens_of v)) (tokenize rest)"
      by (cases "tokenize rest") (simp_all add: kv)
  qed simp
  then show ?case by (simp add: option.map_comp comp_def)
qed (auto simp: lex_number)

lemma tokens_of_start: "tokens_of v = t # ts \<Longrightarrow> t \<noteq> TRBracket"
  by (cases v) auto

lemma tokens_of_not_Nil [simp]: "tokens_of v \<noteq> []"
  by (cases v) auto

lemma commas_start: "xs \<noteq> [] \<Longrightarrow> \<exists>us. commas xs = hd xs @ us"
  by (cases xs rule: commas.cases) auto

lemma read_array:
  assumes "xs \<noteq> []" and "\<And>x ts fs. x \<in> set xs \<Longrightarrow> read_tokens (tokens_of x @ ts) (AtValue fs) = read_tokens ts (AtEnd (json_val x) fs)"
  shows "read_tokens (commas (map tokens_of xs) @ TRBracket # ts) (AtValue (InArray acc # fs)) =
    read_tokens ts (AtEnd (JArr (acc @ map json_val xs)) fs)"
  using assms by (induction xs arbitrary: acc rule: induct_list012) simp_all

abbreviation prop_tokens :: "string \<times> js \<Rightarrow> token list" where
  "prop_tokens \<equiv> \<lambda>(k, v). TVal (JStr k) # TColon # tokens_of v"

lemma read_object:
  assumes "ps \<noteq> []" and "\<And>k v ts fs. (k, v) \<in> set ps \<Longrightarrow> read_tokens (tokens_of v @ ts) (AtValue fs) = read_tokens ts (AtEnd (json_val v) fs)"
  shows "read_tokens (commas (map prop_tokens ps) @ TRBrace # ts) (AtKey acc fs) =
    read_tokens ts (AtEnd (JObj (spread acc (map (\<lambda>(k, v). (k, json_val v)) ps))) fs)"
  using assms
proof (induction ps arbitrary: acc rule: induct_list012)
  case (2 p)
  then show ?case by (cases p) simp
next
  case (3 p q ps)
  obtain k v where p: "p = (k, v)" by fastforce
  have "read_tokens (commas (map prop_tokens (q # ps)) @ TRBrace # ts) (AtKey (map_set k (json_val v) acc) fs) =
      read_tokens ts (AtEnd (JObj (spread (map_set k (json_val v) acc) (map (\<lambda>(k, v). (k, json_val v)) (q # ps)))) fs)"
    using "3.prems"(2) by (intro "3.IH"(2)) auto
  moreover have "read_tokens (tokens_of v @ us) (AtValue gs) = read_tokens us (AtEnd (json_val v) gs)" for us gs
    by (rule "3.prems"(2) [of k]) (simp add: p)
  ultimately show ?case by (simp add: p)
qed simp

lemma spread_fresh: "map_wf ps \<Longrightarrow> spread [] ps = ps"
  using fold_map_set_fresh [of ps "[]"] by (simp add: spread_def map_wf_def)

lemma read_printed: "json_ok v \<Longrightarrow> read_tokens (tokens_of v @ ts) (AtValue fs) = read_tokens ts (AtEnd (json_val v) fs)"
proof (induction v arbitrary: ts fs rule: tokens_of.induct)
  case (1 xs)
  show ?case
  proof (cases "xs = []")
    case False
    then obtain t us where t: "commas (map tokens_of xs) = t # us" "t \<noteq> TRBracket"
      using commas_start [of "map tokens_of xs"] tokens_of_start [of "hd xs"]
      by (cases "tokens_of (hd xs)") (auto simp: hd_map)
    have "read_tokens (tokens_of (JArr xs) @ ts) (AtValue fs) = read_tokens (commas (map tokens_of xs) @ TRBracket # ts) (AtValue (InArray [] # fs))"
      using t by simp
    also have "\<dots> = read_tokens ts (AtEnd (JArr ([] @ map json_val xs)) fs)"
      using False 1 by (intro read_array) (auto simp: list_all_iff)
    finally show ?thesis by simp
  qed simp
next
  case (2 ps)
  let ?ps = "filter (\<lambda>(k, v). v \<noteq> JUndef) ps"
  show ?case
  proof (cases "?ps = []")
    case False
    then obtain k us where t: "commas (map prop_tokens ?ps) = TVal (JStr k) # us"
      using commas_start [of "map prop_tokens ?ps"] by (cases "hd ?ps") (auto simp: hd_map)
    have wf: "map_wf (map (\<lambda>(k, v). (k, json_val v)) ?ps)"
      using "2.prems" by (auto simp: map_wf_def comp_def case_prod_beta distinct_map_filter)
    have "read_tokens (tokens_of (JObj ps) @ ts) (AtValue fs) = read_tokens (commas (map prop_tokens ?ps) @ TRBrace # ts) (AtKey [] fs)"
      using t by simp
    also have "\<dots> = read_tokens ts (AtEnd (JObj (spread [] (map (\<lambda>(k, v). (k, json_val v)) ?ps))) fs)"
      using False 2 by (intro read_object) (auto simp: list_all_iff)
    finally show ?thesis using wf by (simp add: spread_fresh)
  qed simp
qed auto


text \<open>Reading what was printed gives what \<open>json_val\<close> keeps of the value.\<close>

lemma parse_print: "json_ok v \<Longrightarrow> JSON_parse (json_print v) = Some (json_val v)"
  using lex_print [of v "[]"] read_printed [of v "[]" "[]"] by (simp add: JSON_parse_def)

lemma JSON_roundtrip: "json_ok v \<Longrightarrow> JSON_stringify v = Some t \<Longrightarrow> JSON_parse t = Some (json_val v)"
  by (auto simp: JSON_stringify_def parse_print split: if_splits)

text \<open>A text as the stores see it.\<close>

definition seen_text :: "string \<Rightarrow> json_text" where
  "seen_text s = (if s = [] then EmptyText else case JSON_parse s of None \<Rightarrow> Malformed | Some v \<Rightarrow> Text v)"

lemma seen_text_parse: "json_parse (seen_text s) = JSON_parse s"
  by (simp add: seen_text_def JSON_parse_def split: option.split)

lemma seen_text_print: "json_ok v \<Longrightarrow> seen_text (json_print v) = json_stringify v"
  using parse_print [of v] by (auto simp: seen_text_def json_stringify_def JSON_parse_def)

end
