(* ===== verification/Ssh_Executor.thy ===== *)
theory Ssh_Executor
  imports Ssh_Connection Json
begin

text \<open>
  \<open>apps/desktop/src/main/ssh/SSHExecutor.ts\<close>: commands over an SSH connection. A single execution is
  a machine driven by the events of its channel, its timer and its abort signal, which settles its
  promise once; the retry loop runs executions over any state \<open>'s\<close> of the world, with the awaited
  results of \<open>getClient\<close> and of an execution as arguments. Chunks of output are the texts they decode
  to. What is logged is in \<open>Ssh_Log\<close>.
\<close>

subsection \<open>One execution\<close>

definition parseRemoteError :: "string \<Rightarrow> (string \<times> string) option" where
  "parseRemoteError stderr =
     (let raw = trim stderr in
      if \<not> starts_with raw ''{'' then None
      else case JSON_parse raw of
        None \<Rightarrow> None
      | Some parsed \<Rightarrow>
          (case (get parsed ''message'', get parsed ''code'') of
             (JStr message, JStr code) \<Rightarrow> Some (redactPotentialSecrets message, code)
           | _ \<Rightarrow> None))"

text \<open>
  The closure variables of \<open>execOnClient\<close>: what the promise settled to (\<open>settled\<close> is that it is there),
  the stream, its output, and whether the timer and the abort listener are set.
\<close>

record exec_state =
  ex_outcome :: "(js_error + string) option"
  stream_open :: bool
  stream_closed :: bool
  ex_stdout :: string
  ex_stderr :: string
  armed :: bool

definition rejectOnce :: "js_error \<Rightarrow> exec_state \<Rightarrow> exec_state" where
  "rejectOnce e st = (if ex_outcome st \<noteq> None then st else st\<lparr>ex_outcome := Some (Inl e), armed := False\<rparr>)"

definition resolveOnce :: "string \<Rightarrow> exec_state \<Rightarrow> exec_state" where
  "resolveOnce out st = (if ex_outcome st \<noteq> None then st else st\<lparr>ex_outcome := Some (Inr out), armed := False\<rparr>)"

definition abortStream :: "exec_state \<Rightarrow> exec_state" where
  "abortStream st = (if stream_open st then st\<lparr>stream_closed := True\<rparr> else st)"

definition exec_onAbort :: "exec_state \<Rightarrow> exec_state" where
  "exec_onAbort st = rejectOnce aborted_error (abortStream st)"

definition exec_onTimeout :: "exec_state \<Rightarrow> exec_state" where
  "exec_onTimeout st = rejectOnce (RemoteExecutionError ''SSH command timed out'' ''SSH_TIMEOUT'') (abortStream st)"

definition exit_error :: "string \<Rightarrow> js \<Rightarrow> js_error" where
  "exit_error stderr code =
     (case parseRemoteError stderr of
        Some (m, c) \<Rightarrow> RemoteExecutionError m c
      | None \<Rightarrow>
          RemoteExecutionError
            (if redactPotentialSecrets stderr \<noteq> [] then redactPotentialSecrets stderr
             else ''SSH exited with code '' @ js_to_string code) ''SSH_NON_ZERO'')"

definition exec_onClose :: "js \<Rightarrow> exec_state \<Rightarrow> exec_state" where
  "exec_onClose code st =
     (if code \<noteq> jint 0 then rejectOnce (exit_error (ex_stderr st) code) st
      else resolveOnce (trim (ex_stdout st)) st)"

datatype exec_event =
    OpenFailed string
  | StreamOpened
  | StdoutData string
  | StderrData string
  | StreamClosed js
  | TimerFired
  | SignalAborted

fun exec_event_step :: "exec_event \<Rightarrow> exec_state \<Rightarrow> exec_state" where
  "exec_event_step (OpenFailed msg) st =
     rejectOnce (RemoteExecutionError (redactPotentialSecrets msg) ''SSH_EXEC_OPEN_FAILED'') st"
| "exec_event_step StreamOpened st = st\<lparr>stream_open := True, ex_stdout := [], ex_stderr := []\<rparr>"
| "exec_event_step (StdoutData chunk) st = st\<lparr>ex_stdout := ex_stdout st @ chunk\<rparr>"
| "exec_event_step (StderrData chunk) st = st\<lparr>ex_stderr := ex_stderr st @ chunk\<rparr>"
| "exec_event_step (StreamClosed code) st = exec_onClose code st"
| "exec_event_step TimerFired st = (if armed st then exec_onTimeout st else st)"
| "exec_event_step SignalAborted st = (if armed st then exec_onAbort st else st)"

definition start_exec :: "bool \<Rightarrow> exec_state" where
  "start_exec aborted =
     (let st = \<lparr>ex_outcome = None, stream_open = False, stream_closed = False, ex_stdout = [], ex_stderr = [], armed = False\<rparr>
      in if aborted then exec_onAbort st else st\<lparr>armed := True\<rparr>)"

definition execOnClient :: "bool \<Rightarrow> exec_event list \<Rightarrow> exec_state" where
  "execOnClient aborted events = foldl (\<lambda>st e. exec_event_step e st) (start_exec aborted) events"

subsection \<open>Retries\<close>

definition shouldRetry :: "js_error \<Rightarrow> int \<Rightarrow> int \<Rightarrow> bool" where
  "shouldRetry e attempt totalAttempts =
     (if attempt \<ge> totalAttempts then False
      else case e of RemoteExecutionError _ code \<Rightarrow> code = CONNECT_FAILED_CODE | _ \<Rightarrow> False)"

text \<open>\<open>delay\<close> resolves after its time unless the signal is or becomes aborted.\<close>

definition delay :: "bool \<Rightarrow> bool \<Rightarrow> js_error + unit" where
  "delay aborted aborted_before_timer = (if aborted \<or> aborted_before_timer then Inl aborted_error else Inr ())"

text \<open>The loop after \<open>attempt\<close> failed attempts.\<close>

function retry_loop ::
  "int \<Rightarrow> ('s, js_error, string) io \<Rightarrow> (int \<Rightarrow> ('s, js_error, unit) io) \<Rightarrow> int \<Rightarrow> int \<Rightarrow> js_error option \<Rightarrow> ('s, js_error, string) io" where
  "retry_loop base run wait totalAttempts attempt lastError s =
     (if attempt < totalAttempts then
        (case run s of
           (Inr output, s1) \<Rightarrow> (Inr output, s1)
         | (Inl e, s1) \<Rightarrow>
             if \<not> shouldRetry e (attempt + 1) totalAttempts then (Inl e, s1)
             else (case wait (base * 2 ^ nat attempt) s1 of
                 (Inl e', s2) \<Rightarrow> (Inl e', s2)
               | (Inr _, s2) \<Rightarrow> retry_loop base run wait totalAttempts (attempt + 1) (Some e) s2))
      else (Inl (case lastError of
          Some e \<Rightarrow> if is_error e then e else RemoteExecutionError ''SSH execution failed'' ''SSH_EXEC_FAILED''
        | None \<Rightarrow> RemoteExecutionError ''SSH execution failed'' ''SSH_EXEC_FAILED''), s))"
  by auto
termination
  by (relation "measure (\<lambda>(_, _, _, totalAttempts, attempt, _, _). nat (totalAttempts - attempt))") auto

declare retry_loop.simps [simp del]

definition execWithRetry ::
  "int \<Rightarrow> int \<Rightarrow> ('s, js_error, nat) io \<Rightarrow> (nat \<Rightarrow> string \<Rightarrow> ('s, js_error, string) io) \<Rightarrow> (int \<Rightarrow> ('s, js_error, unit) io) \<Rightarrow>
   string \<Rightarrow> ('s, js_error, string) io" where
  "execWithRetry maxRetries base connection exec wait command =
     retry_loop base (bind connection (\<lambda>client. exec client command)) wait (maxRetries + 1) 0 None"

subsection \<open>Commands\<close>

text \<open>The bytes of a text in UTF-8, and base64.\<close>

definition utf8 :: "string \<Rightarrow> nat list" where
  "utf8 s = concat (map (\<lambda>c. if code_of c < 128 then [code_of c] else [192 + code_of c div 64, 128 + code_of c mod 64]) s)"

definition base64_alphabet :: string where
  "base64_alphabet = ''ABCDEFGHIJKLMNOPQRSTUVWXYZabcdefghijklmnopqrstuvwxyz0123456789+/''"

definition base64_char :: "nat \<Rightarrow> char" where
  "base64_char i = base64_alphabet ! (i mod 64)"

fun base64 :: "nat list \<Rightarrow> string" where
  "base64 [] = []"
| "base64 [a] = [base64_char (a div 4), base64_char (a mod 4 * 16), CHR ''='', CHR ''='']"
| "base64 [a, b] = [base64_char (a div 4), base64_char (a mod 4 * 16 + b div 16), base64_char (b mod 16 * 4), CHR ''='']"
| "base64 (a # b # c # bs) =
     base64_char (a div 4) # base64_char (a mod 4 * 16 + b div 16) # base64_char (b mod 16 * 4 + c div 64) # base64_char (c mod 64) #
     base64 bs"

text \<open>The command line; \<open>Buffer.from\<close> throws for the \<open>undefined\<close> that \<open>JSON.stringify\<close> gives for \<open>undefined\<close>.\<close>

definition remoteCommand :: "string \<Rightarrow> string \<Rightarrow> js \<Rightarrow> string option" where
  "remoteCommand cliPath command payload =
     map_option (\<lambda>serialized. cliPath @ '' '' @ command @ '' '' @ base64 (utf8 serialized)) (JSON_stringify payload)"

record ssh_executor =
  cliPath :: string
  maxRetries :: int
  retryBaseDelayMs :: int

definition new_SSHExecutor :: "string \<Rightarrow> int option \<Rightarrow> int option \<Rightarrow> ssh_executor" where
  "new_SSHExecutor path retries base =
     \<lparr>cliPath = path, maxRetries = (case retries of None \<Rightarrow> 1 | Some n \<Rightarrow> n),
      retryBaseDelayMs = (case base of None \<Rightarrow> 250 | Some n \<Rightarrow> n)\<rparr>"

definition ssh_execute ::
  "ssh_executor \<Rightarrow> ('s, js_error, nat) io \<Rightarrow> (nat \<Rightarrow> string \<Rightarrow> ('s, js_error, string) io) \<Rightarrow> (int \<Rightarrow> ('s, js_error, unit) io) \<Rightarrow>
   string \<Rightarrow> js \<Rightarrow> ('s, js_error, js) io" where
  "ssh_execute x connection exec wait command payload =
     (case remoteCommand (cliPath x) command payload of
        None \<Rightarrow> throw (Error ''The first argument must be of type string or an instance of Buffer'')
      | Some line \<Rightarrow>
          bind (execWithRetry (maxRetries x) (retryBaseDelayMs x) connection exec wait line)
            (\<lambda>output. case JSON_parse output of
               None \<Rightarrow> throw (RemoteExecutionError ''Invalid JSON from SSH target'' ''BAD_REMOTE_PAYLOAD'')
             | Some v \<Rightarrow> ret v))"

definition ssh_marker :: string where
  "ssh_marker = ''__nginx_admin_ssh_ok__''"

definition checkConnection ::
  "('s, js_error, nat) io \<Rightarrow> (nat \<Rightarrow> string \<Rightarrow> ('s, js_error, string) io) \<Rightarrow> ('s, js_error, unit) io" where
  "checkConnection connection exec =
     bind connection (\<lambda>client. bind (exec client (''echo '' @ ssh_marker)) (\<lambda>output.
       if output \<noteq> ssh_marker then throw (RemoteExecutionError (''Unexpected SSH health-check output: '' @ output) ''SSH_HEALTHCHECK_FAILED'')
       else ret ()))"

definition runShell ::
  "ssh_executor \<Rightarrow> ('s, js_error, nat) io \<Rightarrow> (nat \<Rightarrow> string \<Rightarrow> ('s, js_error, string) io) \<Rightarrow> (int \<Rightarrow> ('s, js_error, unit) io) \<Rightarrow>
   string \<Rightarrow> ('s, js_error, string) io" where
  "runShell x connection exec wait command = execWithRetry (maxRetries x) (retryBaseDelayMs x) connection exec wait command"

subsection \<open>What an execution settles to\<close>

text \<open>The first event that can end the execution decides it, with the output that came before.\<close>

fun decided :: "string \<Rightarrow> string \<Rightarrow> exec_event list \<Rightarrow> (js_error + string) option" where
  "decided out err [] = None"
| "decided out err (OpenFailed msg # _) = Some (Inl (RemoteExecutionError (redactPotentialSecrets msg) ''SSH_EXEC_OPEN_FAILED''))"
| "decided out err (StreamOpened # es) = decided [] [] es"
| "decided out err (StdoutData chunk # es) = decided (out @ chunk) err es"
| "decided out err (StderrData chunk # es) = decided out (err @ chunk) es"
| "decided out err (StreamClosed code # _) = Some (if code = jint 0 then Inr (trim out) else Inl (exit_error err code))"
| "decided out err (TimerFired # _) = Some (Inl (RemoteExecutionError ''SSH command timed out'' ''SSH_TIMEOUT''))"
| "decided out err (SignalAborted # _) = Some (Inl aborted_error)"

lemmas exec_handlers = rejectOnce_def resolveOnce_def abortStream_def exec_onAbort_def exec_onTimeout_def exec_onClose_def

abbreviation exec_steps :: "exec_state \<Rightarrow> exec_event list \<Rightarrow> exec_state" where
  "exec_steps \<equiv> foldl (\<lambda>st e. exec_event_step e st)"

lemma settled_stays: "ex_outcome st = Some r \<Longrightarrow> ex_outcome (exec_steps st es) = Some r"
proof (induction es arbitrary: st)
  case (Cons e es)
  then have "ex_outcome (exec_event_step e st) = Some r" by (cases e) (simp_all add: exec_handlers)
  with Cons.IH show ?case by simp
qed simp

lemma exec_steps_decided:
  "ex_outcome st = None \<Longrightarrow> armed st \<Longrightarrow> ex_outcome (exec_steps st es) = decided (ex_stdout st) (ex_stderr st) es"
proof (induction es arbitrary: st)
  case (Cons e es)
  then show ?case by (cases e) (auto simp: exec_handlers intro!: settled_stays)
qed simp

lemma decided_timer: "TimerFired \<in> set es \<Longrightarrow> decided out err es \<noteq> None"
  by (induction out err es rule: decided.induct) auto

subsection \<open>What the retry loop does\<close>

text \<open>A world that answers the attempts from a list and records the delays.\<close>

type_synonym script = "(js_error + string) list \<times> int list"

fun scripted_run :: "(script, js_error, string) io" where
  "scripted_run (r # rs, ds) = (r, (rs, ds))"
| "scripted_run ([], ds) = (Inl (Thrown JUndef), ([], ds))"

definition scripted_connection :: "(script, js_error, nat) io" where
  "scripted_connection = (\<lambda>(rs, ds). case rs of Inl e # rs' \<Rightarrow> (Inl e, (rs', ds)) | _ \<Rightarrow> (Inr 0, (rs, ds)))"

definition scripted_exec :: "nat \<Rightarrow> string \<Rightarrow> (script, js_error, string) io" where
  "scripted_exec client command = scripted_run"

fun scripted_wait :: "int \<Rightarrow> (script, js_error, unit) io" where
  "scripted_wait t (rs, ds) = (Inr (), (rs, ds @ [t]))"

fun connect_failed :: "js_error + string \<Rightarrow> bool" where
  "connect_failed (Inl (RemoteExecutionError _ code)) \<longleftrightarrow> code = CONNECT_FAILED_CODE"
| "connect_failed _ \<longleftrightarrow> False"

lemma scripted_attempt: "bind scripted_connection (\<lambda>client. scripted_exec client command) = scripted_run"
proof (rule ext)
  fix w :: script
  obtain rs ds where w: "w = (rs, ds)" by fastforce
  show "bind scripted_connection (\<lambda>client. scripted_exec client command) w = scripted_run w"
    by (cases rs; cases "hd rs") (auto simp: w bind_def scripted_connection_def scripted_exec_def)
qed

lemma shouldRetry_iff: "shouldRetry e attempt n \<longleftrightarrow> attempt < n \<and> connect_failed (Inl e)"
  by (cases e) (auto simp: shouldRetry_def)

text \<open>The number of failed attempts that are followed by another one.\<close>

definition retries :: "nat \<Rightarrow> (js_error + string) list \<Rightarrow> nat" where
  "retries bound rs = min (length (takeWhile connect_failed rs)) bound"

lemma retries_simps [simp]:
  "retries 0 rs = 0" "connect_failed r \<Longrightarrow> retries (Suc b) (r # rs) = Suc (retries b rs)"
  "\<not> connect_failed r \<Longrightarrow> retries b (r # rs) = 0"
  by (simp_all add: retries_def)

lemma retry_loop_scripted:
  assumes "0 \<le> attempt" and "b < length rs"
  shows "retry_loop base scripted_run scripted_wait (attempt + 1 + int b) attempt e0 (rs, ds) =
    (rs ! retries b rs, (drop (Suc (retries b rs)) rs, ds @ map (\<lambda>i. base * 2 ^ (nat attempt + i)) [0..<retries b rs]))"
  using assms
proof (induction b arbitrary: attempt rs e0 ds)
  case 0
  then obtain r rs' where rs: "rs = r # rs'" by (cases rs) auto
  show ?case by (subst retry_loop.simps) (simp add: rs shouldRetry_iff split: sum.split)
next
  case (Suc b)
  then obtain r rs' where rs: "rs = r # rs'" and len: "b < length rs'" by (cases rs) auto
  show ?case
  proof (cases "connect_failed r")
    case True
    then obtain e where e: "r = Inl e" by (cases r) auto
    have shift: "map (\<lambda>i. base * 2 ^ (nat (attempt + 1) + i)) [0..<k] = map (\<lambda>i. base * 2 ^ (nat attempt + i)) [1..<Suc k]" for k
      using Suc.prems(1) by (simp add: nat_add_distrib map_Suc_upt [symmetric] del: upt_Suc map_Suc_upt)
    have "attempt + 1 + int (Suc b) = (attempt + 1) + 1 + int b" by simp
    then have "retry_loop base scripted_run scripted_wait (attempt + 1 + int (Suc b)) attempt e0 (rs, ds) =
        retry_loop base scripted_run scripted_wait ((attempt + 1) + 1 + int b) (attempt + 1) (Some e) (rs', ds @ [base * 2 ^ nat attempt])"
      using True by (subst retry_loop.simps) (simp add: rs e shouldRetry_iff add.assoc)
    also note Suc.IH [OF _ len]
    finally show ?thesis
      using True Suc.prems(1) by (simp add: rs shift upt_conv_Cons del: upt_Suc)
  next
    case False
    then show ?thesis by (subst retry_loop.simps) (auto simp: rs shouldRetry_iff split: sum.split)
  qed
qed

subsection \<open>Base64\<close>

definition base64_value :: "char \<Rightarrow> nat" where
  "base64_value c = length (takeWhile (\<lambda>d. d \<noteq> c) base64_alphabet)"

fun base64_decode :: "string \<Rightarrow> nat list" where
  "base64_decode (w # x # y # z # s) =
     (let a = base64_value w; b = base64_value x; c = base64_value y; d = base64_value z in
      if y = CHR ''='' then [a * 4 + b div 16]
      else if z = CHR ''='' then [a * 4 + b div 16, b mod 16 * 16 + c div 4]
      else (a * 4 + b div 16) # (b mod 16 * 16 + c div 4) # (c mod 4 * 64 + d) # base64_decode s)"
| "base64_decode _ = []"

lemma base64_table: "list_all (\<lambda>i. base64_value (base64_alphabet ! i) = i \<and> base64_alphabet ! i \<noteq> CHR ''='') [0..<64]"
  by code_simp

lemma base64_char_simps [simp]: "base64_value (base64_char i) = i mod 64" "base64_char i \<noteq> CHR ''=''"
  using base64_table by (auto simp: list_all_iff base64_char_def)

lemma base64_char_alphabet: "base64_char i \<in> set base64_alphabet"
proof -
  have "length base64_alphabet = 64" by code_simp
  then show ?thesis by (simp add: base64_char_def)
qed

lemma base64_chars: "set (base64 bs) \<subseteq> insert (CHR ''='') (set base64_alphabet)"
  by (induction bs rule: base64.induct) (auto simp: base64_char_alphabet)

lemma byte_parts:
  fixes a b c :: nat
  assumes "a < 256" and "b < 256" and "c < 256"
  shows "a div 4 mod 64 * 4 + (a mod 4 * 16 + b div 16) mod 64 div 16 = a"
    "(a mod 4 * 16 + b div 16) mod 64 mod 16 * 16 + (b mod 16 * 4 + c div 64) mod 64 div 4 = b"
    "(b mod 16 * 4 + c div 64) mod 64 mod 4 * 64 + c mod 64 mod 64 = c"
proof -
  have 1: "a div 4 < 64" "a mod 4 * 16 + b div 16 < 64" "b mod 16 * 4 + c div 64 < 64" using assms by linarith+
  have 2: "b div 16 < 16" "c div 64 < 4" using assms by linarith+
  show "a div 4 mod 64 * 4 + (a mod 4 * 16 + b div 16) mod 64 div 16 = a" using 1 2 by simp
  show "(a mod 4 * 16 + b div 16) mod 64 mod 16 * 16 + (b mod 16 * 4 + c div 64) mod 64 div 4 = b" using 1 2 by simp
  show "(b mod 16 * 4 + c div 64) mod 64 mod 4 * 64 + c mod 64 mod 64 = c" using 1 2 by simp
qed

lemma base64_roundtrip: "list_all (\<lambda>b. b < 256) bs \<Longrightarrow> base64_decode (base64 bs) = bs"
proof (induction bs rule: base64.induct)
  case (2 a)
  with byte_parts [of a 0 0] show ?case by (simp add: Let_def)
next
  case (3 a b)
  then have "a < 256" "b < 256" by simp_all
  with byte_parts(1,2) [of a b 0] show ?case by (simp add: Let_def)
next
  case (4 a b c bs)
  then have "a < 256" "b < 256" "c < 256" and IH: "base64_decode (base64 bs) = bs" by simp_all
  from byte_parts [OF this(1-3)] IH show ?case by (simp add: Let_def)
qed simp

lemma utf8_bytes: "list_all (\<lambda>b. b < 256) (utf8 s)"
proof -
  have "192 + code_of c div 64 < 256" "128 + code_of c mod 64 < 256" "code_of c < 256" for c
    using code_of_less [of c] by linarith+
  then show ?thesis by (auto simp: utf8_def list_all_iff)
qed

text \<open>How the remote side reads the bytes of a payload with Latin-1 characters.\<close>

fun utf8_decode :: "nat list \<Rightarrow> string" where
  "utf8_decode [] = []"
| "utf8_decode (a # bs) =
     (if a < 128 then char_of a # utf8_decode bs
      else case bs of [] \<Rightarrow> [] | b # cs \<Rightarrow> char_of (a mod 64 * 64 + b mod 64) # utf8_decode cs)"

lemma utf8_roundtrip [simp]: "utf8_decode (utf8 s) = s"
proof (induction s)
  case (Cons c s)
  have m: "(192 + q) mod 64 = q mod 64" "(128 + q) mod 64 = q mod 64" for q :: nat
    using mod_mult_self1 [of q 3 64] mod_mult_self1 [of q 2 64] by (simp_all add: add.commute)
  have "code_of c div 64 < 64" using code_of_less [of c] by linarith
  then have "(192 + code_of c div 64) mod 64 * 64 + (128 + code_of c mod 64) mod 64 = code_of c" by (simp add: m)
  moreover have "char_of (code_of c) = c" by (simp add: code_of_def)
  ultimately show ?case using Cons by (simp add: utf8_def)
qed (simp add: utf8_def)

definition remote_payload :: "string \<Rightarrow> js option" where
  "remote_payload word = JSON_parse (utf8_decode (base64_decode word))"

text \<open>A remote program that answers a command line with the JSON text of its result.\<close>

definition remote_program :: "(string \<Rightarrow> js \<Rightarrow> js) \<Rightarrow> nat \<Rightarrow> string \<Rightarrow> ('s, js_error, string) io" where
  "remote_program answer client line =
     (case split_on (CHR '' '') line of
        [path, command, word] \<Rightarrow>
          (case remote_payload word of
             Some v \<Rightarrow> ret (json_print (answer command v))
           | None \<Rightarrow> throw (RemoteExecutionError ''bad payload'' ''BAD_PAYLOAD''))
      | _ \<Rightarrow> throw (RemoteExecutionError ''usage'' ''USAGE''))"

lemma base64_word:
  assumes "CHR '' '' \<notin> set path" and "CHR '' '' \<notin> set command"
  shows "split_on (CHR '' '') (path @ '' '' @ command @ '' '' @ base64 bs) = [path, command, base64 bs] \<and>
    list_all (\<lambda>c. is_alnum c \<or> c \<in> set ''+/='') (base64 bs)"
proof -
  have "list_all (\<lambda>c. is_alnum c \<or> c \<in> set ''+/='') (CHR ''='' # base64_alphabet)" by code_simp
  with base64_chars have w: "list_all (\<lambda>c. is_alnum c \<or> c \<in> set ''+/='') (base64 bs)" by (fastforce simp: list_all_iff)
  have "\<not> is_alnum (CHR '' '')" by code_simp
  with w have "CHR '' '' \<notin> set (base64 bs)" by (auto simp: list_all_iff)
  with assms w show ?thesis by (simp add: split_on_append_sep split_on_single)
qed

lemma execWithRetry_first:
  "0 \<le> n \<Longrightarrow> bind connection (\<lambda>client. exec client line) s = (Inr out, s') \<Longrightarrow>
   execWithRetry n base connection exec wait line s = (Inr out, s')"
  by (subst execWithRetry_def, subst retry_loop.simps) simp

subsection \<open>Properties\<close>

text \<open>
  C9: an execution settles exactly once. The first of the events that can end it (the channel could
  not be opened, it was closed, the timer fired, the signal was aborted) decides, with the output
  received before it: exit code zero gives the trimmed output, another code the error the remote
  side printed as JSON or else its redacted error output. Later events change nothing, and since
  the timer fires at some time every execution settles. With a signal aborted from the start it is
  rejected at once.
\<close>

theorem exec_settles_once:
  "ex_outcome (execOnClient False es) = decided [] [] es \<and>
   (ex_outcome (execOnClient False es) = Some r \<longrightarrow> ex_outcome (execOnClient False (es @ es')) = Some r) \<and>
   (TimerFired \<in> set es \<longrightarrow> ex_outcome (execOnClient False es) \<noteq> None) \<and>
   ex_outcome (execOnClient True es) = Some (Inl aborted_error)"
proof -
  have "ex_outcome (execOnClient False es) = decided [] [] es" for es
    by (simp add: execOnClient_def exec_steps_decided start_exec_def)
  moreover have "ex_outcome (execOnClient True es) = Some (Inl aborted_error)"
    by (simp add: execOnClient_def start_exec_def Let_def exec_handlers settled_stays)
  moreover have "ex_outcome (execOnClient False (es @ es')) = Some r" if "ex_outcome (execOnClient False es) = Some r"
    using settled_stays [OF that, of es'] by (simp add: execOnClient_def)
  ultimately show ?thesis using decided_timer [of es "[]" "[]"] by auto
qed

theorem exec_settles_once_witness:
  "ex_outcome (execOnClient False ([StreamOpened, StdoutData ''ok '', StreamClosed (jint 0)] @ [TimerFired])) = Some (Inr ''ok'')"
proof -
  have "decided [] [] [StreamOpened, StdoutData ''ok '', StreamClosed (jint 0)] = Some (Inr ''ok'')"
    by code_simp
  then show ?thesis
    using exec_settles_once [of "[StreamOpened, StdoutData ''ok '', StreamClosed (jint 0)]" "Inr ''ok''" "[TimerFired]"]
    by simp
qed

text \<open>
  C10: retries. With \<open>n\<close> retries allowed, an execution is repeated only after a failure to connect,
  at most \<open>n\<close> times, after delays of the base, twice the base, four times the base and so on; the
  result is that of the last attempt made, success or error.
\<close>

theorem execWithRetry_backoff:
  assumes "0 \<le> n" and "nat n < length rs"
  shows "execWithRetry n base scripted_connection scripted_exec scripted_wait command (rs, []) =
      (rs ! retries (nat n) rs, (drop (Suc (retries (nat n) rs)) rs, map (\<lambda>i. base * 2 ^ i) [0..<retries (nat n) rs])) \<and>
    retries (nat n) rs \<le> nat n \<and> list_all connect_failed (take (retries (nat n) rs) rs) \<and>
    (retries (nat n) rs = nat n \<or> \<not> connect_failed (rs ! retries (nat n) rs))"
proof (intro conjI)
  show "execWithRetry n base scripted_connection scripted_exec scripted_wait command (rs, []) =
      (rs ! retries (nat n) rs, (drop (Suc (retries (nat n) rs)) rs, map (\<lambda>i. base * 2 ^ i) [0..<retries (nat n) rs]))"
    using retry_loop_scripted [of 0 "nat n" rs base None "[]"] assms
    by (simp add: execWithRetry_def scripted_attempt add.commute)
  show "retries (nat n) rs \<le> nat n" by (simp add: retries_def)
  have "take (retries (nat n) rs) rs = take (nat n) (takeWhile connect_failed rs)"
    by (metis min.commute retries_def takeWhile_eq_take take_take)
  then show "list_all connect_failed (take (retries (nat n) rs) rs)"
    by (auto simp: list_all_iff dest!: in_set_takeD set_takeWhileD)
  show "retries (nat n) rs = nat n \<or> \<not> connect_failed (rs ! retries (nat n) rs)"
    using assms(2) nth_length_takeWhile [of connect_failed rs] by (auto simp: retries_def min_def)
qed

definition refused :: "js_error + string" where
  "refused = Inl (RemoteExecutionError ''refused'' ''SSH_CONNECT_FAILED'')"

theorem execWithRetry_backoff_witness:
  "execWithRetry 2 250 scripted_connection scripted_exec scripted_wait ''nginx -t'' ([refused, refused, Inr ''ok''], []) =
     (Inr ''ok'', ([], [250, 500]))"
proof -
  have "retries 2 [refused, refused, Inr ''ok''] = 2" by code_simp
  then show ?thesis
    using execWithRetry_backoff [of 2 "[refused, refused, Inr ''ok'']" 250 "''nginx -t''"] by (simp add: upt_rec)
qed


definition id_of :: "string \<Rightarrow> js \<Rightarrow> js" where
  "id_of command v = get v ''id''"


end
