(* ===== verification/Desktop_Env.thy ===== *)
theory Desktop_Env
  imports Secrets
begin

text \<open>
  The environment of the desktop process: reading the \<open>.env\<close> file at startup
  (\<open>apps/desktop/src/main/main.ts\<close>), and removing the SSH secrets from the process and from the file
  (\<open>apps/desktop/src/main/secrets/migrateDesktopSecrets.ts\<close>). The process environment and the file
  system are maps from names to texts; files that exist can be read and written.
\<close>

type_synonym env = "string \<Rightarrow> string option"

record 's desktop =
  keyring :: 's
  penv :: env
  files :: "string \<Rightarrow> string option"

definition SECRET_ENV_KEYS :: "string list" where
  "SECRET_ENV_KEYS = [''SSH_USERNAME'', ''SSH_PASSWORD'', ''SSH_PRIVATE_KEY'', ''SSH_PRIVATE_KEY_PATH'', ''SSH_PASSPHRASE'']"

subsection \<open>Lines of the file\<close>

definition LF :: char where
  "LF = CHR 0x0A"

definition CR :: char where
  "CR = CHR 0x0D"

definition strip_cr :: "string \<Rightarrow> string" where
  "strip_cr l = (if l \<noteq> [] \<and> last l = CR then butlast l else l)"

text \<open>\<open>content.split(/\r?\n/u)\<close>.\<close>

definition env_lines :: "string \<Rightarrow> string list" where
  "env_lines content = (let ls = split_on LF content in map strip_cr (butlast ls) @ [last ls])"

text \<open>The key and the raw value of a line that assigns one; \<open>None\<close> for the lines both readers skip.\<close>

definition env_entry :: "string \<Rightarrow> (string \<times> string) option" where
  "env_entry rawLine =
     (let line = trim rawLine in
      if line = [] \<or> starts_with line ''#'' then None
      else case index_of (CHR ''='') line of
        None \<Rightarrow> None
      | Some 0 \<Rightarrow> None
      | Some i \<Rightarrow> Some (trim (take i line), drop (Suc i) line))"

subsection \<open>Loading\<close>

definition parseEnvValue :: "string \<Rightarrow> string" where
  "parseEnvValue rawValue =
     (let value = trim rawValue in
      if value = [] then []
      else if starts_with value [CHR 0x22] \<and> ends_with value [CHR 0x22] \<or> starts_with value [CHR 0x27] \<and> ends_with value [CHR 0x27]
      then take (length value - 2) (drop 1 value)
      else value)"

definition load_line :: "string \<Rightarrow> env \<Rightarrow> env" where
  "load_line rawLine e =
     (case env_entry rawLine of
        None \<Rightarrow> e
      | Some (key, raw) \<Rightarrow> if key = [] \<or> e key \<noteq> None then e else e(key \<mapsto> parseEnvValue raw))"

definition load_content :: "string \<Rightarrow> env \<Rightarrow> env" where
  "load_content content e = fold load_line (env_lines content) e"

text \<open>
  \<open>resolved\<close> are the four paths the source resolves against the working directory, the directory of
  the script and the application; the first of the distinct candidates that exists is read.
\<close>

definition loadDesktopEnv :: "string list \<Rightarrow> 's desktop \<Rightarrow> string option \<times> 's desktop" where
  "loadDesktopEnv resolved w =
     (let explicit = (case penv w ''DESKTOP_ENV_PATH'' of None \<Rightarrow> [] | Some path \<Rightarrow> [path]);
          candidates = rev (remdups (rev (filter (\<lambda>path. path \<noteq> []) (explicit @ resolved))))
      in case find (\<lambda>path. files w path \<noteq> None) candidates of
           None \<Rightarrow> (None, w)
         | Some envPath \<Rightarrow> (Some envPath, w\<lparr>penv := load_content (the (files w envPath)) (penv w)\<rparr>))"

definition parsePort :: "string option \<Rightarrow> jsnum \<Rightarrow> js_error + jsnum" where
  "parsePort raw fallback =
     (case raw of
        None \<Rightarrow> Inr fallback
      | Some t \<Rightarrow>
          if t = [] then Inr fallback
          else case js_Number t of
            Fin x \<Rightarrow> if num_is_integer (Fin x) \<and> x > 0 then Inr (Fin x) else Inl (Error (''Invalid SSH_PORT value: '' @ t))
          | _ \<Rightarrow> Inl (Error (''Invalid SSH_PORT value: '' @ t)))"

subsection \<open>Removing the secrets\<close>

definition clearSecretProcessEnv :: "'s desktop \<Rightarrow> 's desktop" where
  "clearSecretProcessEnv w = w\<lparr>penv := (penv w) |` (- set SECRET_ENV_KEYS)\<rparr>"

definition keep_line :: "string \<Rightarrow> bool" where
  "keep_line rawLine = (case env_entry rawLine of None \<Rightarrow> True | Some (key, _) \<Rightarrow> key \<notin> set SECRET_ENV_KEYS)"

definition cleaned :: "string \<Rightarrow> string" where
  "cleaned content = join [LF] (filter keep_line (env_lines content))"

definition cleanupEnvFile :: "string option \<Rightarrow> 's desktop \<Rightarrow> bool \<times> 's desktop" where
  "cleanupEnvFile envPath w =
     (case envPath of
        None \<Rightarrow> (False, w)
      | Some path \<Rightarrow>
          if path = [] then (False, w)
          else case files w path of
            None \<Rightarrow> (False, w)
          | Some original \<Rightarrow>
              if cleaned original = original then (False, w)
              else (True, w\<lparr>files := (files w)(path \<mapsto> cleaned original)\<rparr>))"

subsection \<open>Reading a cleaned file\<close>

lemma LF_CR_space: "is_space LF" "is_space CR" "LF \<noteq> CR"
  by (simp_all add: LF_def CR_def) code_simp+

lemma trim_strip_cr [simp]: "trim (strip_cr l) = trim l"
proof (cases "l \<noteq> [] \<and> last l = CR")
  case True
  then have "l = butlast l @ [CR]" by (metis append_butlast_last_id)
  with trim_snoc_space [of CR "butlast l"] True LF_CR_space show ?thesis by (metis strip_cr_def)
qed (auto simp: strip_cr_def)

lemma env_entry_strip_cr [simp]: "env_entry (strip_cr l) = env_entry l"
  by (simp add: env_entry_def)

lemma load_line_strip_cr [simp]: "load_line (strip_cr l) = load_line l"
  by (rule ext) (simp add: load_line_def)

lemma load_content_split: "load_content content e = fold load_line (split_on LF content) e"
proof -
  let ?ls = "split_on LF content"
  have "fold load_line (map strip_cr (butlast ?ls)) e = fold load_line (butlast ?ls) e" by (simp add: fold_map comp_def)
  then have "load_content content e = fold load_line (butlast ?ls @ [last ?ls]) e"
    unfolding load_content_def env_lines_def Let_def fold_append comp_def by simp
  then show ?thesis by (simp only: append_butlast_last_id [OF split_on_not_Nil])
qed

lemma env_lines_no_LF: "l \<in> set (env_lines content) \<Longrightarrow> LF \<notin> set l"
proof -
  have *: "l \<in> set (split_on LF content) \<Longrightarrow> LF \<notin> set l" "l \<in> set (split_on LF content) \<Longrightarrow> LF \<notin> set (strip_cr l)" for l
    using split_on_no_sep [of l LF content] by (auto simp: strip_cr_def dest: in_set_butlastD)
  assume "l \<in> set (env_lines content)"
  then show ?thesis
    using * last_in_set [OF split_on_not_Nil [of LF content]] by (auto simp: env_lines_def Let_def dest: in_set_butlastD)
qed

lemma load_blank: "load_line [] e = e"
  by (simp add: load_line_def env_entry_def trim_def trim_start_def trim_end_def)

lemma load_cleaned: "load_content (cleaned content) e = fold load_line (filter keep_line (env_lines content)) e"
proof (cases "filter keep_line (env_lines content) = []")
  case True
  then show ?thesis by (simp add: load_content_split cleaned_def load_blank)
next
  case False
  then have "split_on LF (cleaned content) = filter keep_line (env_lines content)"
    unfolding cleaned_def by (intro split_on_join) (auto dest: env_lines_no_LF)
  then show ?thesis by (simp add: load_content_split)
qed

lemma load_line_keys:
  "keep_line l \<Longrightarrow> k \<in> set SECRET_ENV_KEYS \<Longrightarrow> load_line l e k = e k"
  "\<not> keep_line l \<Longrightarrow> k \<notin> set SECRET_ENV_KEYS \<Longrightarrow> load_line l e k = e k"
  by (auto simp: load_line_def keep_line_def split: option.splits)

lemma load_line_cong: "\<forall>k. k \<notin> S \<longrightarrow> e k = e' k \<Longrightarrow> keep_line l \<Longrightarrow> S = set SECRET_ENV_KEYS \<Longrightarrow>
    k \<notin> S \<Longrightarrow> load_line l e k = load_line l e' k"
  by (auto simp: load_line_def keep_line_def split: option.splits)

lemma load_kept_lines:
  assumes "\<forall>k. k \<notin> set SECRET_ENV_KEYS \<longrightarrow> e k = e' k"
  shows "fold load_line (filter keep_line ls) e k =
    (if k \<in> set SECRET_ENV_KEYS then e k else fold load_line ls e' k)"
  using assms
proof (induction ls arbitrary: e e')
  case (Cons l ls)
  show ?case
  proof (cases "keep_line l")
    case True
    have "\<forall>k. k \<notin> set SECRET_ENV_KEYS \<longrightarrow> load_line l e k = load_line l e' k"
      using load_line_cong [OF Cons.prems True refl] by blast
    from Cons.IH [OF this] load_line_keys(1) [OF True, of k e] True show ?thesis by auto
  next
    case False
    have "\<forall>k. k \<notin> set SECRET_ENV_KEYS \<longrightarrow> e k = load_line l e' k"
      using load_line_keys(2) [OF False] Cons.prems by simp
    from Cons.IH [OF this] False show ?thesis by simp
  qed
qed simp

subsection \<open>Properties\<close>

text \<open>
  C22: cleaning the \<open>.env\<close> file removes the secrets and nothing else. Starting from any environment,
  loading the cleaned text leaves every one of the five secret variables as it was, and gives every
  other variable the value the original text gives it.
\<close>

theorem cleaned_env_file:
  "load_content (cleaned content) e k = (if k \<in> set SECRET_ENV_KEYS then e k else load_content content e k)"
  unfolding load_cleaned load_content_def [of content] by (simp add: load_kept_lines)

end
