(* ===== verification/Secrets_Repository.thy ===== *)
theory Secrets_Repository
  imports Desktop_Env
begin

text \<open>
  Host credentials of the desktop application: \<open>SecretsRepository.ts\<close>,
  \<open>KeytarSecretsRepository.ts\<close> and \<open>migrateDesktopSecrets.ts\<close> under
  \<open>apps/desktop/src/main/secrets\<close>. The \<open>keytar\<close> package is an argument, a record of its three
  operations over the state of the keyring; the locale \<open>keytar_contract\<close> is what its documentation
  promises. The locale \<open>secrets_repo\<close> is the contract of the repository interface, on which the
  migration rests.
\<close>

subsection \<open>Host secrets\<close>

definition HOST_SECRET_KEYS :: "string list" where
  "HOST_SECRET_KEYS = [''username'', ''password'', ''token'', ''privateKey'', ''passphrase'']"

fun normalize_fields :: "js \<Rightarrow> string list \<Rightarrow> js_error + props" where
  "normalize_fields source [] = Inr []"
| "normalize_fields source (key # keys) =
     (case get source key of
        JUndef \<Rightarrow> normalize_fields source keys
      | JNull \<Rightarrow> normalize_fields source keys
      | JStr t \<Rightarrow>
          if t = [] then normalize_fields source keys
          else map_sum id (\<lambda>ps. (key, JStr t) # ps) (normalize_fields source keys)
      | _ \<Rightarrow> Inl (SecretsRepositoryError (''Stored host secret field is invalid: '' @ key) ''INVALID_SECRET_FORMAT''))"

definition normalizeHostSecrets :: "js \<Rightarrow> js_error + js" where
  "normalizeHostSecrets v =
     (case v of
        JObj _ \<Rightarrow> map_sum id JObj (normalize_fields v HOST_SECRET_KEYS)
      | JDate _ \<Rightarrow> map_sum id JObj (normalize_fields v HOST_SECRET_KEYS)
      | _ \<Rightarrow> Inl (SecretsRepositoryError ''Stored host secret payload is not an object'' ''INVALID_SECRET_FORMAT''))"

definition hasHostSecrets :: "js \<Rightarrow> bool" where
  "hasHostSecrets secrets \<longleftrightarrow> truthy secrets \<and> list_ex (\<lambda>key. truthy (get secrets key)) HOST_SECRET_KEYS"

subsection \<open>\<open>KeytarSecretsRepository\<close>\<close>

record 's keytar =
  getPassword :: "string \<Rightarrow> string \<Rightarrow> ('s, js_error, json_text option) io"
  setPassword :: "string \<Rightarrow> string \<Rightarrow> json_text \<Rightarrow> ('s, js_error, unit) io"
  deletePassword :: "string \<Rightarrow> string \<Rightarrow> ('s, js_error, bool) io"

definition DEFAULT_SERVICE :: string where
  "DEFAULT_SERVICE = ''nginx-admin''"

definition accountForHost :: "string \<Rightarrow> string" where
  "accountForHost hostId = ''host:'' @ hostId"

definition keytar_code :: "string \<Rightarrow> string" where
  "keytar_code message =
     (let normalized = to_lower message in
      if str_includes normalized ''denied'' \<or> str_includes normalized ''access'' then ''ACCESS_DENIED''
      else if str_includes normalized ''secret service'' \<or> str_includes normalized ''credential'' \<or>
        str_includes normalized ''keychain'' \<or> str_includes normalized ''libsecret'' then ''CREDENTIAL_MANAGER_UNAVAILABLE''
      else ''KEYTAR_UNAVAILABLE'')"

definition thrown_text :: "js_error \<Rightarrow> string" where
  "thrown_text e = (case e of Thrown v \<Rightarrow> js_to_string v | _ \<Rightarrow> err_message e)"

fun mapKeytarError :: "js_error \<Rightarrow> string \<Rightarrow> js_error" where
  "mapKeytarError (SecretsRepositoryError m c) fallback = SecretsRepositoryError m c"
| "mapKeytarError e fallback =
     (let message = redactPotentialSecrets (thrown_text e)
      in SecretsRepositoryError (fallback @ '': '' @ message) (keytar_code message))"

text \<open>\<open>try { m } catch (error) { throw mapKeytarError(error, fallback) }\<close>.\<close>

definition mapping_errors :: "string \<Rightarrow> ('s, js_error, 'a) io \<Rightarrow> ('s, js_error, 'a) io" where
  "mapping_errors fallback m s = (case m s of (Inl e, s') \<Rightarrow> (Inl (mapKeytarError e fallback), s') | (Inr x, s') \<Rightarrow> (Inr x, s'))"

text \<open>\<open>loaded\<close> is the store that was passed or the outcome of importing the package.\<close>

definition getStore :: "js_error + 's keytar \<Rightarrow> ('s, js_error, 's keytar) io" where
  "getStore loaded = mapping_errors ''Unable to load keytar'' (\<lambda>s. (loaded, s))"

definition read_credentials :: "json_text option \<Rightarrow> ('s, js_error, js) io" where
  "read_credentials raw =
     (let corrupted = throw (SecretsRepositoryError ''Stored host credentials are invalid'' ''CORRUPTED_CREDENTIALS'') in
      case raw of
        None \<Rightarrow> ret JNull
      | Some EmptyText \<Rightarrow> ret JNull
      | Some t \<Rightarrow>
          (case json_parse t of
             None \<Rightarrow> corrupted
           | Some v \<Rightarrow> (case normalizeHostSecrets v of Inl _ \<Rightarrow> corrupted | Inr secrets \<Rightarrow> ret secrets)))"

definition keytar_get :: "string \<Rightarrow> js_error + 's keytar \<Rightarrow> string \<Rightarrow> ('s, js_error, js) io" where
  "keytar_get service loaded hostId = mapping_errors ''Unable to read host credentials''
     (bind (getStore loaded) (\<lambda>store. bind (getPassword store service (accountForHost hostId)) read_credentials))"

definition keytar_set :: "string \<Rightarrow> js_error + 's keytar \<Rightarrow> string \<Rightarrow> js \<Rightarrow> ('s, js_error, unit) io" where
  "keytar_set service loaded hostId secrets =
     (case normalizeHostSecrets secrets of
        Inl e \<Rightarrow> throw e
      | Inr normalized \<Rightarrow> mapping_errors ''Unable to write host credentials''
          (bind (getStore loaded) (\<lambda>store. setPassword store service (accountForHost hostId) (json_stringify normalized))))"

definition keytar_delete :: "string \<Rightarrow> js_error + 's keytar \<Rightarrow> string \<Rightarrow> ('s, js_error, unit) io" where
  "keytar_delete service loaded hostId = mapping_errors ''Unable to delete host credentials''
     (bind (getStore loaded) (\<lambda>store. bind (deletePassword store service (accountForHost hostId)) (\<lambda>_. ret ())))"

record 's secrets_repository =
  sr_get :: "string \<Rightarrow> ('s, js_error, js) io"
  sr_set :: "string \<Rightarrow> js \<Rightarrow> ('s, js_error, unit) io"
  sr_delete :: "string \<Rightarrow> ('s, js_error, unit) io"

definition KeytarSecretsRepository :: "string \<Rightarrow> js_error + 's keytar \<Rightarrow> 's secrets_repository" where
  "KeytarSecretsRepository service loaded =
     \<lparr>sr_get = keytar_get service loaded, sr_set = keytar_set service loaded, sr_delete = keytar_delete service loaded\<rparr>"

subsection \<open>The migration\<close>

definition MIGRATION_HOST_ID :: string where
  "MIGRATION_HOST_ID = ''default''"

definition MIGRATION_MARKER_HOST_ID :: string where
  "MIGRATION_MARKER_HOST_ID = ''__migration_desktop_env_v1__''"

definition getEnv :: "env \<Rightarrow> string \<Rightarrow> js" where
  "getEnv e key = (case e key of None \<Rightarrow> JUndef | Some v \<Rightarrow> if trim v \<noteq> [] then JStr v else JUndef)"

definition readPrivateKeyFromEnv :: "'s desktop \<Rightarrow> js_error + js" where
  "readPrivateKeyFromEnv w =
     (case getEnv (penv w) ''SSH_PRIVATE_KEY_PATH'' of
        JStr explicitPath \<Rightarrow>
          (case files w explicitPath of
             None \<Rightarrow> Inl (SecretsRepositoryError ''SSH private key file was not found'' ''MIGRATION_FAILED'')
           | Some content \<Rightarrow> Inr (JStr content))
      | _ \<Rightarrow>
          (case getEnv (penv w) ''SSH_PRIVATE_KEY'' of
             JStr legacyValue \<Rightarrow> (case files w legacyValue of Some content \<Rightarrow> Inr (JStr content) | None \<Rightarrow> Inr (JStr legacyValue))
           | _ \<Rightarrow> Inr JUndef))"

definition collectEnvSecrets :: "'s desktop \<Rightarrow> js_error + js" where
  "collectEnvSecrets w =
     (case readPrivateKeyFromEnv w of
        Inl e \<Rightarrow> Inl e
      | Inr privateKey \<Rightarrow> Inr (JObj
          [(''username'', getEnv (penv w) ''SSH_USERNAME''), (''password'', getEnv (penv w) ''SSH_PASSWORD''),
           (''privateKey'', privateKey), (''passphrase'', getEnv (penv w) ''SSH_PASSPHRASE'')]))"

record migration_result =
  mig_hostId :: string
  migrated :: bool
  cleanedEnvFile :: bool
  mig_secrets :: js

definition on_keyring :: "('s, js_error, 'a) io \<Rightarrow> ('s desktop, js_error, 'a) io" where
  "on_keyring m w = (case m (keyring w) of (r, s) \<Rightarrow> (r, w\<lparr>keyring := s\<rparr>))"

definition effect :: "('s desktop \<Rightarrow> 'a \<times> 's desktop) \<Rightarrow> ('s desktop, js_error, 'a) io" where
  "effect f w = (case f w of (x, w') \<Rightarrow> (Inr x, w'))"

definition marker_secrets :: js where
  "marker_secrets = JObj [(''token'', JStr ''completed'')]"

definition runDesktopSecretsMigration ::
  "'s secrets_repository \<Rightarrow> string option \<Rightarrow> string \<Rightarrow> ('s desktop, js_error, migration_result) io" where
  "runDesktopSecretsMigration repository envPath hostId =
     bind (on_keyring (sr_get repository MIGRATION_MARKER_HOST_ID)) (\<lambda>marker.
     bind (on_keyring (sr_get repository hostId)) (\<lambda>existing.
     if truthy marker then
       bind (effect (\<lambda>w. ((), clearSecretProcessEnv w))) (\<lambda>_.
       ret \<lparr>mig_hostId = hostId, migrated = False, cleanedEnvFile = False, mig_secrets = existing\<rparr>)
     else
       bind (\<lambda>w. (collectEnvSecrets w, w)) (\<lambda>envSecrets.
       if \<not> hasHostSecrets envSecrets then
         bind (on_keyring (sr_set repository MIGRATION_MARKER_HOST_ID marker_secrets)) (\<lambda>_.
         bind (effect (\<lambda>w. ((), clearSecretProcessEnv w))) (\<lambda>_.
         ret \<lparr>mig_hostId = hostId, migrated = False, cleanedEnvFile = False, mig_secrets = existing\<rparr>))
       else
         bind (on_keyring (sr_set repository hostId (JObj (spread (own_props existing) (own_props envSecrets))))) (\<lambda>_.
         bind (on_keyring (sr_get repository hostId)) (\<lambda>verified.
         if \<not> hasHostSecrets verified then
           throw (SecretsRepositoryError ''Unable to verify migrated host credentials'' ''MIGRATION_FAILED'')
         else
           bind (effect (cleanupEnvFile envPath)) (\<lambda>wasCleaned.
           bind (effect (\<lambda>w. ((), clearSecretProcessEnv w))) (\<lambda>_.
           bind (on_keyring (sr_set repository MIGRATION_MARKER_HOST_ID marker_secrets)) (\<lambda>_.
           ret \<lparr>mig_hostId = hostId, migrated = True, cleanedEnvFile = wasCleaned, mig_secrets = verified\<rparr>))))))))"

declare mapping_errors_def [run_defs] getStore_def [run_defs] on_keyring_def [run_defs] effect_def [run_defs]

subsection \<open>Normalised secrets\<close>

text \<open>Normalised secrets are objects that normalising does not change.\<close>

definition normal_secrets :: "js \<Rightarrow> bool" where
  "normal_secrets v \<longleftrightarrow> normalizeHostSecrets v = Inr v"

definition field_ok :: "js \<Rightarrow> bool" where
  "field_ok v \<longleftrightarrow> v = JUndef \<or> v = JNull \<or> is_str v"

definition kept_field :: "js \<Rightarrow> string \<Rightarrow> (string \<times> js) list" where
  "kept_field source k = (if is_str (get source k) \<and> truthy (get source k) then [(k, get source k)] else [])"

lemma normalize_fields_ok:
  "list_all (\<lambda>k. field_ok (get source k)) keys \<Longrightarrow> normalize_fields source keys = Inr (concat (map (kept_field source) keys))"
proof (induction keys)
  case (Cons k keys)
  then show ?case by (cases "get source k") (auto simp: field_ok_def kept_field_def [of source k])
qed simp

lemma normalize_fields_bad:
  "\<not> list_all (\<lambda>k. field_ok (get source k)) keys \<Longrightarrow> \<exists>e. normalize_fields source keys = Inl e"
proof (induction keys)
  case (Cons k keys)
  then show ?case by (cases "get source k") (auto simp: field_ok_def)
qed simp

lemma normalize_fields_Inr:
  "normalize_fields source keys = Inr ps \<longleftrightarrow>
     list_all (\<lambda>k. field_ok (get source k)) keys \<and> ps = concat (map (kept_field source) keys)"
  using normalize_fields_ok [of source keys] normalize_fields_bad [of source keys]
  by (cases "list_all (\<lambda>k. field_ok (get source k)) keys") auto

lemma kept_fields_pget:
  "distinct keys \<Longrightarrow> pget (concat (map (kept_field source) keys)) k =
     (if k \<in> set keys \<and> is_str (get source k) \<and> truthy (get source k) then get source k else JUndef)"
  by (induction keys) (auto simp: kept_field_def)

lemma HOST_SECRET_KEYS_distinct [simp]: "distinct HOST_SECRET_KEYS"
  by (simp add: HOST_SECRET_KEYS_def)

lemma normalize_Inr_JObj:
  assumes "list_all (\<lambda>k. field_ok (pget ps k)) HOST_SECRET_KEYS"
  shows "normalizeHostSecrets (JObj ps) = Inr (JObj (concat (map (kept_field (JObj ps)) HOST_SECRET_KEYS)))"
  using assms normalize_fields_ok [of "JObj ps" HOST_SECRET_KEYS] by (simp add: normalizeHostSecrets_def)

lemma normalizeHostSecrets_Inr:
  assumes "normalizeHostSecrets v = Inr n"
  shows "n = JObj (concat (map (kept_field v) HOST_SECRET_KEYS))"
  using assms by (cases v) (auto simp: normalizeHostSecrets_def normalize_fields_Inr map_sum_def split: sum.splits)

lemma get_normalized:
  "normalizeHostSecrets v = Inr n \<Longrightarrow>
     get n k = (if k \<in> set HOST_SECRET_KEYS \<and> is_str (get v k) \<and> truthy (get v k) then get v k else JUndef)"
  using normalizeHostSecrets_Inr [of v n] by (simp add: kept_fields_pget)

lemma normal_normalized:
  assumes "normalizeHostSecrets v = Inr n"
  shows "normal_secrets n"
proof -
  obtain ps where n: "n = JObj ps" using normalizeHostSecrets_Inr [OF assms] by blast
  have kept: "kept_field n k = kept_field v k" if "k \<in> set HOST_SECRET_KEYS" for k
    using get_normalized [OF assms, of k] that by (auto simp: kept_field_def)
  have "list_all (\<lambda>k. field_ok (pget ps k)) HOST_SECRET_KEYS"
    using get_normalized [OF assms] n by (auto simp: list_all_iff field_ok_def)
  from normalize_Inr_JObj [OF this] have "normalizeHostSecrets n = Inr (JObj (concat (map (kept_field n) HOST_SECRET_KEYS)))"
    by (simp add: n)
  also have "map (kept_field n) HOST_SECRET_KEYS = map (kept_field v) HOST_SECRET_KEYS" using kept by simp
  finally show ?thesis using normalizeHostSecrets_Inr [OF assms] by (simp add: normal_secrets_def)
qed

lemma normal_JObj: "normal_secrets v \<Longrightarrow> is_obj v"
  using normalizeHostSecrets_Inr [of v v] unfolding normal_secrets_def by (metis is_obj.simps(1))

lemma json_kept: "json_val (JObj (concat (map (kept_field v) ks))) = JObj (concat (map (kept_field v) ks))"
  by (induction ks) (auto simp: kept_field_def is_str_iff)

lemma json_normal: "normal_secrets v \<Longrightarrow> json_val v = v"
  using normalizeHostSecrets_Inr [of v v] json_kept [of v HOST_SECRET_KEYS] unfolding normal_secrets_def by metis

lemma normal_hasHostSecrets:
  assumes "normalizeHostSecrets v = Inr n" and "list_all (\<lambda>k. field_ok (get v k)) HOST_SECRET_KEYS"
  shows "hasHostSecrets n \<longleftrightarrow> list_ex (\<lambda>k. truthy (get v k)) HOST_SECRET_KEYS"
proof -
  have "truthy n" using normal_JObj [OF normal_normalized [OF assms(1)]] by (cases n) auto
  moreover have "truthy (get n k) \<longleftrightarrow> truthy (get v k)" if "k \<in> set HOST_SECRET_KEYS" for k
    using get_normalized [OF assms(1), of k] that assms(2) by (auto simp: list_all_iff field_ok_def)
  ultimately show ?thesis by (auto simp: hasHostSecrets_def list_ex_iff)
qed

subsection \<open>Contracts\<close>

text \<open>What \<open>keytar\<close> documents: passwords are kept per service and account.\<close>

locale keytar_contract =
  fixes kt :: "'s keytar"
    and password :: "'s \<Rightarrow> string \<Rightarrow> string \<Rightarrow> json_text option"
  assumes getPassword_law: "getPassword kt service account s = (Inr (password s service account), s)"
    and setPassword_law: "\<exists>s'. setPassword kt service account t s = (Inr (), s') \<and>
      password s' = (password s)(service := (password s service)(account \<mapsto> t))"
    and deletePassword_law: "\<exists>b s'. deletePassword kt service account s = (Inr b, s') \<and>
      password s' = (password s)(service := (password s service)(account := None))"

text \<open>
  The repository interface: a map from host ids to normalised secrets. \<open>null\<close> is returned for a host
  without secrets.
\<close>

locale secrets_repo =
  fixes repo :: "'s secrets_repository"
    and creds :: "'s \<Rightarrow> string \<Rightarrow> js option"
    and inv :: "'s \<Rightarrow> bool"
  assumes creds_normal: "inv s \<Longrightarrow> creds s h = Some v \<Longrightarrow> normal_secrets v"
    and get_law: "inv s \<Longrightarrow> sr_get repo h s = (Inr (case creds s h of None \<Rightarrow> JNull | Some v \<Rightarrow> v), s)"
    and set_law: "inv s \<Longrightarrow> normalizeHostSecrets v = Inr n \<Longrightarrow>
      \<exists>s'. sr_set repo h v s = (Inr (), s') \<and> inv s' \<and> creds s' = (creds s)(h \<mapsto> n)"
    and delete_law: "inv s \<Longrightarrow> \<exists>s'. sr_delete repo h s = (Inr (), s') \<and> inv s' \<and> creds s' = (creds s)(h := None)"
begin

lemma get_after_set:
  assumes "inv s" and "normalizeHostSecrets v = Inr n"
  shows "\<exists>s'. bind (sr_set repo h v) (\<lambda>_. sr_get repo h') s =
      (Inr (if h' = h then n else case creds s h' of None \<Rightarrow> JNull | Some w \<Rightarrow> w), s') \<and> inv s'"
  using set_law [OF assms, of h] get_law by (auto simp: bind_def)

lemma get_after_delete:
  "inv s \<Longrightarrow> \<exists>s'. bind (sr_delete repo h) (\<lambda>_. sr_get repo h) s = (Inr JNull, s')"
  using delete_law [of s h] get_law by (auto simp: bind_def)

end

definition stored_creds :: "('s \<Rightarrow> string \<Rightarrow> string \<Rightarrow> json_text option) \<Rightarrow> string \<Rightarrow> 's \<Rightarrow> string \<Rightarrow> js option" where
  "stored_creds password service s h =
     (case password s service (accountForHost h) of Some (Text v) \<Rightarrow> Some v | _ \<Rightarrow> None)"

text \<open>Every host entry of the service is one this application wrote.\<close>

definition creds_inv :: "('s \<Rightarrow> string \<Rightarrow> string \<Rightarrow> json_text option) \<Rightarrow> string \<Rightarrow> 's \<Rightarrow> bool" where
  "creds_inv password service s \<longleftrightarrow>
     (\<forall>h t. password s service (accountForHost h) = Some t \<longrightarrow> (\<exists>v. t = Text v \<and> normal_secrets v))"

lemma accountForHost_inject [simp]: "accountForHost h = accountForHost h' \<longleftrightarrow> h = h'"
  by (simp add: accountForHost_def)

lemma creds_fun_upd:
  assumes "password s' = (password s)(service := (password s service)(accountForHost h := t))"
    and "t = map_option Text v"
  shows "stored_creds password service s' = (stored_creds password service s)(h := v)"
  using assms by (auto simp: stored_creds_def fun_eq_iff split: option.split)

lemma creds_inv_upd:
  assumes "password s' = (password s)(service := (password s service)(accountForHost h := t))"
    and "creds_inv password service s" and "\<forall>u. t = Some u \<longrightarrow> (\<exists>v. u = Text v \<and> normal_secrets v)"
  shows "creds_inv password service s'"
  using assms by (auto simp: creds_inv_def)

sublocale keytar_contract \<subseteq> keyring: secrets_repo "KeytarSecretsRepository service (Inr kt)"
  "stored_creds password service" "creds_inv password service" for service
proof unfold_locales
  fix s h v
  assume "creds_inv password service s" "stored_creds password service s h = Some v"
  then show "normal_secrets v" by (auto simp: creds_inv_def stored_creds_def split: option.splits json_text.splits)
next
  fix s h
  assume "creds_inv password service s"
  then have "password s service (accountForHost h) = None \<or>
      (\<exists>v. password s service (accountForHost h) = Some (Text v) \<and> normal_secrets v)"
    by (cases "password s service (accountForHost h)") (auto simp: creds_inv_def)
  then show "sr_get (KeytarSecretsRepository service (Inr kt)) h s =
      (Inr (case stored_creds password service s h of None \<Rightarrow> JNull | Some v \<Rightarrow> v), s)"
    by (auto simp: KeytarSecretsRepository_def keytar_get_def run_defs getPassword_law
        read_credentials_def stored_creds_def normal_secrets_def Let_def)
next
  fix s v n h
  assume "creds_inv password service s" and n: "normalizeHostSecrets v = Inr n"
  moreover obtain s' where s': "setPassword kt service (accountForHost h) (json_stringify n) s = (Inr (), s')"
    "password s' = (password s)(service := (password s service)(accountForHost h \<mapsto> Text n))"
    using setPassword_law json_normal [OF normal_normalized [OF n]] by (metis json_stringify_def)
  ultimately show "\<exists>s'. sr_set (KeytarSecretsRepository service (Inr kt)) h v s = (Inr (), s') \<and>
      creds_inv password service s' \<and> stored_creds password service s' = (stored_creds password service s)(h \<mapsto> n)"
    using creds_fun_upd [OF s'(2), of "Some n"] creds_inv_upd [OF s'(2)] normal_normalized [OF n]
    by (auto simp: KeytarSecretsRepository_def keytar_set_def run_defs)
next
  fix s h
  assume "creds_inv password service s"
  moreover obtain b s' where s': "deletePassword kt service (accountForHost h) s = (Inr b, s')"
    "password s' = (password s)(service := (password s service)(accountForHost h := None))"
    using deletePassword_law by blast
  ultimately show "\<exists>s'. sr_delete (KeytarSecretsRepository service (Inr kt)) h s = (Inr (), s') \<and>
      creds_inv password service s' \<and> stored_creds password service s' = (stored_creds password service s)(h := None)"
    using creds_fun_upd [OF s'(2), of None] creds_inv_upd [OF s'(2)]
    by (auto simp: KeytarSecretsRepository_def keytar_delete_def run_defs)
qed

text \<open>A keyring kept in memory, as the unit tests of the repository use one.\<close>

type_synonym memory_keyring = "string \<Rightarrow> string \<Rightarrow> json_text option"

definition memory_keytar :: "memory_keyring keytar" where
  "memory_keytar =
     \<lparr>getPassword = (\<lambda>service account s. (Inr (s service account), s)),
      setPassword = (\<lambda>service account t s. (Inr (), s(service := (s service)(account \<mapsto> t)))),
      deletePassword = (\<lambda>service account s. (Inr (s service account \<noteq> None), s(service := (s service)(account := None))))\<rparr>"

interpretation memory: keytar_contract memory_keytar "\<lambda>s. s"
  by unfold_locales (auto simp: memory_keytar_def)

subsection \<open>The migration over a repository that keeps its contract\<close>

definition or_null_secrets :: "js option \<Rightarrow> js" where
  "or_null_secrets c = (case c of None \<Rightarrow> JNull | Some v \<Rightarrow> v)"

lemma normal_truthy: "normal_secrets v \<Longrightarrow> truthy v"
  using normal_JObj [of v] by (cases v) auto

lemma marker_normal: "normalizeHostSecrets marker_secrets = Inr marker_secrets"
  by (simp add: marker_secrets_def normalizeHostSecrets_def HOST_SECRET_KEYS_def)

lemma getEnv_field_ok: "field_ok (getEnv e k)"
  by (auto simp: getEnv_def field_ok_def split: option.split)

lemma readPrivateKey_field_ok: "readPrivateKeyFromEnv w = Inr v \<Longrightarrow> field_ok v"
  by (auto simp: readPrivateKeyFromEnv_def getEnv_def field_ok_def split: option.splits if_splits)

text \<open>The fields of the merged secrets: those of the environment, and the old token.\<close>

lemma merged_fields:
  assumes "collectEnvSecrets w = Inr envS" and "existing = JNull \<or> normal_secrets existing"
  shows "\<exists>n. normalizeHostSecrets (JObj (spread (own_props existing) (own_props envS))) = Inr n \<and>
    (\<forall>k \<in> {''username'', ''password'', ''privateKey'', ''passphrase''}. get n k = (if truthy (get envS k) then get envS k else JUndef)) \<and>
    get n ''token'' = get existing ''token'' \<and> (hasHostSecrets envS \<longrightarrow> hasHostSecrets n)"
proof -
  obtain pk where pk: "readPrivateKeyFromEnv w = Inr pk" "field_ok pk"
    and envS: "envS = JObj [(''username'', getEnv (penv w) ''SSH_USERNAME''), (''password'', getEnv (penv w) ''SSH_PASSWORD''),
           (''privateKey'', pk), (''passphrase'', getEnv (penv w) ''SSH_PASSPHRASE'')]"
    using assms(1) readPrivateKey_field_ok by (auto simp: collectEnvSecrets_def split: sum.splits)
  let ?m = "spread (own_props existing) (own_props envS)"
  have m: "pget ?m k = (if k \<in> {''username'', ''password'', ''privateKey'', ''passphrase''} then get envS k else pget (own_props existing) k)" for k
    by (simp add: envS)
  have tok: "pget (own_props existing) ''token'' = get existing ''token''"
    using assms(2) normal_JObj [of existing] by (cases existing) (auto simp: get_def)
  have old: "get existing ''token'' = (if is_str (get existing ''token'') \<and> truthy (get existing ''token'') then get existing ''token'' else JUndef)"
    using assms(2) get_normalized [of existing existing "''token''"]
    by (auto simp: get_def normal_secrets_def HOST_SECRET_KEYS_def)
  have ok: "list_all (\<lambda>k. field_ok (get (JObj ?m) k)) HOST_SECRET_KEYS"
    using getEnv_field_ok pk old tok by (auto simp: HOST_SECRET_KEYS_def m envS field_ok_def split: if_splits)
  then obtain n where n: "normalizeHostSecrets (JObj ?m) = Inr n"
    using normalize_Inr_JObj [of ?m] by auto
  have str: "get envS k = JUndef \<or> get envS k = JNull \<or> is_str (get envS k)" for k
    using getEnv_field_ok pk by (auto simp: envS field_ok_def)
  have "\<forall>k \<in> {''username'', ''password'', ''privateKey'', ''passphrase''}. get n k = (if truthy (get envS k) then get envS k else JUndef)"
  proof
    fix k
    assume k: "k \<in> {''username'', ''password'', ''privateKey'', ''passphrase''}"
    then have "k \<in> set HOST_SECRET_KEYS" by (auto simp: HOST_SECRET_KEYS_def)
    with k m [of k] have "get n k = (if is_str (get envS k) \<and> truthy (get envS k) then get envS k else JUndef)"
      using get_normalized [OF n, of k] by simp
    with str [of k] show "get n k = (if truthy (get envS k) then get envS k else JUndef)" by auto
  qed
  moreover have "get n ''token'' = get existing ''token''"
    using get_normalized [OF n, of "''token''"] m [of "''token''"] tok old by (auto simp: HOST_SECRET_KEYS_def split: if_splits)
  moreover have "hasHostSecrets envS \<longrightarrow> hasHostSecrets n"
    unfolding normal_hasHostSecrets [OF n ok] by (auto simp: hasHostSecrets_def HOST_SECRET_KEYS_def m envS)
  ultimately show ?thesis using n by blast
qed

context secrets_repo
begin

lemma existing_secrets: "inv s \<Longrightarrow> or_null_secrets (creds s h) = JNull \<or> normal_secrets (or_null_secrets (creds s h))"
  using creds_normal by (auto simp: or_null_secrets_def split: option.split)

lemma get_or_null: "inv s \<Longrightarrow> sr_get repo h s = (Inr (or_null_secrets (creds s h)), s)"
  by (simp add: get_law or_null_secrets_def)

lemma migrate_marked:
  assumes "inv (keyring w)" and "creds (keyring w) MIGRATION_MARKER_HOST_ID = Some v"
  shows "runDesktopSecretsMigration repo envPath h w =
    (Inr \<lparr>mig_hostId = h, migrated = False, cleanedEnvFile = False, mig_secrets = or_null_secrets (creds (keyring w) h)\<rparr>,
     clearSecretProcessEnv w)"
  using assms creds_normal [THEN normal_truthy]
  by (auto simp: runDesktopSecretsMigration_def run_defs get_or_null or_null_secrets_def [of "Some v"])

lemma migrate_nothing:
  assumes "inv (keyring w)" and "creds (keyring w) MIGRATION_MARKER_HOST_ID = None"
    and "collectEnvSecrets w = Inr envS" and "\<not> hasHostSecrets envS"
  shows "\<exists>s'. runDesktopSecretsMigration repo envPath h w =
    (Inr \<lparr>mig_hostId = h, migrated = False, cleanedEnvFile = False, mig_secrets = or_null_secrets (creds (keyring w) h)\<rparr>,
     clearSecretProcessEnv (w\<lparr>keyring := s'\<rparr>)) \<and> inv s' \<and>
    creds s' = (creds (keyring w))(MIGRATION_MARKER_HOST_ID \<mapsto> marker_secrets)"
  using assms set_law [OF assms(1) marker_normal, of MIGRATION_MARKER_HOST_ID]
  by (auto simp: runDesktopSecretsMigration_def run_defs get_or_null or_null_secrets_def [of None])

lemma migrate_env:
  assumes "inv (keyring w)" and "creds (keyring w) MIGRATION_MARKER_HOST_ID = None"
    and env: "collectEnvSecrets w = Inr envS" "hasHostSecrets envS" and h: "h \<noteq> MIGRATION_MARKER_HOST_ID"
  shows "\<exists>n s' b. runDesktopSecretsMigration repo envPath h w =
      (Inr \<lparr>mig_hostId = h, migrated = True, cleanedEnvFile = b, mig_secrets = n\<rparr>,
       (clearSecretProcessEnv (snd (cleanupEnvFile envPath w)))\<lparr>keyring := s'\<rparr>) \<and> inv s' \<and>
    creds s' = (creds (keyring w))(h \<mapsto> n, MIGRATION_MARKER_HOST_ID \<mapsto> marker_secrets) \<and>
    (\<forall>k \<in> {''username'', ''password'', ''privateKey'', ''passphrase''}. get n k = (if truthy (get envS k) then get envS k else JUndef))"
proof -
  let ?ex = "or_null_secrets (creds (keyring w) h)"
  obtain n where n: "normalizeHostSecrets (JObj (spread (own_props ?ex) (own_props envS))) = Inr n" "hasHostSecrets n"
    "\<forall>k \<in> {''username'', ''password'', ''privateKey'', ''passphrase''}. get n k = (if truthy (get envS k) then get envS k else JUndef)"
    using merged_fields [OF env(1) existing_secrets [OF assms(1)]] env(2) by blast
  obtain s1 where s1: "sr_set repo h (JObj (spread (own_props ?ex) (own_props envS))) (keyring w) = (Inr (), s1)" "inv s1"
    "creds s1 = (creds (keyring w))(h \<mapsto> n)"
    using set_law [OF assms(1) n(1), of h] by blast
  obtain s2 where s2: "sr_set repo MIGRATION_MARKER_HOST_ID marker_secrets s1 = (Inr (), s2)" "inv s2"
    "creds s2 = (creds s1)(MIGRATION_MARKER_HOST_ID \<mapsto> marker_secrets)"
    using set_law [OF s1(2) marker_normal] by blast
  have clean: "cleanupEnvFile envPath (w\<lparr>keyring := s1\<rparr>) = (fst (cleanupEnvFile envPath w), (snd (cleanupEnvFile envPath w))\<lparr>keyring := s1\<rparr>)"
    by (auto simp: cleanupEnvFile_def split: option.split)
  have "runDesktopSecretsMigration repo envPath h w =
      (Inr \<lparr>mig_hostId = h, migrated = True, cleanedEnvFile = fst (cleanupEnvFile envPath w), mig_secrets = n\<rparr>,
       (clearSecretProcessEnv (snd (cleanupEnvFile envPath w)))\<lparr>keyring := s2\<rparr>)"
    using assms env n s1 s2
    by (simp add: runDesktopSecretsMigration_def run_defs get_or_null or_null_secrets_def [of None]
        or_null_secrets_def [of "Some n"] clean clearSecretProcessEnv_def)
  with n(3) s1 s2 show ?thesis by metis
qed

end

context keytar_contract
begin

lemmas repo_get_after_set = keyring.get_after_set
lemmas repo_get_after_delete = keyring.get_after_delete
lemmas repo_get_law = keyring.get_law
lemmas repo_get_or_null = keyring.get_or_null
lemmas repo_migrate_marked = keyring.migrate_marked
lemmas repo_migrate_nothing = keyring.migrate_nothing
lemmas repo_migrate_env = keyring.migrate_env

end

subsection \<open>Properties\<close>

text \<open>
  C21: credentials survive the keyring. Over a keyring that behaves as \<open>keytar\<close> documents it, secrets
  the repository accepts are read back as they were normalised (the five known fields that hold a
  nonempty text), other hosts keep theirs, and a deleted host has none.
\<close>

theorem keytar_repository_roundtrip:
  assumes "keytar_contract kt password" and "creds_inv password service s" and "normalizeHostSecrets v = Inr n"
  shows "(\<exists>s'. bind (keytar_set service (Inr kt) h v) (\<lambda>_. keytar_get service (Inr kt) h) s = (Inr n, s')) \<and>
    (h' \<noteq> h \<longrightarrow> (\<exists>s'. bind (keytar_set service (Inr kt) h v) (\<lambda>_. keytar_get service (Inr kt) h') s =
      (fst (keytar_get service (Inr kt) h' s), s'))) \<and>
    (\<exists>s'. bind (keytar_delete service (Inr kt) h) (\<lambda>_. keytar_get service (Inr kt) h) s = (Inr JNull, s'))"
  using keytar_contract.repo_get_after_set [OF assms, of h h] keytar_contract.repo_get_after_set [OF assms, of h h']
    keytar_contract.repo_get_after_delete [OF assms(1,2), of h] keytar_contract.repo_get_law [OF assms(1,2), of h']
  by (auto simp: KeytarSecretsRepository_def)

definition sample_secrets :: js where
  "sample_secrets = JObj [(''username'', JStr ''root''), (''password'', JStr ''pw''), (''note'', JStr ''x'')]"

lemma sample_secrets_normal:
  "normalizeHostSecrets sample_secrets = Inr (JObj [(''username'', JStr ''root''), (''password'', JStr ''pw'')])"
  by (simp add: sample_secrets_def normalizeHostSecrets_def HOST_SECRET_KEYS_def)

theorem keytar_repository_roundtrip_witness:
  "\<exists>s'. bind (keytar_set DEFAULT_SERVICE (Inr memory_keytar) ''h'' sample_secrets) (\<lambda>_. keytar_get DEFAULT_SERVICE (Inr memory_keytar) ''h'')
     (\<lambda>_ _. None) = (Inr (JObj [(''username'', JStr ''root''), (''password'', JStr ''pw'')]), s')"
  using keytar_repository_roundtrip [OF memory.keytar_contract_axioms _ sample_secrets_normal, of DEFAULT_SERVICE "\<lambda>_ _. None" "''h''"]
  by (simp add: creds_inv_def)

text \<open>
  C8: the migration runs once. Over a keyring that behaves as documented, if a first run succeeded
  then a later run, whatever the environment and the files have become, migrates nothing, leaves
  the keyring and the files alone, returns the very secrets the first run returned and clears the
  secret variables of the process.
\<close>

theorem migration_runs_once:
  assumes "keytar_contract kt password" and "creds_inv password service (keyring w)" and "h \<noteq> MIGRATION_MARKER_HOST_ID"
    and "runDesktopSecretsMigration (KeytarSecretsRepository service (Inr kt)) envPath h w = (Inr r, w1)"
    and "keyring w2 = keyring w1"
  shows "\<exists>r2. runDesktopSecretsMigration (KeytarSecretsRepository service (Inr kt)) envPath' h w2 = (Inr r2, clearSecretProcessEnv w2) \<and>
    \<not> migrated r2 \<and> mig_secrets r2 = mig_secrets r \<and>
    (\<forall>k. k \<in> set SECRET_ENV_KEYS \<longrightarrow> penv w1 k = None)"
proof -
  let ?c = "stored_creds password service"
  have inv1: "creds_inv password service (keyring w1) \<and> ?c (keyring w1) MIGRATION_MARKER_HOST_ID \<noteq> None \<and>
      mig_secrets r = or_null_secrets (?c (keyring w1) h) \<and> (\<forall>k. k \<in> set SECRET_ENV_KEYS \<longrightarrow> penv w1 k = None)"
  proof (cases "?c (keyring w) MIGRATION_MARKER_HOST_ID")
    case (Some v)
    with keytar_contract.repo_migrate_marked [OF assms(1,2) Some, of envPath h] assms(2,4) show ?thesis
      by (auto simp: clearSecretProcessEnv_def)
  next
    case None
    obtain envS where e: "collectEnvSecrets w = Inr envS"
      using assms(4) keytar_contract.repo_get_or_null [OF assms(1,2)] None
      by (cases "collectEnvSecrets w") (auto simp: runDesktopSecretsMigration_def run_defs or_null_secrets_def)
    show ?thesis
    proof (cases "hasHostSecrets envS")
      case True
      from keytar_contract.repo_migrate_env [OF assms(1,2) None e True assms(3), of envPath] assms(3,4) show ?thesis
        by (auto simp: clearSecretProcessEnv_def or_null_secrets_def)
    next
      case False
      from keytar_contract.repo_migrate_nothing [OF assms(1,2) None e False, of envPath h] assms(3,4) show ?thesis
        by (auto simp: clearSecretProcessEnv_def)
    qed
  qed
  then obtain v where "?c (keyring w2) MIGRATION_MARKER_HOST_ID = Some v" using assms(5) by auto
  from keytar_contract.repo_migrate_marked [OF assms(1) _ this, of envPath' h] inv1 assms(5) show ?thesis by auto
qed

definition fresh_desktop :: "memory_keyring desktop" where
  "fresh_desktop = \<lparr>keyring = (\<lambda>_ _. None), penv = [''SSH_USERNAME'' \<mapsto> ''root'', ''SSH_PASSWORD'' \<mapsto> ''pw''], files = Map.empty\<rparr>"

lemma fresh_env_secrets:
  "collectEnvSecrets fresh_desktop = Inr (JObj [(''username'', JStr ''root''), (''password'', JStr ''pw''), (''privateKey'', JUndef), (''passphrase'', JUndef)])"
proof -
  have "trim ''root'' = ''root''" "trim ''pw'' = ''pw''" by code_simp+
  then show ?thesis by (simp add: collectEnvSecrets_def readPrivateKeyFromEnv_def getEnv_def fresh_desktop_def)
qed

lemma fresh_has_secrets:
  "hasHostSecrets (JObj [(''username'', JStr ''root''), (''password'', JStr ''pw''), (''privateKey'', JUndef), (''passphrase'', JUndef)])"
  by (simp add: hasHostSecrets_def HOST_SECRET_KEYS_def)

lemma fresh_keyring:
  "creds_inv (\<lambda>s. s) DEFAULT_SERVICE (keyring fresh_desktop)"
  "stored_creds (\<lambda>s. s) DEFAULT_SERVICE (keyring fresh_desktop) h = None" "MIGRATION_HOST_ID \<noteq> MIGRATION_MARKER_HOST_ID"
  by (simp_all add: creds_inv_def stored_creds_def fresh_desktop_def MIGRATION_HOST_ID_def MIGRATION_MARKER_HOST_ID_def)

theorem migration_runs_once_witness:
  "\<exists>r w1 r2. runDesktopSecretsMigration (KeytarSecretsRepository DEFAULT_SERVICE (Inr memory_keytar)) None MIGRATION_HOST_ID fresh_desktop = (Inr r, w1) \<and>
     migrated r \<and>
     runDesktopSecretsMigration (KeytarSecretsRepository DEFAULT_SERVICE (Inr memory_keytar)) None MIGRATION_HOST_ID w1 =
       (Inr r2, clearSecretProcessEnv w1) \<and> \<not> migrated r2 \<and> mig_secrets r2 = mig_secrets r"
proof -
  obtain n s' b where run: "runDesktopSecretsMigration (KeytarSecretsRepository DEFAULT_SERVICE (Inr memory_keytar)) None MIGRATION_HOST_ID fresh_desktop =
      (Inr \<lparr>mig_hostId = MIGRATION_HOST_ID, migrated = True, cleanedEnvFile = b, mig_secrets = n\<rparr>,
       (clearSecretProcessEnv (snd (cleanupEnvFile None fresh_desktop)))\<lparr>keyring := s'\<rparr>)"
    using memory.keyring.migrate_env [OF fresh_keyring(1,2) fresh_env_secrets fresh_has_secrets fresh_keyring(3), of None] by blast
  from migration_runs_once [OF memory.keytar_contract_axioms fresh_keyring(1,3) run refl, of None] run show ?thesis
    by auto
qed

text \<open>
  C32: what a migration stores. When the environment holds secrets, the stored credentials take all
  four SSH fields from the environment alone: a field the environment lacks is erased even when the
  keyring had it. The secret variables are gone from the process and the \<open>.env\<close> file is the cleaned
  one.
\<close>

theorem migration_takes_environment:
  assumes "keytar_contract kt password" and "creds_inv password service (keyring w)" and "h \<noteq> MIGRATION_MARKER_HOST_ID"
    and "stored_creds password service (keyring w) MIGRATION_MARKER_HOST_ID = None"
    and "collectEnvSecrets w = Inr envS" and "hasHostSecrets envS"
  shows "\<exists>r w'. runDesktopSecretsMigration (KeytarSecretsRepository service (Inr kt)) envPath h w = (Inr r, w') \<and> migrated r \<and>
    stored_creds password service (keyring w') h = Some (mig_secrets r) \<and>
    (\<forall>k \<in> {''username'', ''password'', ''privateKey'', ''passphrase''}. get (mig_secrets r) k = (if truthy (get envS k) then get envS k else JUndef)) \<and>
    penv w' = penv w |` (- set SECRET_ENV_KEYS) \<and> files w' = files (snd (cleanupEnvFile envPath w))"
proof -
  have "penv (snd (cleanupEnvFile envPath w)) = penv w"
    by (auto simp: cleanupEnvFile_def split: option.split)
  with keytar_contract.repo_migrate_env [OF assms(1,2,4,5,6,3), of envPath] assms(3) show ?thesis
    by (fastforce simp: clearSecretProcessEnv_def)
qed

theorem migration_takes_environment_witness:
  "\<exists>r w'. runDesktopSecretsMigration (KeytarSecretsRepository DEFAULT_SERVICE (Inr memory_keytar)) None MIGRATION_HOST_ID fresh_desktop = (Inr r, w') \<and>
     get (mig_secrets r) ''username'' = JStr ''root'' \<and> get (mig_secrets r) ''privateKey'' = JUndef \<and> penv w' ''SSH_PASSWORD'' = None"
proof -
  obtain r w' where "runDesktopSecretsMigration (KeytarSecretsRepository DEFAULT_SERVICE (Inr memory_keytar)) None MIGRATION_HOST_ID fresh_desktop = (Inr r, w')"
    "\<forall>k \<in> {''username'', ''password'', ''privateKey'', ''passphrase''}. get (mig_secrets r) k =
       (if truthy (get (JObj [(''username'', JStr ''root''), (''password'', JStr ''pw''), (''privateKey'', JUndef), (''passphrase'', JUndef)]) k)
        then get (JObj [(''username'', JStr ''root''), (''password'', JStr ''pw''), (''privateKey'', JUndef), (''passphrase'', JUndef)]) k else JUndef)"
    "penv w' = penv fresh_desktop |` (- set SECRET_ENV_KEYS)"
    using migration_takes_environment [OF memory.keytar_contract_axioms fresh_keyring(1,3,2) fresh_env_secrets fresh_has_secrets, of None] by blast
  then show ?thesis by (simp add: SECRET_ENV_KEYS_def)
qed

text \<open>
  The migration never loses secrets that were not stored. Whatever the repository does, when a
  run has changed a file, the repository had accepted the credentials and had handed back
  credentials of the host; a run that ends with an error before that leaves every file as it was.
\<close>

theorem migration_verifies_first:
  assumes "runDesktopSecretsMigration repository envPath h w = (r, w')" and "files w' \<noteq> files w"
  shows "\<exists>secrets s1 s2 verified s3. sr_set repository h secrets s1 = (Inr (), s2) \<and>
    sr_get repository h s2 = (Inr verified, s3) \<and> hasHostSecrets verified"
  using assms
  by (auto simp: runDesktopSecretsMigration_def run_defs clearSecretProcessEnv_def
      split: prod.splits sum.splits if_splits) blast+

definition env_desktop :: "memory_keyring desktop" where
  "env_desktop = fresh_desktop\<lparr>files := [''e'' \<mapsto> ''SSH_PASSWORD=pw'']\<rparr>"

theorem migration_verifies_first_witness:
  "\<exists>secrets s1 s2 verified s3. sr_set (KeytarSecretsRepository DEFAULT_SERVICE (Inr memory_keytar)) MIGRATION_HOST_ID secrets s1 = (Inr (), s2) \<and>
    sr_get (KeytarSecretsRepository DEFAULT_SERVICE (Inr memory_keytar)) MIGRATION_HOST_ID s2 = (Inr verified, s3) \<and> hasHostSecrets verified"
proof -
  have c: "cleaned ''SSH_PASSWORD=pw'' = []" by code_simp
  have e: "collectEnvSecrets env_desktop = Inr (JObj [(''username'', JStr ''root''), (''password'', JStr ''pw''), (''privateKey'', JUndef), (''passphrase'', JUndef)])"
    using fresh_env_secrets by (simp add: env_desktop_def collectEnvSecrets_def readPrivateKeyFromEnv_def getEnv_def fresh_desktop_def)
  have k: "keyring env_desktop = keyring fresh_desktop" by (simp add: env_desktop_def)
  obtain n s' b where run: "runDesktopSecretsMigration (KeytarSecretsRepository DEFAULT_SERVICE (Inr memory_keytar)) (Some ''e'') MIGRATION_HOST_ID env_desktop =
      (Inr \<lparr>mig_hostId = MIGRATION_HOST_ID, migrated = True, cleanedEnvFile = b, mig_secrets = n\<rparr>,
       (clearSecretProcessEnv (snd (cleanupEnvFile (Some ''e'') env_desktop)))\<lparr>keyring := s'\<rparr>)"
    using memory.keyring.migrate_env [OF _ _ e fresh_has_secrets fresh_keyring(3), of DEFAULT_SERVICE "Some ''e''"] fresh_keyring(1,2) k by auto
  have "files (snd (cleanupEnvFile (Some ''e'') env_desktop)) ''e'' \<noteq> files env_desktop ''e''"
    by (simp add: cleanupEnvFile_def env_desktop_def c)
  then have "files ((clearSecretProcessEnv (snd (cleanupEnvFile (Some ''e'') env_desktop)))\<lparr>keyring := s'\<rparr>) \<noteq> files env_desktop"
    by (auto simp: clearSecretProcessEnv_def)
  from migration_verifies_first [OF run this] show ?thesis .
qed

end
