(* ===== verification/Bootstrap.thy ===== *)
theory Bootstrap
  imports Ssh_Executor Secrets_Repository
begin

text \<open>
  Setting up a host from the desktop application: the main process
  (\<open>apps/desktop/src/main/main.ts\<close>), its handlers of the bootstrap channels
  (\<open>apps/desktop/src/main/ipc/registerBootstrapHandlers.ts\<close>) and the client of the web page
  (\<open>apps/web/src/features/bootstrap/bootstrapBridgeClient.ts\<close>). Arguments stand for what Electron
  and the platform decide: whether the application is packaged, the paths it resolves, and the
  origin of a URL (\<open>None\<close>: no URL). A handler runs over any state \<open>'s\<close> of the SSH executor.
\<close>

subsection \<open>Helpers of the handlers\<close>

text \<open>Reading a variable with a default, \<open>process.env.X ?? d\<close>.\<close>

definition env_or :: "env \<Rightarrow> string \<Rightarrow> string \<Rightarrow> string" where
  "env_or e key d = (case e key of None \<Rightarrow> d | Some v \<Rightarrow> v)"

text \<open>The three constants of the module, read from the environment when the module is loaded.\<close>

record bootstrap_defaults =
  installScriptUrl :: string
  serviceName :: string
  healthCommand :: string

definition read_defaults :: "env \<Rightarrow> bootstrap_defaults" where
  "read_defaults e =
     \<lparr>installScriptUrl = env_or e ''NGINX_ADMIN_INSTALL_SCRIPT_URL'' ''https://repo/install.sh'',
      serviceName = env_or e ''NGINX_ADMIN_SERVICE_NAME'' ''nginx-admin.service'',
      healthCommand = env_or e ''NGINX_ADMIN_HEALTHCHECK_COMMAND'' ''nginx-admin status''\<rparr>"

definition DEFAULT_INSTALL_TIMEOUT_MS :: rat where
  "DEFAULT_INSTALL_TIMEOUT_MS = 120000"

definition MIN_INSTALL_TIMEOUT_MS :: rat where
  "MIN_INSTALL_TIMEOUT_MS = 5000"

definition MAX_INSTALL_TIMEOUT_MS :: rat where
  "MAX_INSTALL_TIMEOUT_MS = 300000"

definition normalizeTimeout :: "js \<Rightarrow> rat" where
  "normalizeTimeout v =
     (case v of
        JNum (Fin x) \<Rightarrow> min MAX_INSTALL_TIMEOUT_MS (max MIN_INSTALL_TIMEOUT_MS (rat_trunc x))
      | _ \<Rightarrow> DEFAULT_INSTALL_TIMEOUT_MS)"

definition quoteForShell :: "string \<Rightarrow> string" where
  "quoteForShell v =
     [CHR 0x27] @ concat (map (\<lambda>c. if c = CHR 0x27 then [CHR 0x27, CHR 0x22, CHR 0x27, CHR 0x22, CHR 0x27] else [c]) v) @ [CHR 0x27]"

definition isTrustedSender :: "(string \<Rightarrow> string option) \<Rightarrow> bool \<Rightarrow> env \<Rightarrow> string \<Rightarrow> bool" where
  "isTrustedSender origin isPackaged e frameUrl =
     (if frameUrl = [] then False
      else if isPackaged then starts_with frameUrl ''file://''
      else case e ''ELECTRON_RENDERER_URL'' of
        None \<Rightarrow> starts_with frameUrl ''file://''
      | Some devUrl \<Rightarrow>
          if devUrl = [] then starts_with frameUrl ''file://''
          else (case (origin devUrl, origin frameUrl) of (Some allowed, Some actual) \<Rightarrow> allowed = actual | _ \<Rightarrow> False))"

definition ipc_failure :: "string \<Rightarrow> string \<Rightarrow> js" where
  "ipc_failure message code =
     JObj [(''ok'', JBool False), (''error'', JObj [(''message'', JStr message), (''code'', JStr code)])]"

definition ipc_success :: "js \<Rightarrow> js" where
  "ipc_success data = JObj [(''ok'', JBool True), (''data'', data)]"

fun toIpcError :: "js_error \<Rightarrow> js" where
  "toIpcError (RemoteExecutionError m c) = ipc_failure (redactPotentialSecrets m) c"
| "toIpcError (Thrown v) = ipc_failure ''Unhandled bootstrap error'' ''BOOTSTRAP_FAILED''"
| "toIpcError e = ipc_failure (redactPotentialSecrets (err_message e)) ''BOOTSTRAP_FAILED''"

definition untrusted :: js where
  "untrusted = ipc_failure ''Untrusted sender'' ''UNTRUSTED_SENDER''"

text \<open>\<open>try { return m } catch (error) { return { ok: false, error: toIpcError(error) } }\<close>.\<close>

definition answering :: "('s, js_error, js) io \<Rightarrow> 's \<Rightarrow> js \<times> 's" where
  "answering m s = (case m s of (Inr v, s') \<Rightarrow> (v, s') | (Inl e, s') \<Rightarrow> (toIpcError e, s'))"

subsection \<open>The handlers\<close>

definition METADATA_KEYS :: "string list" where
  "METADATA_KEYS = [''id'', ''name'', ''host'', ''port'', ''description'', ''createdAt'', ''updatedAt'', ''checkedAt'', ''latencyMs'', ''status'']"

definition getContext :: "bool \<Rightarrow> bootstrap_defaults \<Rightarrow> js \<Rightarrow> 's \<Rightarrow> js \<times> 's" where
  "getContext trusted d metadata s =
     (if \<not> trusted then (untrusted, s)
      else (ipc_success (JObj
        [(''connection'', JObj (map (\<lambda>k. (k, get metadata k)) METADATA_KEYS)),
         (''defaults'', JObj
           [(''installScriptUrl'', JStr (installScriptUrl d)), (''serviceName'', JStr (serviceName d)),
            (''healthCommand'', JStr (healthCommand d)), (''timeoutMs'', jint 120000)])]), s))"

text \<open>\<open>start\<close> and \<open>now\<close> are the clock before and after the check.\<close>

definition checkHost :: "bool \<Rightarrow> ('s, js_error, unit) io \<Rightarrow> int \<Rightarrow> int \<Rightarrow> 's \<Rightarrow> js \<times> 's" where
  "checkHost trusted check start now s =
     (if \<not> trusted then (untrusted, s)
      else answering (bind check (\<lambda>_. ret (ipc_success (JObj
        [(''reachable'', JBool True), (''checkedAt'', JStr (to_iso now)), (''latencyMs'', jint (now - start))])))) s)"

definition installDaemon ::
  "bool \<Rightarrow> bootstrap_defaults \<Rightarrow> (string \<Rightarrow> rat \<Rightarrow> ('s, js_error, string) io) \<Rightarrow> int \<Rightarrow> js \<Rightarrow> 's \<Rightarrow> js \<times> 's" where
  "installDaemon trusted d shell now request s =
     (if \<not> trusted then (untrusted, s)
      else answering
        (bind (shell (''curl -fsSL '' @ quoteForShell (installScriptUrl d) @ '' | sudo bash'')
                (normalizeTimeout (get (get request ''options'') ''timeoutMs''))) (\<lambda>_.
         bind (shell (''systemctl is-active '' @ quoteForShell (serviceName d)) 15000) (\<lambda>activeStateRaw.
         bind (shell (''systemctl is-enabled '' @ quoteForShell (serviceName d)) 15000) (\<lambda>enabledStateRaw.
         bind (shell (healthCommand d) 15000) (\<lambda>healthOutput.
         ret (ipc_success (JObj
           [(''installedAt'', JStr (to_iso now)),
            (''service'', JObj
              [(''name'', JStr (serviceName d)), (''active'', JBool (trim activeStateRaw = ''active'')),
               (''enabled'', JBool (trim enabledStateRaw = ''enabled'')), (''activeStateRaw'', JStr (trim activeStateRaw)),
               (''enabledStateRaw'', JStr (trim enabledStateRaw))]),
            (''health'', JObj [(''ok'', JBool True), (''output'', JStr (redactPotentialSecrets (trim healthOutput)))])]))))))) s)"

subsection \<open>The client of the page\<close>

definition unavailable :: "string \<Rightarrow> js" where
  "unavailable message = ipc_failure message ''BOOTSTRAP_UNAVAILABLE''"

record 's bootstrap_bridge =
  bb_getContext :: "'s \<Rightarrow> js \<times> 's"
  bb_checkHost :: "'s \<Rightarrow> js \<times> 's"
  bb_installDaemon :: "js \<Rightarrow> 's \<Rightarrow> js \<times> 's"

definition desktop_only :: string where
  "desktop_only = ''Bootstrap bridge is available only in desktop runtime''"

definition getBootstrapContext :: "'s bootstrap_bridge option \<Rightarrow> 's \<Rightarrow> js \<times> 's" where
  "getBootstrapContext bridge s = (case bridge of None \<Rightarrow> (unavailable desktop_only, s) | Some b \<Rightarrow> bb_getContext b s)"

definition checkBootstrapHost :: "'s bootstrap_bridge option \<Rightarrow> 's \<Rightarrow> js \<times> 's" where
  "checkBootstrapHost bridge s = (case bridge of None \<Rightarrow> (unavailable desktop_only, s) | Some b \<Rightarrow> bb_checkHost b s)"

definition installBootstrapDaemon :: "'s bootstrap_bridge option \<Rightarrow> js \<Rightarrow> 's \<Rightarrow> js \<times> 's" where
  "installBootstrapDaemon bridge options s =
     (case bridge of None \<Rightarrow> (unavailable desktop_only, s) | Some b \<Rightarrow> bb_installDaemon b (JObj [(''options'', options)]) s)"

subsection \<open>The main process\<close>

definition resolveExistingPath :: "(string \<Rightarrow> string option) \<Rightarrow> string list \<Rightarrow> js_error + string" where
  "resolveExistingPath fs candidates =
     (case find (\<lambda>candidate. fs candidate \<noteq> None) candidates of
        Some candidate \<Rightarrow> Inr candidate
      | None \<Rightarrow> Inl (Error (''Unable to resolve required file path. Checked: '' @ join '', '' candidates)))"

record ssh_runtime =
  rt_host :: string
  rt_username :: js
  rt_port :: jsnum
  rt_password :: js
  rt_privateKey :: js
  rt_passphrase :: js
  rt_executor :: ssh_executor
  hasAuth :: bool
  rt_metadata :: js

text \<open>The migration, with its error caught: no secrets then, and the secret variables cleared.\<close>

definition migrated_secrets :: "'s secrets_repository \<Rightarrow> string option \<Rightarrow> 's desktop \<Rightarrow> js \<times> 's desktop" where
  "migrated_secrets repository envPath w =
     (case runDesktopSecretsMigration repository envPath ''default'' w of
        (Inr m, w') \<Rightarrow> (mig_secrets m, w')
      | (Inl e, w') \<Rightarrow> (JNull, clearSecretProcessEnv w'))"

definition or_else :: "js \<Rightarrow> js \<Rightarrow> js" where
  "or_else v d = (if v = JUndef \<or> v = JNull then d else v)"

definition env_js :: "env \<Rightarrow> string \<Rightarrow> js" where
  "env_js e key = (case e key of None \<Rightarrow> JUndef | Some v \<Rightarrow> JStr v)"

definition createSshRuntime :: "'s secrets_repository \<Rightarrow> string option \<Rightarrow> ('s desktop, js_error, ssh_runtime) io" where
  "createSshRuntime repository envPath w =
     (let host = env_or (penv w) ''SSH_HOST'' ''127.0.0.1'' in
      case parsePort (penv w ''SSH_PORT'') (Fin 22) of
        Inl e \<Rightarrow> (Inl e, w)
      | Inr port \<Rightarrow>
          (case migrated_secrets repository envPath w of (secrets, w1) \<Rightarrow>
             (Inr \<lparr>rt_host = host,
                rt_username = or_else (get secrets ''username'') (or_else (env_js (penv w1) ''USER'')
                  (or_else (env_js (penv w1) ''USERNAME'') (JStr ''unknown''))),
                rt_port = port, rt_password = get secrets ''password'', rt_privateKey = get secrets ''privateKey'',
                rt_passphrase = get secrets ''passphrase'',
                rt_executor = new_SSHExecutor (env_or (penv w1) ''NGINX_ADMIN_CLI_PATH'' ''/usr/local/bin/nginx-admin-cli'') (Some 1) (Some 250),
                hasAuth = (truthy (get secrets ''password'') \<or> truthy (get secrets ''privateKey'')),
                rt_metadata = JObj [(''id'', JStr ''default''), (''name'', JStr (env_or (penv w1) ''SSH_HOST_NAME'' host)), (''host'', JStr host),
                  (''port'', JNum port), (''description'', env_js (penv w1) ''SSH_HOST_DESCRIPTION''), (''status'', JStr ''unknown'')]\<rparr>, w1)))"

text \<open>
  The start of the program: the modules are loaded, then the \<open>.env\<close> file, then the SSH runtime is
  created. The handlers are registered with the defaults read on loading.
\<close>

definition start_main ::
  "'s secrets_repository \<Rightarrow> string list \<Rightarrow> ('s desktop, js_error, bootstrap_defaults \<times> ssh_runtime) io" where
  "start_main repository resolved w =
     (let d = read_defaults (penv w) in
      case loadDesktopEnv resolved w of (envPath, w1) \<Rightarrow>
        bind (createSshRuntime repository envPath) (\<lambda>runtime. ret (d, runtime)) w1)"

text \<open>
  After the window is open: the health check when there is anything to log in with, and the handler
  that reopens a window.
\<close>

record app_state =
  health :: "bool option"
  reopens :: bool

definition when_ready :: "ssh_runtime \<Rightarrow> ('s, js_error, unit) io \<Rightarrow> 's \<Rightarrow> app_state \<times> 's" where
  "when_ready runtime check s =
     (if \<not> hasAuth runtime then (\<lparr>health = None, reopens = False\<rparr>, s)
      else case check s of (r, s') \<Rightarrow> (\<lparr>health = Some (\<not> isl r), reopens = True\<rparr>, s'))"

subsection \<open>Words of the shell\<close>

text \<open>
  How a POSIX shell reads a word: single quotes keep everything up to the next one, double quotes
  everything but the characters that start an expansion, a blank ends the word. \<open>None\<close> when the text
  has other syntax at that place. The argument is the quote that is open.
\<close>

definition shell_syntax :: string where
  "shell_syntax = ''|&;<>()$`*?[]#~%!{}'' @ [CHR 0x5C, CHR 0x09, CHR 0x0A]"

fun sh_word :: "char option \<Rightarrow> string \<Rightarrow> (string \<times> string) option" where
  "sh_word None [] = Some ([], [])"
| "sh_word (Some q) [] = None"
| "sh_word None (c # s) =
     (if c = CHR '' '' then Some ([], c # s)
      else if c = CHR 0x27 \<or> c = CHR 0x22 then sh_word (Some c) s
      else if c \<in> set shell_syntax then None
      else map_option (map_prod (Cons c) id) (sh_word None s))"
| "sh_word (Some q) (c # s) =
     (if c = q then sh_word None s
      else if q = CHR 0x22 \<and> (c = CHR ''$'' \<or> c = CHR 0x60 \<or> c = CHR 0x5C) then None
      else map_option (map_prod (Cons c) id) (sh_word (Some q) s))"

lemma sh_word_quoted:
  "sh_word (Some (CHR 0x27)) (concat (map (\<lambda>c. if c = CHR 0x27 then [CHR 0x27, CHR 0x22, CHR 0x27, CHR 0x22, CHR 0x27] else [c]) v) @ CHR 0x27 # rest) =
   map_option (map_prod (append v) id) (sh_word None rest)"
proof (induction v)
  case Nil
  show ?case by (cases "sh_word None rest") auto
next
  case (Cons c v)
  then show ?case by (cases "sh_word None rest") auto
qed

subsection \<open>A host that answers from a list\<close>

type_synonym host_script = "(js_error + string) list \<times> (string \<times> rat) list"

definition scripted_shell :: "string \<Rightarrow> rat \<Rightarrow> (host_script, js_error, string) io" where
  "scripted_shell command timeout = (\<lambda>(rs, ran).
     case rs of [] \<Rightarrow> (Inl (Thrown JUndef), ([], ran @ [(command, timeout)]))
     | r # rs' \<Rightarrow> (r, (rs', ran @ [(command, timeout)])))"

definition install_commands :: "bootstrap_defaults \<Rightarrow> js \<Rightarrow> (string \<times> rat) list" where
  "install_commands d request =
     [(''curl -fsSL '' @ quoteForShell (installScriptUrl d) @ '' | sudo bash'', normalizeTimeout (get (get request ''options'') ''timeoutMs'')),
      (''systemctl is-active '' @ quoteForShell (serviceName d), 15000),
      (''systemctl is-enabled '' @ quoteForShell (serviceName d), 15000),
      (healthCommand d, 15000)]"

text \<open>The number of answers read: up to and including the first failure.\<close>

definition answers_read :: "('e + 'a) list \<Rightarrow> nat" where
  "answers_read rs = (if list_all (\<lambda>r. \<not> isl r) rs then length rs else Suc (length (takeWhile (\<lambda>r. \<not> isl r) rs)))"

lemma answers_read_simps [simp]:
  "answers_read [] = 0" "answers_read (Inr x # rs) = Suc (answers_read rs)" "answers_read (Inl e # rs) = 1"
  by (simp_all add: answers_read_def)

lemma toIpcError_fails: "get (toIpcError e) ''ok'' = JBool False"
  by (cases e) (simp_all add: ipc_failure_def)

lemma toIpcError_message: "\<exists>m. get (get (toIpcError e) ''error'') ''message'' = JStr m"
  by (cases e) (simp_all add: ipc_failure_def)

lemma installDaemon_answer:
  assumes "installDaemon True d shell now request s = (answer, s')"
  shows "(\<exists>ps. answer = ipc_success (JObj ps)) \<or> (\<exists>e. answer = toIpcError e)"
  using assms unfolding installDaemon_def answering_def bind_def ret_def
  by (auto split: prod.splits sum.splits)

lemma install_scripted:
  assumes "length rs = 4"
  shows "\<exists>answer rest. installDaemon True d scripted_shell now request (rs, []) =
      (answer, (rest, take (answers_read rs) (install_commands d request))) \<and>
    (get answer ''ok'' = JBool True \<longleftrightarrow> list_all (\<lambda>r. \<not> isl r) rs)"
proof -
  obtain r1 r2 r3 r4 where rs: "rs = [r1, r2, r3, r4]"
    using assms by (auto simp: numeral_eq_Suc length_Suc_conv)
  show ?thesis
    by (cases r1; cases r2; cases r3; cases r4)
      (auto simp: rs installDaemon_def answering_def bind_def scripted_shell_def install_commands_def toIpcError_fails ipc_success_def)
qed

subsection \<open>Secrets after the start\<close>

lemma migration_clears_env:
  "runDesktopSecretsMigration repository envPath h w = (Inr r, w') \<Longrightarrow> k \<in> set SECRET_ENV_KEYS \<Longrightarrow> penv w' k = None"
  by (auto simp: runDesktopSecretsMigration_def run_defs clearSecretProcessEnv_def
      split: prod.splits sum.splits if_splits)

lemma migrated_secrets_clears_env:
  "migrated_secrets repository envPath w = (secrets, w') \<Longrightarrow> k \<in> set SECRET_ENV_KEYS \<Longrightarrow> penv w' k = None"
  using migration_clears_env [of repository envPath "''default''" w]
  by (auto simp: migrated_secrets_def clearSecretProcessEnv_def split: prod.splits sum.splits)

lemma metadata_names_clean: "list_all (\<lambda>k. \<not> isSensitiveFieldName k) (METADATA_KEYS @ [''connection'', ''defaults'', ''data'', ''ok'',
    ''installScriptUrl'', ''serviceName'', ''healthCommand'', ''timeoutMs''])"
  unfolding isSensitiveFieldName_word METADATA_KEYS_def by code_simp

lemma start_main_runtime:
  assumes "start_main repository resolved w = (Inr (d, runtime), w')"
  obtains envPath w1 where "createSshRuntime repository envPath w1 = (Inr runtime, w')"
  using assms by (auto simp: start_main_def Let_def bind_def split: prod.splits sum.splits)

lemma context_has_no_secrets:
  assumes "start_main repository resolved w = (Inr (d, runtime), w')"
  shows "\<not> hasSensitiveFieldName (fst (getContext True d (rt_metadata runtime) s))"
proof -
  obtain envPath w1 where "createSshRuntime repository envPath w1 = (Inr runtime, w')"
    using assms by (rule start_main_runtime)
  then have md: "\<exists>name h p. rt_metadata runtime = JObj [(''id'', JStr ''default''), (''name'', JStr name), (''host'', JStr h),
       (''port'', JNum p), (''description'', env_js (penv w') ''SSH_HOST_DESCRIPTION''), (''status'', JStr ''unknown'')]"
    by (auto simp: createSshRuntime_def Let_def split: sum.splits prod.splits)
  have desc: "\<not> hasSensitiveFieldName (env_js e k)" for e k by (auto simp: env_js_def split: option.split)
  show ?thesis
    using md metadata_names_clean by (auto simp: getContext_def ipc_success_def METADATA_KEYS_def jint_def desc)
qed

definition quiet_desktop :: "memory_keyring desktop" where
  "quiet_desktop = \<lparr>keyring = (\<lambda>_ _. None), penv = [''SSH_PASSWORD'' \<mapsto> []], files = Map.empty\<rparr>"

lemma quiet_start:
  "\<exists>d runtime w'. start_main (KeytarSecretsRepository DEFAULT_SERVICE (Inr memory_keytar)) [] quiet_desktop = (Inr (d, runtime), w')"
proof -
  let ?repo = "KeytarSecretsRepository DEFAULT_SERVICE (Inr memory_keytar)"
  obtain secrets w1 where "migrated_secrets ?repo None quiet_desktop = (secrets, w1)" by fastforce
  moreover have "penv quiet_desktop ''SSH_PORT'' = None" by (simp add: quiet_desktop_def)
  ultimately obtain r w' where "createSshRuntime ?repo None quiet_desktop = (Inr r, w')"
    by (simp add: createSshRuntime_def parsePort_def Let_def)
  moreover have "loadDesktopEnv [] quiet_desktop = (None, quiet_desktop)" by (simp add: loadDesktopEnv_def quiet_desktop_def)
  ultimately show ?thesis by (simp add: start_main_def bind_def Let_def)
qed

subsection \<open>Properties\<close>

text \<open>
  C24: only trusted pages reach the host. When a bootstrap handler does anything but refuse and leave
  the executor alone, the page that called it was loaded from a file, or, in a program that is not
  packaged, has the origin of the configured development server. URLs that cannot be parsed are
  refused.
\<close>

theorem only_trusted_pages_served:
  assumes "installDaemon (isTrustedSender origin isPackaged e url) d shell now request s \<noteq> (untrusted, s) \<or>
    checkHost (isTrustedSender origin isPackaged e url) check start now s \<noteq> (untrusted, s) \<or>
    getContext (isTrustedSender origin isPackaged e url) d metadata s \<noteq> (untrusted, s)"
  shows "starts_with url ''file://'' \<or>
    (\<not> isPackaged \<and> (\<exists>dev site. e ''ELECTRON_RENDERER_URL'' = Some dev \<and> origin dev = Some site \<and> origin url = Some site))"
proof -
  have "isTrustedSender origin isPackaged e url"
    using assms by (cases "isTrustedSender origin isPackaged e url") (simp_all add: installDaemon_def checkHost_def getContext_def)
  then show ?thesis by (auto simp: isTrustedSender_def split: if_splits option.splits)
qed

theorem only_trusted_pages_served_witness:
  "getContext (isTrustedSender (\<lambda>u. Some ''http://localhost:5173'') False [''ELECTRON_RENDERER_URL'' \<mapsto> ''http://localhost:5173''] ''http://localhost:5173/x'')
     (read_defaults Map.empty) (JObj []) () \<noteq> (untrusted, ()) \<and>
   (starts_with ''http://localhost:5173/x'' ''file://'' \<or>
    (\<not> False \<and> (\<exists>dev site. [''ELECTRON_RENDERER_URL'' \<mapsto> ''http://localhost:5173''] ''ELECTRON_RENDERER_URL'' = Some dev \<and>
      Some ''http://localhost:5173'' = Some site \<and> Some ''http://localhost:5173'' = Some site)))"
proof -
  let ?o = "\<lambda>u :: string. Some ''http://localhost:5173''" and ?e = "[''ELECTRON_RENDERER_URL'' \<mapsto> ''http://localhost:5173'']"
  have t: "isTrustedSender ?o False ?e ''http://localhost:5173/x''" by (simp add: isTrustedSender_def)
  then have *: "getContext (isTrustedSender ?o False ?e ''http://localhost:5173/x'') (read_defaults Map.empty) (JObj []) () \<noteq> (untrusted, ())"
    by (simp add: getContext_def untrusted_def ipc_failure_def ipc_success_def)
  from only_trusted_pages_served [of ?o False ?e "''http://localhost:5173/x''" "read_defaults Map.empty" "\<lambda>_ _ s. (Inr [], s)" 0 "JObj []" "()"
      "ret ()" 0 "JObj []"] * show ?thesis by blast
qed

text \<open>
  Installing the daemon runs its four commands in order (the install script with the requested
  timeout, the two queries of the service, the health command) and stops at the first that fails.
  It reports success exactly when all four succeeded; an untrusted page runs none.
\<close>

theorem installDaemon_runs_in_order:
  assumes "length rs = 4"
  shows "(\<exists>answer rest. installDaemon True d scripted_shell now request (rs, []) =
      (answer, (rest, take (answers_read rs) (install_commands d request))) \<and>
      (get answer ''ok'' = JBool True \<longleftrightarrow> list_all (\<lambda>r. \<not> isl r) rs)) \<and>
    installDaemon False d scripted_shell now request (rs, []) = (untrusted, (rs, []))"
  using install_scripted [OF assms] by (simp add: installDaemon_def)

theorem installDaemon_runs_in_order_witness:
  "\<exists>answer rest. installDaemon True (read_defaults Map.empty) scripted_shell 0 (JObj [])
      ([Inr [], Inl (RemoteExecutionError ''inactive'' ''SSH_NON_ZERO''), Inr [], Inr []], []) =
      (answer, (rest, take 2 (install_commands (read_defaults Map.empty) (JObj [])))) \<and> get answer ''ok'' \<noteq> JBool True"
  using installDaemon_runs_in_order [of "[Inr [], Inl (RemoteExecutionError ''inactive'' ''SSH_NON_ZERO''), Inr [], Inr []]" "read_defaults Map.empty" 0 "JObj []"]
  by (auto simp: numeral_2_eq_2)

text \<open>
  C33: quoting for the shell. A shell reads a quoted value as one word that is exactly the value,
  whatever characters it contains, quotes included.
\<close>

theorem quoteForShell_one_word:
  "sh_word None (quoteForShell v) = Some (v, []) \<and>
   sh_word None (quoteForShell v @ CHR '' '' # rest) = Some (v, CHR '' '' # rest)"
  using sh_word_quoted [of v "[]"] sh_word_quoted [of v "CHR '' '' # rest"] by (simp add: quoteForShell_def)

text \<open>
  C34: whatever the page sends as timeout, the install command runs with a whole number of
  milliseconds between five seconds and five minutes.
\<close>

theorem normalizeTimeout_bounds:
  "5000 \<le> normalizeTimeout v \<and> normalizeTimeout v \<le> 300000 \<and> (\<exists>i :: int. normalizeTimeout v = of_int i)"
proof -
  have "\<exists>i :: int. rat_trunc x = of_int i" for x by (auto simp: rat_trunc_def)
  then have "\<exists>i :: int. min 300000 (max 5000 (rat_trunc x)) = of_int i" for x
    by (metis max_def min_def of_int_numeral)
  moreover have "\<exists>i :: int. (120000 :: rat) = of_int i" by (metis of_int_numeral)
  ultimately show ?thesis
    by (auto simp: normalizeTimeout_def MIN_INSTALL_TIMEOUT_MS_def MAX_INSTALL_TIMEOUT_MS_def DEFAULT_INSTALL_TIMEOUT_MS_def
        split: js.split jsnum.split)
qed

text \<open>
  C35: once the program has started, no secret variable is left in the environment of the process,
  whatever the repository did: it may have failed at any point of the migration.
\<close>

theorem start_leaves_no_secrets:
  assumes "start_main repository resolved w = (Inr (d, runtime), w')" and "k \<in> set SECRET_ENV_KEYS"
  shows "penv w' k = None"
proof -
  obtain envPath w1 where "createSshRuntime repository envPath w1 = (Inr runtime, w')"
    using assms(1) by (rule start_main_runtime)
  then obtain secrets where "migrated_secrets repository envPath w1 = (secrets, w')"
    by (auto simp: createSshRuntime_def Let_def split: sum.splits prod.splits)
  then show ?thesis using assms(2) by (rule migrated_secrets_clears_env)
qed

theorem start_leaves_no_secrets_witness:
  "\<exists>d runtime w'. start_main (KeytarSecretsRepository DEFAULT_SERVICE (Inr memory_keytar)) [] quiet_desktop = (Inr (d, runtime), w') \<and>
     penv w' ''SSH_PASSWORD'' = None"
proof -
  obtain d runtime w' where run: "start_main (KeytarSecretsRepository DEFAULT_SERVICE (Inr memory_keytar)) [] quiet_desktop = (Inr (d, runtime), w')"
    using quiet_start by blast
  have "''SSH_PASSWORD'' \<in> set SECRET_ENV_KEYS" by (simp add: SECRET_ENV_KEYS_def)
  from start_leaves_no_secrets [OF run this] run show ?thesis by blast
qed

text \<open>
  The defaults of the handlers are fixed before the \<open>.env\<close> file is read, so what the file says of
  them has no effect; without credentials the program never learns to reopen its window.
\<close>

lemma defaults_ignore_env_file:
  "start_main repository resolved w = (Inr (d, runtime), w') \<Longrightarrow> d = read_defaults (penv w)"
  by (auto simp: start_main_def Let_def bind_def split: prod.splits sum.splits)

lemma no_reopen_without_auth: "reopens (fst (when_ready runtime check s)) \<longleftrightarrow> hasAuth runtime"
  by (simp add: when_ready_def split: prod.split)

end
