(* ===== verification/Web_Pages.thy ===== *)
theory Web_Pages
  imports Route_Stores Bootstrap
begin

text \<open>
  The pages of the web application that hold logic: the routes page
  (\<open>apps/web/src/pages/routes/model/useRoutesPage.ts\<close>), the editor of a location
  (\<open>apps/web/src/pages/routes/RouteModal/LocationModal.tsx\<close>) and the bootstrap page
  (\<open>apps/web/src/pages/bootstrap/BootstrapPage.tsx\<close>). A handler is a function on the state of the
  page and the world behind the repository; the store states it closed over when it was rendered
  are arguments. The form library is modelled by its values, and by \<open>resolve\<close>, the values it hands to
  a submit handler (\<open>None\<close>: it found errors and does not call it). Messages are transliterated.
\<close>

subsection \<open>State of the routes page\<close>

datatype toast = ToastSuccess string | ToastError string

record page =
  modal :: modal_state
  ops :: op_state
  form_values :: js
  isSaving :: bool
  isRemoving :: bool
  isSavingLocation :: bool
  isRemovingLocation :: bool
  toasts :: "toast list"

text \<open>What the callbacks of one render closed over: the stores' states, and the clock and random values they will find.\<close>

record render =
  r_mode :: form_mode
  r_editing :: "int option"
  r_routes :: routes_map
  r_stamp :: int
  r_random :: string
  r_created :: int
  r_updated :: int

type_synonym 's page_world = "page \<times> routes_state \<times> 's"

definition show_toast :: "toast \<Rightarrow> page \<Rightarrow> page" where
  "show_toast t p = p\<lparr>toasts := toasts p @ [t]\<rparr>"

subsection \<open>Route actions\<close>

definition page_openForCreate :: "string \<Rightarrow> int \<Rightarrow> page \<Rightarrow> page" where
  "page_openForCreate uuid now p =
     p\<lparr>modal := openForCreate (modal p), form_values := createRoute_factory uuid now (JObj [])\<rparr>"

definition page_openForEdit :: "js \<Rightarrow> page \<Rightarrow> page" where
  "page_openForEdit route p = p\<lparr>modal := openForEdit (modal p), form_values := route\<rparr>"

definition page_closeModal :: "page \<Rightarrow> page" where
  "page_closeModal p = p\<lparr>modal := closeModal (modal p), ops := op_reset (ops p)\<rparr>"

text \<open>\<open>{ ...rest, id }\<close> of values with an id.\<close>

definition id_last :: "js \<Rightarrow> js" where
  "id_last values = JObj (map_delete ''id'' (own_props values) @ [(''id'', get values ''id'')])"

text \<open>\<open>routeOps.create\<close> and \<open>routeOps.update\<close>: awaited, their result dropped.\<close>

definition run_operation ::
  "(op_state \<times> routes_state \<times> 's \<Rightarrow> 'a option \<times> (op_state \<times> routes_state \<times> 's)) \<Rightarrow> 's page_world \<Rightarrow> 's page_world" where
  "run_operation operation = (\<lambda>(p, w). case operation (ops p, w) of (_, (o', w')) \<Rightarrow> (p\<lparr>ops := o'\<rparr>, w'))"

definition on_page :: "(page \<Rightarrow> page) \<Rightarrow> 's page_world \<Rightarrow> 's page_world" where
  "on_page f = (\<lambda>(p, w). (f p, w))"

text \<open>
  A save waits before it does anything. \<open>finish_save\<close> is what happens after the delay, \<open>save_route\<close>
  the whole of it.
\<close>

definition finish_save :: "host \<Rightarrow> 's route_repository \<Rightarrow> render \<Rightarrow> js \<Rightarrow> 's page_world \<Rightarrow> 's page_world" where
  "finish_save z repository r values w1 =
     (let failed = on_page (show_toast (ToastError ''Oshibka pri sohranenii marshruta'')) w1;
          w2 =
            (if r_mode r = CreateMode \<or> \<not> truthy (get values ''id'') then
               (case zod_parse z (RouteSchema z) values of
                  Inl _ \<Rightarrow> failed
                | Inr route \<Rightarrow>
                    on_page page_closeModal (on_page (show_toast (ToastSuccess ''Marshrut sozdan''))
                      (run_operation (op_create z repository (r_routes r) (r_stamp r) (r_random r) (r_created r) (r_updated r) route) w1)))
             else
               (case zod_parse z (RouteSchema z) (id_last values) of
                  Inl _ \<Rightarrow> failed
                | Inr route \<Rightarrow>
                    on_page page_closeModal (on_page (show_toast (ToastSuccess ''Izmeneniya sohraneny''))
                      (run_operation (op_update z repository (r_routes r) (r_updated r) (str_of (get values ''id'')) route) w1))))
      in on_page (\<lambda>p. p\<lparr>isSaving := False\<rparr>) w2)"

definition save_route :: "host \<Rightarrow> 's route_repository \<Rightarrow> render \<Rightarrow> js \<Rightarrow> 's page_world \<Rightarrow> 's page_world" where
  "save_route z repository r values w0 = finish_save z repository r values (on_page (\<lambda>p. p\<lparr>isSaving := True\<rparr>) w0)"

definition onSubmit ::
  "host \<Rightarrow> 's route_repository \<Rightarrow> render \<Rightarrow> (js \<Rightarrow> js option) \<Rightarrow> 's page_world \<Rightarrow> 's page_world" where
  "onSubmit z repository r resolve w =
     (case resolve (form_values (fst w)) of None \<Rightarrow> w | Some values \<Rightarrow> save_route z repository r values w)"

definition saveRouteForce :: "host \<Rightarrow> 's route_repository \<Rightarrow> render \<Rightarrow> 's page_world \<Rightarrow> 's page_world" where
  "saveRouteForce z repository r w = save_route z repository r (form_values (fst w)) w"

definition onToggle :: "host \<Rightarrow> 's route_repository \<Rightarrow> render \<Rightarrow> string \<Rightarrow> 's page_world \<Rightarrow> 's page_world" where
  "onToggle z repository r i w =
     on_page (show_toast (ToastSuccess ''Status marshruta izmenen'')) (run_operation (op_toggle z repository (r_routes r) (r_updated r) i) w)"

definition finish_remove :: "'s route_repository \<Rightarrow> render \<Rightarrow> string \<Rightarrow> 's page_world \<Rightarrow> 's page_world" where
  "finish_remove repository r i w1 =
     on_page (\<lambda>p. p\<lparr>isRemoving := False\<rparr>)
       (on_page (show_toast (ToastSuccess ''Marshrut udalen'')) (run_operation (op_remove repository (r_routes r) i) w1))"

definition onRemove :: "'s route_repository \<Rightarrow> render \<Rightarrow> string \<Rightarrow> 's page_world \<Rightarrow> 's page_world" where
  "onRemove repository r i w = finish_remove repository r i (on_page (\<lambda>p. p\<lparr>isRemoving := True\<rparr>) w)"

subsection \<open>Location actions\<close>

definition or_text :: "js \<Rightarrow> js \<Rightarrow> js" where
  "or_text v d = (if truthy v then v else d)"

definition onAddLocation :: "page \<Rightarrow> page" where
  "onAddLocation p =
     (let loc = createLocation (JObj [(''path'', JStr ''/'')]);
          uiLoc = JObj [(''path'', createBranded (or_text (get loc ''path'') (JStr ''/''))), (''proxy_pass'', JUndef),
            (''try_files'', or_text (get loc ''try_files'') (JStr [])), (''index'', or_text (get loc ''index'') (JStr [])),
            (''extra_directives'', or_text (get loc ''extra_directives'') (JStr []))]
      in p\<lparr>modal := startEditLocation None uiLoc (modal p)\<rparr>)"

definition onEditLocation :: "int option \<Rightarrow> js \<Rightarrow> page \<Rightarrow> page" where
  "onEditLocation index v p = p\<lparr>modal := startEditLocation index v (modal p)\<rparr>"

text \<open>A value of the form that is no array has no locations to spread or filter, which throws.\<close>

definition finish_delete_location :: "int \<Rightarrow> page \<Rightarrow> page" where
  "finish_delete_location index p1 =
     (let p2 = (case get (form_values p1) ''locations'' of
              JArr ls \<Rightarrow> show_toast (ToastSuccess ''Lokaciya udalena'')
                (p1\<lparr>form_values := set_prop ''locations'' (JArr (removeLocation ls index)) (form_values p1)\<rparr>)
            | _ \<Rightarrow> show_toast (ToastError ''Oshibka pri udalenii lokacii'') p1)
      in p2\<lparr>isRemovingLocation := False\<rparr>)"

definition onDeleteLocation :: "int \<Rightarrow> page \<Rightarrow> page" where
  "onDeleteLocation index p = finish_delete_location index (p\<lparr>isRemovingLocation := True\<rparr>)"

definition finish_save_location :: "string \<Rightarrow> host \<Rightarrow> render \<Rightarrow> js \<Rightarrow> page \<Rightarrow> page" where
  "finish_save_location invalid z r v p1 =
     (let p2 = (if validateLocationForm z v \<noteq> [] then show_toast (ToastError invalid) p1
                else case get (form_values p1) ''locations'' of
                  JArr ls \<Rightarrow>
                    (let next' = (case r_editing r of None \<Rightarrow> addLocationToRoute ls v | Some i \<Rightarrow> updateLocationInRoute ls i v)
                     in show_toast (ToastSuccess ''Lokaciya sohranena'')
                          (p1\<lparr>form_values := set_prop ''locations'' (JArr next') (form_values p1),
                              modal := startEditLocation None JNull (modal p1)\<rparr>))
                | _ \<Rightarrow> show_toast (ToastError ''Oshibka pri sohranenii lokacii'') p1)
      in p2\<lparr>isSavingLocation := False\<rparr>)"

definition save_location :: "string \<Rightarrow> host \<Rightarrow> render \<Rightarrow> js \<Rightarrow> page \<Rightarrow> page" where
  "save_location invalid z r v p = finish_save_location invalid z r v (p\<lparr>isSavingLocation := True\<rparr>)"

definition onSaveLocation :: "host \<Rightarrow> render \<Rightarrow> js \<Rightarrow> page \<Rightarrow> page" where
  "onSaveLocation = save_location ''Nekorrektnaya konfiguraciya lokacii''"

definition onSaveLocationForce :: "host \<Rightarrow> render \<Rightarrow> js \<Rightarrow> page \<Rightarrow> page" where
  "onSaveLocationForce = save_location ''Invalid location configuration''"

text \<open>The inputs of the location editor: each writes the edited field back through the modal store.\<close>

definition change_location_field :: "string \<Rightarrow> string \<Rightarrow> page \<Rightarrow> page" where
  "change_location_field field text p =
     (let m = modal p in
      if truthy (editing_value m)
      then p\<lparr>modal := startEditLocation (editing_index m) (set_prop field (createBranded (JStr text)) (editing_value m)) m\<rparr>
      else p)"

subsection \<open>The bootstrap page\<close>

record bootstrap_page =
  b_context :: js
  contextError :: js
  checkResult :: js
  checkError :: js
  installResult :: js
  installError :: js
  isChecking :: bool
  isInstalling :: bool
  install_form :: js

definition PRESET_VALUES :: js where
  "PRESET_VALUES = JObj [(''installScriptUrl'', JStr ''https://repo/install.sh''), (''serviceName'', JStr ''nginx-admin.service''),
     (''healthCommand'', JStr ''nginx-admin status''), (''timeoutMs'', jint 120000)]"

definition initial_bootstrap :: bootstrap_page where
  "initial_bootstrap = \<lparr>b_context = JNull, contextError = JNull, checkResult = JNull, checkError = JNull, installResult = JNull,
     installError = JNull, isChecking = False, isInstalling = False, install_form = PRESET_VALUES\<rparr>"

definition fail_message :: "js \<Rightarrow> js" where
  "fail_message result = get (get result ''error'') ''message''"

text \<open>The effect on mounting; \<open>active\<close> is false when the page was left before the answer came.\<close>

definition load_context :: "'s bootstrap_bridge option \<Rightarrow> bool \<Rightarrow> bootstrap_page \<times> 's \<Rightarrow> bootstrap_page \<times> 's" where
  "load_context bridge active = (\<lambda>(b, s).
     case getBootstrapContext bridge s of (result, s') \<Rightarrow>
       if \<not> active then (b, s')
       else if \<not> truthy (get result ''ok'') then (b\<lparr>contextError := fail_message result\<rparr>, s')
       else let data = get result ''data''; d = get data ''defaults'' in
         (b\<lparr>b_context := data,
            install_form := JObj [(''installScriptUrl'', get d ''installScriptUrl''), (''serviceName'', get d ''serviceName''),
              (''healthCommand'', get d ''healthCommand''), (''timeoutMs'', or_else (get d ''timeoutMs'') (jint 120000))]\<rparr>, s'))"

definition onCheckHost :: "'s bootstrap_bridge option \<Rightarrow> bootstrap_page \<times> 's \<Rightarrow> bootstrap_page \<times> 's" where
  "onCheckHost bridge = (\<lambda>(b, s).
     let b1 = b\<lparr>isChecking := True, checkError := JNull, checkResult := JNull\<rparr> in
     case checkBootstrapHost bridge s of (result, s') \<Rightarrow>
       ((if \<not> truthy (get result ''ok'') then b1\<lparr>checkError := fail_message result\<rparr>
         else b1\<lparr>checkResult := get result ''data''\<rparr>)\<lparr>isChecking := False\<rparr>, s'))"

text \<open>\<open>Number\<close> on the values an input can hold.\<close>

fun to_number :: "js \<Rightarrow> jsnum" where
  "to_number (JNum n) = n"
| "to_number (JStr t) = js_Number t"
| "to_number (JBool b) = Fin (if b then 1 else 0)"
| "to_number JNull = Fin 0"
| "to_number (JDate (Some t)) = Fin (of_int t)"
| "to_number (JArr xs) = js_Number (js_to_string (JArr xs))"
| "to_number _ = NaN"

definition onInstall :: "'s bootstrap_bridge option \<Rightarrow> js \<Rightarrow> bootstrap_page \<times> 's \<Rightarrow> bootstrap_page \<times> 's" where
  "onInstall bridge values = (\<lambda>(b, s).
     let b1 = b\<lparr>isInstalling := True, installError := JNull, installResult := JNull\<rparr> in
     case installBootstrapDaemon bridge (JObj
         [(''installScriptUrl'', get values ''installScriptUrl''), (''serviceName'', get values ''serviceName''),
          (''healthCommand'', get values ''healthCommand''), (''timeoutMs'', JNum (to_number (get values ''timeoutMs'')))]) s of
       (result, s') \<Rightarrow>
         ((if \<not> truthy (get result ''ok'') then b1\<lparr>installError := fail_message result\<rparr>
           else b1\<lparr>installResult := get result ''data''\<rparr>)\<lparr>isInstalling := False\<rparr>, s'))"

text \<open>The bridge of the preload script, answered by the handlers of the main process.\<close>

definition desktop_bridge ::
  "bool \<Rightarrow> bootstrap_defaults \<Rightarrow> js \<Rightarrow> ('s, js_error, unit) io \<Rightarrow> (string \<Rightarrow> rat \<Rightarrow> ('s, js_error, string) io) \<Rightarrow> int \<Rightarrow> int \<Rightarrow> 's bootstrap_bridge" where
  "desktop_bridge trusted d metadata check shell start now =
     \<lparr>bb_getContext = getContext trusted d metadata, bb_checkHost = checkHost trusted check start now,
      bb_installDaemon = installDaemon trusted d shell now\<rparr>"

subsection \<open>Properties\<close>

lemma run_operation_keeps:
  "\<exists>o' w'. run_operation operation (p, w) = (p\<lparr>ops := o'\<rparr>, w') \<and> w' = snd (snd (operation (ops p, w)))"
  by (auto simp: run_operation_def split: prod.split)

lemmas page_handlers = on_page_def show_toast_def page_closeModal_def closeModal_def op_reset_def Let_def

text \<open>
  The page does not look at the outcome of a save. When the values fail the schema, nothing
  reaches the repository and an error is reported. When they pass, the operation runs, and then the
  page reports success, closes the form and clears the operation's error, also when the repository
  refused the route. Either way the saving flag is off at the end.
\<close>

theorem save_route_outcome:
  "case save_route z repository (r\<lparr>r_mode := CreateMode\<rparr>) values (p, w) of (p', w') \<Rightarrow>
     \<not> isSaving p' \<and>
     (case zod_parse z (RouteSchema z) values of
        Inl _ \<Rightarrow> w' = w \<and> modal p' = modal p \<and> toasts p' = toasts p @ [ToastError ''Oshibka pri sohranenii marshruta'']
      | Inr route \<Rightarrow>
          w' = snd (snd (op_create z repository (r_routes r) (r_stamp r) (r_random r) (r_created r) (r_updated r) route (ops p, w))) \<and>
          \<not> modalOpen (modal p') \<and> op_error (ops p') = None \<and> toasts p' = toasts p @ [ToastSuccess ''Marshrut sozdan''])"
proof (cases "zod_parse z (RouteSchema z) values")
  case (Inl e)
  then show ?thesis by (simp add: save_route_def finish_save_def page_handlers)
next
  case (Inr route)
  obtain o' w' where "run_operation (op_create z repository (r_routes r) (r_stamp r) (r_random r) (r_created r) (r_updated r) route)
      (p\<lparr>isSaving := True\<rparr>, w) = (p\<lparr>isSaving := True, ops := o'\<rparr>, w')"
    and "w' = snd (snd (op_create z repository (r_routes r) (r_stamp r) (r_random r) (r_created r) (r_updated r) route (ops p, w)))"
    using run_operation_keeps [of _ "p\<lparr>isSaving := True\<rparr>" w] by fastforce
  with Inr show ?thesis by (simp add: save_route_def finish_save_def page_handlers)
qed

text \<open>
  Saving a location. A location with errors leaves the form and the editor as they were; a valid
  one is appended when a new one was being edited and replaces the edited one otherwise, and the
  editor is closed. The button that promises to save in any case does exactly the same to the form.
\<close>

theorem save_location_outcome:
  "(if validateLocationForm z v \<noteq> [] then form_values (onSaveLocation z r v p) = form_values p \<and> modal (onSaveLocation z r v p) = modal p
    else case get (form_values p) ''locations'' of
      JArr ls \<Rightarrow>
        get (form_values (onSaveLocation z r v p)) ''locations'' =
          JArr (case r_editing r of None \<Rightarrow> ls @ [v] | Some i \<Rightarrow> updateLocationInRoute ls i v) \<and>
        editing_value (modal (onSaveLocation z r v p)) = JNull \<and> last (toasts (onSaveLocation z r v p)) = ToastSuccess ''Lokaciya sohranena''
    | _ \<Rightarrow> form_values (onSaveLocation z r v p) = form_values p) \<and>
   \<not> isSavingLocation (onSaveLocation z r v p) \<and>
   form_values (onSaveLocationForce z r v p) = form_values (onSaveLocation z r v p) \<and>
   modal (onSaveLocationForce z r v p) = modal (onSaveLocation z r v p)"
proof -
  have set: "get (set_prop ''locations'' x f) ''locations'' = x" if "get f ''locations'' = JArr ls" for f x ls
    using that by (cases f) (auto simp: set_prop_def get_def)
  show ?thesis
    by (auto simp: onSaveLocation_def onSaveLocationForce_def save_location_def finish_save_location_def page_handlers addLocationToRoute_def
        startEditLocation_def set split: js.split option.split)
qed

lemma install_commands_timeout:
  "install_commands d (JObj [(''options'', JObj [(''installScriptUrl'', u), (''serviceName'', n), (''healthCommand'', c), (''timeoutMs'', t)])]) =
   install_commands d (JObj [(''options'', JObj [(''timeoutMs'', t)])])"
  by (simp add: install_commands_def)

end
