(* ===== verification/Route_Views.thy ===== *)
theory Route_Views
  imports Views Web_Pages
begin

text \<open>
  What the pages of the web application render: the list of routes, the form of a route with its four
  tabs, the editor of a location (\<open>apps/web/src/pages/routes\<close>) and the bootstrap page
  (\<open>apps/web/src/pages/bootstrap/BootstrapPage.tsx\<close>). Handlers are actions; \<open>Page_Session\<close> says what
  they do. Labels are transliterated. Exit animations, during which an element that is gone is still
  on the screen, are left out.
\<close>

subsection \<open>Actions and local state\<close>

datatype save_button = NormalButton | ForceButton

datatype page_action =
    OnCreate
  | OnEdit js
  | OnToggle string
  | MarkRemoving string
  | OnRemove string
  | SetTab active_tab
  | OnSubmit
  | OnSaveForce
  | OnClose
  | is_set: SetValue "string list" js
  | OnAddLocation
  | OnEditLocation int js
  | MarkDeleting int
  | OnDeleteLocation int
  | OnCopy string
  | OnChangeLocation string string
  | OnCancelLocation
  | MarkButton save_button
  | OnSaveLocation js
  | OnSaveLocationForce js

record locals =
  activeRemoveId :: "string option"
  activeDeleteIndex :: "int option"
  activeButton :: "save_button option"
  copied :: bool

definition initial_locals :: locals where
  "initial_locals = \<lparr>activeRemoveId = None, activeDeleteIndex = None, activeButton = None, copied = False\<rparr>"

text \<open>The form library as the fields see it: the error of a field and the id of its item.\<close>

record form_kit =
  fk_errors :: "string \<Rightarrow> js"
  fk_ids :: "string \<Rightarrow> string"

text \<open>Reading and setting a value of the form by its path; a missing object on the way is created.\<close>

fun form_get :: "string list \<Rightarrow> js \<Rightarrow> js" where
  "form_get [] v = v"
| "form_get (k # ks) v = form_get ks (get v k)"

fun form_set :: "string list \<Rightarrow> js \<Rightarrow> js \<Rightarrow> js" where
  "form_set [] x v = x"
| "form_set (k # ks) x v = JObj (map_set k (form_set ks x (get v k)) (props_of v))"

text \<open>Reading a property in the markup, which throws on \<open>undefined\<close> and \<open>null\<close>.\<close>

definition missing :: "js \<Rightarrow> bool" where
  "missing v \<longleftrightarrow> v = JUndef \<or> v = JNull"

definition text_field :: "form_kit \<Rightarrow> js \<Rightarrow> string \<Rightarrow> string list \<Rightarrow> page_action view" where
  "text_field fk values label path =
     FormField (fk_errors fk) (fk_ids fk) (join ''.'' path) label (form_get path values) (\<lambda>t. SetValue path (JStr t))"

definition checkbox :: "js \<Rightarrow> string \<Rightarrow> string list \<Rightarrow> (bool \<Rightarrow> page_action list) \<Rightarrow> page_action view" where
  "checkbox values label path also_set =
     Checkbox label (truthy (form_get path values)) (\<lambda>checked. SetValue path (JBool checked) # also_set checked)"

subsection \<open>The list\<close>

definition route_row :: "bool \<Rightarrow> string option \<Rightarrow> js \<Rightarrow> page_action rendering" where
  "route_row removing active route =
     (if missing route then Inl type_error
      else let i = str_of (get route ''id''); enabled = truthy (get route ''enabled'') in
        element
          [js_child (get route ''domain''),
           js_child (get route ''port''),
           Inr (Txt (if truthy (get route ''proxy_pass'') then ''Proksi'' else ''Statika'')),
           Inr (Txt (if enabled then ''Aktiven'' else ''Otklyuchen'')),
           Inr (Button SubmitType removing [OnToggle i] [Txt (if enabled then ''Otklyuchit'' else ''Vklyuchit'')]),
           Inr (Button SubmitType removing [OnEdit route] [Txt ''Redaktirovat'']),
           Inr (Button SubmitType removing [MarkRemoving i, OnRemove i]
             [Txt (if removing \<and> active = Some i then ''Udalenie...'' else ''Udalit'')])])"

definition RouteList ::
  "js list \<Rightarrow> bool \<Rightarrow> string option \<Rightarrow> bool \<Rightarrow> string option \<Rightarrow> page_action rendering" where
  "RouteList rows loading_now failure removing active =
     element
       ([Inr (Txt ''Spisok marshrutov''), Inr (ui_Button None False [OnCreate] [Txt ''Dobavit marshrut''])] @
        shown_if loading_now (Inr (Txt ''Zagruzka...'')) @
        (case failure of None \<Rightarrow> [] | Some e \<Rightarrow> [js_child (JStr e)]) @
        shown_if (\<not> loading_now \<and> (failure = None \<or> failure = Some []))
          (element (map (\<lambda>h. Inr (Txt h)) [''Domen'', ''Port'', ''Tip'', ''Status'', ''Deistviya''] @
             map (route_row removing active) rows)))"

subsection \<open>The tabs of the form\<close>

definition port_field :: "host \<Rightarrow> form_kit \<Rightarrow> js \<Rightarrow> page_action rendering" where
  "port_field z fk values =
     (case zod_parse z PortSchema (get values ''port'') of
        Inl e \<Rightarrow> Inl e
      | Inr port \<Rightarrow>
          Inr (FormField (fk_errors fk) (fk_ids fk) ''port'' ''Port'' port
            (\<lambda>t. SetValue [''port''] (if t = [] then JUndef else JNum (js_Number t)))))"

definition BasicTab :: "host \<Rightarrow> form_kit \<Rightarrow> js \<Rightarrow> page_action rendering" where
  "BasicTab z fk values =
     element
       [Inr (text_field fk values ''Domen'' [''domain'']),
        port_field z fk values,
        Inr (text_field fk values ''Kornevaya direktoriya'' [''root'']),
        Inr (text_field fk values ''Proksi-adres (optsionalno)'' [''proxy_pass'']),
        Inr (checkbox values ''Marshrut aktiven'' [''enabled''] (\<lambda>_. [])),
        Inr (checkbox values ''Vklyuchit SSL'' [''ssl''] (\<lambda>_. [])),
        and_then (get values ''ssl'') (Inr (Element
          [text_field fk values ''SSL sertifikat'' [''ssl_certificate''],
           text_field fk values ''SSL klyuch'' [''ssl_certificate_key'']]))]"

definition cleared_unless :: "bool \<Rightarrow> string list \<Rightarrow> page_action list" where
  "cleared_unless checked path = (if \<not> checked then [SetValue path JUndef] else [])"

definition AdvancedTab :: "form_kit \<Rightarrow> js \<Rightarrow> page_action rendering" where
  "AdvancedTab fk values =
     element
       [Inr (text_field fk values ''Maksimalnyi razmer tela zaprosa'' [''advanced'', ''client_max_body_size'']),
        Inr (text_field fk values ''Taimaut keepalive'' [''advanced'', ''keepalive_timeout'']),
        Inr (checkbox values ''Vklyuchit Gzip szhatie'' [''advanced'', ''gzip'']
          (\<lambda>checked. cleared_unless checked [''advanced'', ''gzip_types''])),
        and_then (form_get [''advanced'', ''gzip''] values)
          (Inr (text_field fk values ''Tipy dlya Gzip'' [''advanced'', ''gzip_types''])),
        Inr (checkbox values ''Vklyuchit keshirovanie'' [''advanced'', ''caching'']
          (\<lambda>checked. cleared_unless checked [''advanced'', ''cache_valid''])),
        and_then (form_get [''advanced'', ''caching''] values)
          (Inr (text_field fk values ''Validnost kesha'' [''advanced'', ''cache_valid'']))]"

definition location_line :: "js \<Rightarrow> string \<Rightarrow> string \<Rightarrow> page_action rendering" where
  "location_line loc title field = and_then (get loc field) (element [Inr (Txt title), js_child (get loc field)])"

definition location_row :: "bool \<Rightarrow> int option \<Rightarrow> nat \<times> js \<Rightarrow> page_action rendering" where
  "location_row removing active = (\<lambda>(i, loc).
     if missing loc then Inl type_error
     else element
       [js_child (get loc ''path''),
        Inr (Button ButtonType removing [OnEditLocation (int i) loc] [Txt ''Redaktirovat'']),
        Inr (Button ButtonType removing [MarkDeleting (int i), OnDeleteLocation (int i)]
          [Txt (if removing \<and> active = Some (int i) then ''Udalenie...'' else ''Udalit'')]),
        location_line loc ''Proxy: '' ''proxy_pass'',
        location_line loc ''Try Files: '' ''try_files'',
        location_line loc ''Index: '' ''index''])"

definition LocationsTab :: "js \<Rightarrow> bool \<Rightarrow> int option \<Rightarrow> page_action rendering" where
  "LocationsTab values removing active =
     (case get values ''locations'' of
        JArr ls \<Rightarrow>
          element
            ([Inr (Txt ''Location bloki''), Inr (ui_Button (Some ButtonType) False [OnAddLocation] [Txt ''Dobavit location''])] @
             map (location_row removing active) (enumerate 0 ls) @
             shown_if (ls = []) (Inr (Txt ''Net dobavlennyh location blokov'')))
      | _ \<Rightarrow> Inl type_error)"

definition PreviewTab :: "string \<Rightarrow> bool \<Rightarrow> page_action view" where
  "PreviewTab preview was_copied =
     Element
       [Txt ''Predprosmotr konfiguratsii'',
        ui_Button (Some ButtonType) False [OnCopy preview] [Txt (if was_copied then ''Skopirovano'' else ''Kopirovat'')],
        Txt preview]"

subsection \<open>The form of a route\<close>

definition tabs :: "active_tab list" where
  "tabs = [Basic, Locations, Advanced, Preview]"

fun tab_label :: "active_tab \<Rightarrow> string" where
  "tab_label Basic = ''Osnovnye nastroiki''"
| "tab_label Locations = ''Location bloki''"
| "tab_label Advanced = ''Dopolnitelnye nastroiki''"
| "tab_label Preview = ''Predprosmotr konfiga''"

definition tab_content :: "host \<Rightarrow> form_kit \<Rightarrow> locals \<Rightarrow> page \<Rightarrow> page_action rendering" where
  "tab_content z fk l p =
     (let tab = activeTab (modal p); values = form_values p in
      AnimatedTab
        (shown_if (tab = Basic) (BasicTab z fk values) @
         shown_if (tab = Locations) (LocationsTab values (isRemovingLocation p) (activeDeleteIndex l)) @
         shown_if (tab = Advanced) (AdvancedTab fk values) @
         shown_if (tab = Preview) (Inr (PreviewTab (useRoutePreview z values) (copied l)))))"

definition modal_footer :: "page \<Rightarrow> page_action view list" where
  "modal_footer p =
     (let verb = (if mode (modal p) = EditMode then ''Sohranit'' else ''Dobavit'') in
      [ui_Button None False [OnSaveForce] [Txt verb, Txt '' v lyubom sluchae''],
       Button ButtonType False [OnClose] [Txt ''Otmena''],
       ui_Button None (isSaving p) [] [Txt (if isSaving p then ''Sohranenie...'' else verb)]])"

definition RouteModal :: "host \<Rightarrow> form_kit \<Rightarrow> locals \<Rightarrow> page \<Rightarrow> page_action rendering" where
  "RouteModal z fk l p =
     (if \<not> modalOpen (modal p) then Inr (Element [])
      else map_sum id (\<lambda>content.
        Clickable (Some OnClose)
          [Clickable None
            [Txt (if mode (modal p) = EditMode then ''Redaktirovanie marshruta'' else ''Dobavlenie marshruta''),
             Element (map (\<lambda>tab. Button SubmitType False [SetTab tab] [Txt (tab_label tab)]) tabs),
             Form OnSubmit (content # modal_footer p)]])
        (tab_content z fk l p))"

subsection \<open>The editor of a location\<close>

definition location_input :: "js \<Rightarrow> string \<Rightarrow> string \<Rightarrow> page_action view" where
  "location_input value label field =
     Element [Txt label, Input None field (or_text (get value field) (JStr [])) (OnChangeLocation field)]"

definition location_buttons :: "locals \<Rightarrow> page \<Rightarrow> page_action view list" where
  "location_buttons l p =
     (let value = editing_value (modal p); saving = isSavingLocation p;
          shown = (\<lambda>b t. if saving \<and> activeButton l = Some b then ''Sohranenie...'' else t) in
      [ui_Button None saving [MarkButton ForceButton, OnSaveLocationForce value] [Txt (shown ForceButton ''Sohranit v lyubom sluchae'')],
       Button SubmitType saving [OnCancelLocation] [Txt ''Otmena''],
       ui_Button None saving [MarkButton NormalButton, OnSaveLocation value] [Txt (shown NormalButton ''Sohranit'')]])"

definition LocationModal :: "locals \<Rightarrow> page \<Rightarrow> page_action rendering" where
  "LocationModal l p =
     (let value = editing_value (modal p) in
      and_then value (Inr (Element
        ([Txt ''Redaktirovanie location'',
          Element [Txt ''Put'', Input None ''path'' (get value ''path'') (OnChangeLocation ''path'')],
          location_input value ''Proksi-adres (optsionalno)'' ''proxy_pass'',
          location_input value ''Try Files (optsionalno)'' ''try_files'',
          location_input value ''Index faily (optsionalno)'' ''index'',
          location_input value ''Dopolnitelnye direktivy (optsionalno)'' ''extra_directives''] @
         location_buttons l p))))"

subsection \<open>The page\<close>

definition RoutesPage :: "host \<Rightarrow> form_kit \<Rightarrow> locals \<Rightarrow> page \<Rightarrow> routes_state \<Rightarrow> page_action rendering" where
  "RoutesPage z fk l p st =
     (case useRoutesList st of (rows, loading_now, failure) \<Rightarrow>
        element
          [RouteList rows loading_now failure (isRemoving p) (activeRemoveId l),
           RouteModal z fk l p,
           LocationModal l p])"

subsection \<open>The bootstrap page\<close>

datatype bootstrap_action = OnCheckHost | OnInstall | SetInstall string string

text \<open>A property of a value, as a child; reading it throws when there is no value.\<close>

definition child_of :: "js \<Rightarrow> string \<Rightarrow> 'a rendering" where
  "child_of v k = (if missing v then Inl type_error else js_child (get v k))"

definition titled :: "string \<Rightarrow> 'a rendering \<Rightarrow> 'a rendering" where
  "titled title r = element [Inr (Txt title), r]"

definition connection_section :: "bootstrap_page \<Rightarrow> bootstrap_action rendering" where
  "connection_section b =
     (let connection = get (b_context b) ''connection'' in
      element
        [Inr (Txt ''Connection''),
         and_then (b_context b) (element
           [titled ''Name: '' (child_of connection ''name''), titled ''Host: '' (child_of connection ''host''),
            titled ''Port: '' (child_of connection ''port''),
            titled ''Status: '' (if missing connection then Inl type_error
              else js_child (or_else (get connection ''status'') (JStr ''unknown'')))]),
         Inr (Txt (if truthy (b_context b) then [] else ''Loading connection context...'')),
         and_then (contextError b) (js_child (contextError b)),
         Inr (Button ButtonType (isChecking b) [OnCheckHost] [Txt (if isChecking b then ''Checking...'' else ''Check Host Availability'')]),
         and_then (checkResult b) (element
           [Inr (Txt ''Reachable at ''), js_child (get (checkResult b) ''checkedAt''), Inr (Txt '' (''),
            js_child (get (checkResult b) ''latencyMs''), Inr (Txt '' ms)'')]),
         and_then (checkError b) (js_child (checkError b))])"

definition install_input :: "bootstrap_page \<Rightarrow> string \<Rightarrow> string \<Rightarrow> bootstrap_action view" where
  "install_input b label name = Element [Txt label, Input None name (get (install_form b) name) (SetInstall name)]"

definition install_result :: "js \<Rightarrow> bootstrap_action rendering" where
  "install_result r =
     (let service = get r ''service''; health = get r ''health'' in
      if missing service \<or> missing health then Inl type_error
      else element
        [titled ''Installed at: '' (child_of r ''installedAt''), titled ''Service: '' (child_of service ''name''),
         Inr (Txt ''Active: ''), Inr (Txt (js_to_string (get service ''active''))), Inr (Txt '' (''), child_of service ''activeStateRaw'', Inr (Txt '')''),
         Inr (Txt ''Enabled: ''), Inr (Txt (js_to_string (get service ''enabled''))), Inr (Txt '' (''), child_of service ''enabledStateRaw'', Inr (Txt '')''),
         titled ''Health output: '' (js_child (or_text (get health ''output'') (JStr ''(empty)'')))])"

definition install_section :: "bootstrap_page \<Rightarrow> bootstrap_action rendering" where
  "install_section b =
     element
       [Inr (Txt ''Daemon Initialization''),
        Inr (Form OnInstall
          [install_input b ''Install Script URL'' ''installScriptUrl'', install_input b ''Systemd Service'' ''serviceName'',
           install_input b ''Health Check Command'' ''healthCommand'', install_input b ''Install Timeout (ms)'' ''timeoutMs'',
           Button SubmitType (isInstalling b) [] [Txt (if isInstalling b then ''Installing...'' else ''Install and Verify Daemon'')]]),
        and_then (installResult b) (install_result (installResult b)),
        and_then (installError b) (js_child (installError b))]"

definition BootstrapPage :: "bootstrap_page \<Rightarrow> bootstrap_action rendering" where
  "BootstrapPage b = element [connection_section b, install_section b]"

subsection \<open>The application\<close>

datatype app_page = Overview | RoutesElement | ConfigPage | LogsPage | StatisticsPage | BootstrapElement

definition app_routes :: "(string \<times> app_page) list" where
  "app_routes = [(''/'', Overview), (''/routes'', RoutesElement), (''/config'', ConfigPage), (''/logs'', LogsPage),
     (''/statistics'', StatisticsPage), (''/bootstrap'', BootstrapElement)]"

definition sidebar_links :: "(string \<times> string) list" where
  "sidebar_links = [(''/'', ''Overview''), (''/routes'', ''Routes''), (''/config'', ''Config''), (''/logs'', ''Logs''),
     (''/statistics'', ''Statistics''), (''/bootstrap'', ''Bootstrap'')]"

datatype app_action = Navigate string | AtRoutes page_action | AtBootstrap bootstrap_action

definition Sidebar :: "app_action view" where
  "Sidebar = Element (Txt ''Nginx Admin'' # map (\<lambda>(path, title). Clickable (Some (Navigate path)) [Txt title]) sidebar_links)"

definition app_element :: "page_action rendering \<Rightarrow> bootstrap_action rendering \<Rightarrow> app_page \<Rightarrow> app_action rendering" where
  "app_element routes_page bootstrap pg =
     (case pg of
        Overview \<Rightarrow> Inr (Txt ''Welcome to Nginx Admin dashboard'')
      | RoutesElement \<Rightarrow> map_sum id (view.map_view AtRoutes) routes_page
      | ConfigPage \<Rightarrow> Inr (Txt ''Configuration editor'')
      | LogsPage \<Rightarrow> Inr (Txt ''Logs view'')
      | StatisticsPage \<Rightarrow> Inr (Txt ''Statistics'')
      | BootstrapElement \<Rightarrow> map_sum id (view.map_view AtBootstrap) bootstrap)"

text \<open>The router renders the element of the route with the current path, and nothing for another path.\<close>

definition App :: "page_action rendering \<Rightarrow> bootstrap_action rendering \<Rightarrow> string \<Rightarrow> app_action rendering" where
  "App routes_page bootstrap path =
     element [Inr Sidebar, (case map_of app_routes path of None \<Rightarrow> Inr (Element []) | Some pg \<Rightarrow> app_element routes_page bootstrap pg)]"

subsection \<open>What the page offers\<close>

text \<open>
  The clicks a user can make, read off the state alone: what the components below are compared with.
\<close>

definition list_offers :: "page \<Rightarrow> routes_state \<Rightarrow> page_action list list" where
  "list_offers p st =
     [OnCreate] #
     (if isLoading st \<or> error st \<noteq> None \<and> error st \<noteq> Some [] \<or> isRemoving p then []
      else concat (map (\<lambda>(_, route). let i = str_of (get route ''id'') in
             [[OnToggle i], [OnEdit route], [MarkRemoving i, OnRemove i]]) (routes st)))"

definition tab_offers :: "host \<Rightarrow> page \<Rightarrow> page_action list list" where
  "tab_offers z p =
     (case activeTab (modal p) of
        Basic \<Rightarrow> []
      | Locations \<Rightarrow>
          [OnAddLocation] #
          (if isRemovingLocation p then []
           else concat (map (\<lambda>(i, loc). [[OnEditLocation (int i) loc], [MarkDeleting (int i), OnDeleteLocation (int i)]])
             (enumerate 0 (elems_of (get (form_values p) ''locations'')))))
      | Advanced \<Rightarrow> []
      | Preview \<Rightarrow> [[OnCopy (useRoutePreview z (form_values p))]])"

definition modal_offers :: "host \<Rightarrow> page \<Rightarrow> page_action list list" where
  "modal_offers z p =
     (if \<not> modalOpen (modal p) then []
      else [OnClose] # map (\<lambda>tab. [SetTab tab]) tabs @ tab_offers z p @ [[OnSaveForce, OnSubmit], [OnClose]] @
        (if isSaving p then [] else [[OnSubmit]]))"

definition location_offers :: "page \<Rightarrow> page_action list list" where
  "location_offers p =
     (let value = editing_value (modal p) in
      if \<not> truthy value \<or> isSavingLocation p then []
      else [[MarkButton ForceButton, OnSaveLocationForce value], [OnCancelLocation], [MarkButton NormalButton, OnSaveLocation value]])"

definition page_offers :: "host \<Rightarrow> page \<Rightarrow> routes_state \<Rightarrow> page_action list list" where
  "page_offers z p st = list_offers p st @ modal_offers z p @ location_offers p"

subsection \<open>The components offer exactly that\<close>

lemma route_row_offers:
  "renders (route_row removing active route) \<Longrightarrow> offers [] [] (route_row removing active route) =
     (if removing then [] else let i = str_of (get route ''id'') in [[OnToggle i], [OnEdit route], [MarkRemoving i, OnRemove i]])"
  by (auto simp: route_row_def Let_def offers_element split: if_splits)

lemma RouteList_offers:
  assumes "renders (RouteList (map snd rows) loading_now failure removing active)"
  shows "offers [] [] (RouteList (map snd rows) loading_now failure removing active) = [OnCreate] #
     (if loading_now \<or> failure \<noteq> None \<and> failure \<noteq> Some [] \<or> removing then []
      else concat (map (\<lambda>(_, route). let i = str_of (get route ''id'') in
             [[OnToggle i], [OnEdit route], [MarkRemoving i, OnRemove i]]) rows))"
proof (cases "loading_now \<or> failure \<noteq> None \<and> failure \<noteq> Some []")
  case True
  with assms show ?thesis
    by (cases failure; cases loading_now) (auto simp: RouteList_def offers_element ui_Button_def)
next
  case False
  with assms have "list_all (\<lambda>x. renders (route_row removing active (snd x))) rows"
    by (cases failure) (auto simp: RouteList_def list_all_iff)
  then have "map (\<lambda>x. offers [] [] (route_row removing active (snd x))) rows =
      map (\<lambda>(_, route). if removing then [] else let i = str_of (get route ''id'') in [[OnToggle i], [OnEdit route], [MarkRemoving i, OnRemove i]]) rows"
    by (auto simp: list_all_iff route_row_offers split: prod.split)
  with False assms show ?thesis
    by (cases failure) (auto simp: RouteList_def offers_element ui_Button_def comp_def cong: list.map_cong)
qed

lemma text_field_inert [simp]:
  "presses form outer (text_field fk values label path) = []" "presses form outer (checkbox values label path also_set) = []"
  by (simp_all add: text_field_def checkbox_def)

lemma port_field_offers [simp]: "offers form outer (port_field z fk values) = []"
  by (simp add: port_field_def offers_def split: sum.split)

lemma renders_port_field [simp]: "renders (port_field z fk values) \<longleftrightarrow> (\<exists>port. zod_parse z PortSchema (get values ''port'') = Inr port)"
  by (simp add: port_field_def split: sum.split)

lemma BasicTab_offers: "renders (BasicTab z fk values) \<Longrightarrow> offers form outer (BasicTab z fk values) = []"
  by (auto simp: BasicTab_def offers_element)

lemma AdvancedTab_offers: "offers form outer (AdvancedTab fk values) = []"
  by (auto simp: AdvancedTab_def offers_element)

lemma location_row_offers:
  "renders (location_row removing active e) \<Longrightarrow> offers form [] (location_row removing active e) =
     (if removing then [] else case e of (i, loc) \<Rightarrow> [[OnEditLocation (int i) loc], [MarkDeleting (int i), OnDeleteLocation (int i)]])"
  by (auto simp: location_row_def location_line_def offers_element split: prod.splits if_splits)

lemma concat_map_Nil: "concat (map (\<lambda>_. []) xs) = []"
  by simp

lemma LocationsTab_offers:
  assumes "renders (LocationsTab values removing active)"
  shows "offers form [] (LocationsTab values removing active) = [OnAddLocation] #
    (if removing then []
     else concat (map (\<lambda>(i, loc). [[OnEditLocation (int i) loc], [MarkDeleting (int i), OnDeleteLocation (int i)]])
       (enumerate 0 (elems_of (get values ''locations'')))))"
proof -
  from assms obtain ls where ls: "get values ''locations'' = JArr ls" by (auto simp: LocationsTab_def split: js.splits)
  with assms have r: "\<forall>e \<in> set (enumerate 0 ls). renders (location_row removing active e)"
    by (auto simp: LocationsTab_def list_all_iff)
  then have "map (\<lambda>e. offers form [] (location_row removing active e)) (enumerate 0 ls) =
      map (\<lambda>e. if removing then [] else case e of (i, loc) \<Rightarrow> [[OnEditLocation (int i) loc], [MarkDeleting (int i), OnDeleteLocation (int i)]]) (enumerate 0 ls)"
    by (intro map_cong refl location_row_offers) auto
  moreover have "offers form [] (LocationsTab values removing active) = [OnAddLocation] #
      concat (map (\<lambda>e. offers form [] (location_row removing active e)) (enumerate 0 ls))"
    using ls r by (simp add: LocationsTab_def offers_element ui_Button_def comp_def list_all_iff shown_if_def)
  ultimately show ?thesis using ls by (cases removing) (simp_all only: elems_of.simps if_True if_False concat_map_Nil)
qed

lemma PreviewTab_offers [simp]: "offers form [] (Inr (PreviewTab preview was_copied)) = [[OnCopy preview]]"
  by (simp add: PreviewTab_def ui_Button_def)

lemma tab_content_offers:
  assumes "renders (tab_content z fk l p)"
  shows "offers form [] (tab_content z fk l p) = tab_offers z p"
  using assms
  by (cases "activeTab (modal p)")
     (auto simp: tab_content_def AnimatedTab_def tab_offers_def offers_element BasicTab_offers AdvancedTab_offers LocationsTab_offers Let_def
       simp del: offers_Inr)

lemma RouteModal_offers:
  assumes "renders (RouteModal z fk l p)"
  shows "offers [] [] (RouteModal z fk l p) = modal_offers z p"
proof (cases "modalOpen (modal p)")
  case True
  with assms obtain content where c: "tab_content z fk l p = Inr content"
    by (cases "tab_content z fk l p") (auto simp: RouteModal_def)
  then have "map snd (presses [OnSubmit] [] content) = tab_offers z p"
    using tab_content_offers [of z fk l p "[OnSubmit]"] by simp
  with True c show ?thesis
    by (simp add: RouteModal_def modal_offers_def modal_footer_def ui_Button_def Let_def tabs_def)
next
  case False
  then show ?thesis by (simp add: RouteModal_def modal_offers_def)
qed

lemma LocationModal_offers: "offers [] [] (LocationModal l p) = location_offers p"
  by (simp add: LocationModal_def location_buttons_def location_offers_def location_input_def ui_Button_def Let_def)

lemma RoutesPage_offers:
  assumes "renders (RoutesPage z fk l p st)"
  shows "offers [] [] (RoutesPage z fk l p st) = page_offers z p st"
proof -
  have r: "list_all renders [RouteList (map snd (routes st)) (isLoading st) (error st) (isRemoving p) (activeRemoveId l),
      RouteModal z fk l p, LocationModal l p]"
    using assms by (simp add: RoutesPage_def useRoutesList_def)
  then show ?thesis
    using RouteList_offers [of "routes st" "isLoading st" "error st" "isRemoving p" "activeRemoveId l"]
    by (simp add: RoutesPage_def useRoutesList_def offers_element RouteModal_offers LocationModal_offers page_offers_def list_offers_def)
qed

subsection \<open>When the page renders\<close>

text \<open>A location and a route whose texts can be shown.\<close>

definition location_shown :: "js \<Rightarrow> bool" where
  "location_shown loc \<longleftrightarrow> \<not> missing loc \<and> list_all (\<lambda>k. renderable (get loc k)) [''path'', ''proxy_pass'', ''try_files'', ''index'']"

definition route_shown :: "js \<Rightarrow> bool" where
  "route_shown route \<longleftrightarrow> \<not> missing route \<and> renderable (get route ''domain'') \<and> renderable (get route ''port'')"

lemma renders_location_row: "renders (location_row removing active (i, loc)) \<longleftrightarrow> location_shown loc"
  by (auto simp: location_row_def location_line_def location_shown_def falsy_renderable)

lemma renders_route_row: "renders (route_row removing active route) \<longleftrightarrow> route_shown route"
  by (auto simp: route_row_def route_shown_def Let_def)

lemma renders_LocationsTab:
  "renders (LocationsTab values removing active) \<longleftrightarrow>
     (case get values ''locations'' of JArr ls \<Rightarrow> list_all location_shown ls | _ \<Rightarrow> False)"
proof -
  have "(\<forall>e \<in> set (enumerate 0 ls). renders (location_row removing active e)) \<longleftrightarrow> list_all location_shown ls" for ls
  proof -
    have "list_all (\<lambda>e. location_shown (snd e)) (enumerate n ls) \<longleftrightarrow> list_all location_shown ls" for n
      by (induction ls arbitrary: n) auto
    then show ?thesis
      using renders_location_row by (simp add: list_all_iff) (metis prod.collapse)
  qed
  then show ?thesis by (auto simp: LocationsTab_def list_all_iff shown_if_def split: js.split)
qed

definition page_shown :: "host \<Rightarrow> page \<Rightarrow> routes_state \<Rightarrow> bool" where
  "page_shown z p st \<longleftrightarrow>
     (\<not> isLoading st \<and> (error st = None \<or> error st = Some []) \<longrightarrow> list_all (\<lambda>(_, route). route_shown route) (routes st)) \<and>
     (modalOpen (modal p) \<and> activeTab (modal p) = Basic \<longrightarrow> validatePort z (get (form_values p) ''port'')) \<and>
     (modalOpen (modal p) \<and> activeTab (modal p) = Locations \<longrightarrow>
        (case get (form_values p) ''locations'' of JArr ls \<Rightarrow> list_all location_shown ls | _ \<Rightarrow> False))"

lemma renders_tab_content:
  "renders (tab_content z fk l p) \<longleftrightarrow>
     (activeTab (modal p) = Basic \<longrightarrow> validatePort z (get (form_values p) ''port'')) \<and>
     (activeTab (modal p) = Locations \<longrightarrow>
        (case get (form_values p) ''locations'' of JArr ls \<Rightarrow> list_all location_shown ls | _ \<Rightarrow> False))"
proof -
  have "(\<exists>port. zod_parse z PortSchema v = Inr port) \<longleftrightarrow> validatePort z v" for v
    by (auto simp: validatePort_def makeValidator_def zod_parse_def split: sum.splits)
  then show ?thesis
    by (cases "activeTab (modal p)")
      (simp_all add: tab_content_def AnimatedTab_def Let_def BasicTab_def AdvancedTab_def renders_LocationsTab)
qed

lemma renders_RoutesPage: "renders (RoutesPage z fk l p st) \<longleftrightarrow> page_shown z p st"
proof -
  have list: "renders (RouteList (map snd rows) loading_now failure removing active) \<longleftrightarrow>
      (\<not> loading_now \<and> (failure = None \<or> failure = Some []) \<longrightarrow> list_all (\<lambda>(_, route). route_shown route) rows)"
    for rows loading_now failure removing active
    by (cases failure; cases loading_now) (auto simp: RouteList_def shown_if_def renders_route_row list.pred_map comp_def case_prod_unfold)
  have form: "renders (RouteModal z fk l p) \<longleftrightarrow> (modalOpen (modal p) \<longrightarrow> renders (tab_content z fk l p))"
    by (simp add: RouteModal_def)
  have editor: "renders (LocationModal l p)" by (simp add: LocationModal_def Let_def)
  show ?thesis
    by (cases "modalOpen (modal p)")
      (simp_all add: RoutesPage_def useRoutesList_def page_shown_def renders_tab_content list form editor)
qed

text \<open>
  When the routes page renders at all. It does exactly when the rows of the list, if it is shown,
  have texts for domain and port, the port of the form is one the schema accepts while the first tab
  is open, and the locations are an array of objects with texts while the second is. In every other
  case rendering throws, which takes the whole page down.
\<close>

theorem page_renders_iff: "renders (RoutesPage z fk l p st) \<longleftrightarrow> page_shown z p st"
  by (rule renders_RoutesPage)

text \<open>
  C12: what the routes page lets a user do. The clicks it offers, with the handlers each of them runs,
  are exactly those read off the state. In particular the buttons of a row and of a location are gone
  while a removal runs, those of the location editor while it saves, and the tabs and the location
  editor are there only while they are open. The button that saves in any case runs two handlers,
  because it is a submit button of the form, and is offered also while a save is running.
\<close>

theorem page_offers_exactly:
  assumes "RoutesPage z fk l p st = Inr v"
  shows "map snd (presses [] [] v) = page_offers z p st"
  using RoutesPage_offers [of z fk l p st] assms by simp

theorem page_offers_exactly_witness:
  "\<exists>v. RoutesPage zod_reference \<lparr>fk_errors = \<lambda>_. JUndef, fk_ids = id\<rparr> initial_locals
       \<lparr>modal = initial_modal, ops = \<lparr>loading = False, op_error = None, success = None\<rparr>, form_values = JObj [], isSaving = False,
         isRemoving = False, isSavingLocation = False, isRemovingLocation = False, toasts = []\<rparr>
       (initial_routes\<lparr>routes := [(JStr ''a'', JObj [(''id'', JStr ''a''), (''domain'', JStr ''a.com'')])]\<rparr>) = Inr v \<and>
     map snd (presses [] [] v) =
       [[OnCreate], [OnToggle ''a''], [OnEdit (JObj [(''id'', JStr ''a''), (''domain'', JStr ''a.com'')])], [MarkRemoving ''a'', OnRemove ''a'']]"
  (is "\<exists>v. RoutesPage ?z ?fk ?l ?p ?st = Inr v \<and> _")
proof -
  have "renders (RoutesPage ?z ?fk ?l ?p ?st)"
    using renders_RoutesPage by (simp add: page_shown_def route_shown_def missing_def initial_modal_def)
  then obtain v where v: "RoutesPage ?z ?fk ?l ?p ?st = Inr v" by (cases "RoutesPage ?z ?fk ?l ?p ?st") auto
  from page_offers_exactly [OF v] v show ?thesis
    by (auto simp: page_offers_def list_offers_def modal_offers_def location_offers_def initial_modal_def initial_routes_def Let_def)
qed

subsection \<open>What the fields do\<close>

lemma text_field_fields [simp]:
  "text_fields (text_field fk values label path) = [(join ''.'' path, \<lambda>t. SetValue path (JStr t))]"
  "text_fields (checkbox values label path also_set) = []"
  "checks (text_field fk values label path) = []"
  "checks (checkbox values label path also_set) = [(label, \<lambda>checked. SetValue path (JBool checked) # also_set checked)]"
  by (simp_all add: text_field_def checkbox_def)

text \<open>Properties of all fields of a tree, composed the way components are.\<close>

definition all_fields :: "(string \<Rightarrow> (string \<Rightarrow> 'a) \<Rightarrow> bool) \<Rightarrow> 'a rendering \<Rightarrow> bool" where
  "all_fields P r = (case r of Inl _ \<Rightarrow> True | Inr v \<Rightarrow> list_all (\<lambda>(n, f). P n f) (text_fields v))"

definition all_checks :: "(string \<Rightarrow> (bool \<Rightarrow> 'a list) \<Rightarrow> bool) \<Rightarrow> 'a rendering \<Rightarrow> bool" where
  "all_checks P r = (case r of Inl _ \<Rightarrow> True | Inr v \<Rightarrow> list_all (\<lambda>(n, f). P n f) (checks v))"

lemma list_all_concat_map: "list_all P (concat (map f xs)) \<longleftrightarrow> list_all (\<lambda>x. list_all P (f x)) xs"
  by (auto simp: list_all_iff)

lemma all_fields_element:
  assumes "list_all (all_fields P) rs" shows "all_fields P (element rs)"
proof (cases "children rs")
  case (Inl e)
  then show ?thesis by (simp add: element_def all_fields_def)
next
  case (Inr vs)
  with children_InrD [OF Inr] assms show ?thesis
    by (simp add: element_def all_fields_def list_all_concat_map list.pred_map comp_def)
qed

lemma all_checks_element:
  assumes "list_all (all_checks P) rs" shows "all_checks P (element rs)"
proof (cases "children rs")
  case (Inl e)
  then show ?thesis by (simp add: element_def all_checks_def)
next
  case (Inr vs)
  with children_InrD [OF Inr] assms show ?thesis
    by (simp add: element_def all_checks_def list_all_concat_map list.pred_map comp_def)
qed

lemma all_fields_simps [simp]:
  "all_fields P (Inr v) \<longleftrightarrow> list_all (\<lambda>(n, f). P n f) (text_fields v)" "all_fields P (Inl e)" "all_fields P (js_child x)"
  "all_checks Q (Inr v) \<longleftrightarrow> list_all (\<lambda>(n, f). Q n f) (checks v)" "all_checks Q (Inl e)" "all_checks Q (js_child x)"
  by (simp_all add: all_fields_def all_checks_def js_child_def)

lemma all_fields_and_then [simp]:
  "all_fields P (and_then v r) \<longleftrightarrow> (truthy v \<longrightarrow> all_fields P r)" "all_checks Q (and_then v r) \<longleftrightarrow> (truthy v \<longrightarrow> all_checks Q r)"
  by (auto simp: and_then_def)

text \<open>The fields of the page write a value of the form or a field of the edited location.\<close>

fun edit_action :: "page \<Rightarrow> page_action \<Rightarrow> bool" where
  "edit_action p (SetValue _ _) = True"
| "edit_action p (OnChangeLocation _ _) = truthy (editing_value (modal p))"
| "edit_action p _ = False"

lemma row_edits:
  "all_fields P (route_row removing active route)" "all_checks Q (route_row removing active route)"
  "all_fields P (location_row removing active' e)" "all_checks Q (location_row removing active' e)"
  by (auto simp: route_row_def location_row_def location_line_def Let_def split: prod.split
      intro!: all_fields_element all_checks_element)

lemma RouteList_edits:
  "all_fields P (RouteList rows loading_now failure removing active)" "all_checks Q (RouteList rows loading_now failure removing active)"
  by (auto simp: RouteList_def shown_if_def ui_Button_def list_all_iff row_edits split: option.split
      intro!: all_fields_element all_checks_element)

lemma tab_edits:
  "all_fields (\<lambda>n f. \<forall>t. edit_action p (f t)) (tab_content z fk l p')"
  "all_checks (\<lambda>n f. \<forall>b. list_all is_set (f b)) (tab_content z fk l p')"
proof -
  have port: "all_fields (\<lambda>n f. \<forall>t. edit_action p (f t)) (port_field z fk v)" "all_checks Q (port_field z fk v)" for v Q
    by (auto simp: port_field_def split: sum.split)
  have basic: "all_fields (\<lambda>n f. \<forall>t. edit_action p (f t)) (BasicTab z fk v)"
    "all_checks (\<lambda>n f. \<forall>b. list_all is_set (f b)) (BasicTab z fk v)" for v
    by (auto simp: BasicTab_def port intro!: all_fields_element all_checks_element)
  have advanced: "all_fields (\<lambda>n f. \<forall>t. edit_action p (f t)) (AdvancedTab fk v)"
    "all_checks (\<lambda>n f. \<forall>b. list_all is_set (f b)) (AdvancedTab fk v)" for v
    by (auto simp: AdvancedTab_def cleared_unless_def intro!: all_fields_element all_checks_element)
  have locations: "all_fields P (LocationsTab v removing active)" "all_checks Q (LocationsTab v removing active)"
    for P Q v removing active
    by (auto simp: LocationsTab_def ui_Button_def list_all_iff shown_if_def row_edits split: js.split
        intro!: all_fields_element all_checks_element)
  show "all_fields (\<lambda>n f. \<forall>t. edit_action p (f t)) (tab_content z fk l p')"
    "all_checks (\<lambda>n f. \<forall>b. list_all is_set (f b)) (tab_content z fk l p')"
    by (auto simp: tab_content_def AnimatedTab_def Let_def shown_if_def basic advanced locations PreviewTab_def ui_Button_def
        intro!: all_fields_element all_checks_element)
qed

lemma page_edits:
  "all_fields (\<lambda>n f. \<forall>t. edit_action p (f t)) (RoutesPage z fk l p st)"
  "all_checks (\<lambda>n f. \<forall>b. list_all is_set (f b)) (RoutesPage z fk l p st)"
proof -
  have modal: "all_fields (\<lambda>n f. \<forall>t. edit_action p (f t)) (RouteModal z fk l p)"
    "all_checks (\<lambda>n f. \<forall>b. list_all is_set (f b)) (RouteModal z fk l p)"
    using tab_edits(1) [of p z fk l p] tab_edits(2) [of z fk l p]
    by (cases "tab_content z fk l p"; simp add: RouteModal_def modal_footer_def ui_Button_def tabs_def Let_def)+
  have location: "all_fields (\<lambda>n f. \<forall>t. edit_action p (f t)) (LocationModal l p)"
    "all_checks (\<lambda>n f. \<forall>b. list_all is_set (f b)) (LocationModal l p)"
    by (simp_all add: LocationModal_def location_buttons_def location_input_def ui_Button_def Let_def)
  show "all_fields (\<lambda>n f. \<forall>t. edit_action p (f t)) (RoutesPage z fk l p st)"
    "all_checks (\<lambda>n f. \<forall>b. list_all is_set (f b)) (RoutesPage z fk l p st)"
    by (auto simp: RoutesPage_def useRoutesList_def RouteList_edits modal location intro!: all_fields_element all_checks_element)
qed

text \<open>The Enter key in the form is the click on its first submit button, the one that saves in any case.\<close>

definition submits :: "'a rendering \<Rightarrow> 'a view list" where
  "submits r = (case r of Inl _ \<Rightarrow> [] | Inr v \<Rightarrow> submit_buttons v)"

lemma submits_element: "list_all (\<lambda>r. submits r = []) rs \<Longrightarrow> submits (element rs) = []"
proof (cases "children rs")
  case (Inr vs)
  assume "list_all (\<lambda>r. submits r = []) rs"
  with Inr children_InrD [OF Inr] show ?thesis
    by (simp add: submits_def element_def list_all_iff)
qed (simp add: submits_def element_def)

lemma submits_simps [simp]:
  "submits (Inr v) = submit_buttons v" "submits (Inl e) = []" "submits (js_child x) = []"
  "submits (and_then x r) = (if truthy x then submits r else [])"
  "submit_buttons (text_field fk vs label path) = []" "submit_buttons (checkbox vs label path also_set) = []"
  "submits (port_field z fk vs) = []"
  by (simp_all add: submits_def js_child_def and_then_def text_field_def checkbox_def port_field_def split: sum.split)

lemma tab_content_submits: "submits (tab_content z fk l p) = []"
proof -
  have "submits (location_row removing active e) = []" for removing active e
    by (auto simp: location_row_def location_line_def split: prod.split intro!: submits_element)
  then have "submits (LocationsTab vs removing active) = []" for vs removing active
    by (auto simp: LocationsTab_def ui_Button_def shown_if_def list_all_iff split: js.split intro!: submits_element)
  then show ?thesis
    by (auto simp: tab_content_def AnimatedTab_def BasicTab_def AdvancedTab_def PreviewTab_def ui_Button_def shown_if_def Let_def intro!: submits_element)
qed

lemma enter_key_form:
  assumes "RouteModal z fk l p = Inr v" and "modalOpen (modal p)"
  shows "enter_key v = [[OnSaveForce, OnSubmit]]"
proof -
  from assms obtain content where c: "tab_content z fk l p = Inr content"
    by (cases "tab_content z fk l p") (auto simp: RouteModal_def)
  with tab_content_submits [of z fk l p] have "submit_buttons content = []" by simp
  with assms c show ?thesis by (auto simp: RouteModal_def modal_footer_def ui_Button_def Let_def)
qed

subsection \<open>The other pages\<close>

text \<open>Every link of the sidebar leads to a page of its own, and every page has one.\<close>

lemma sidebar_links_resolve: "map fst sidebar_links = map fst app_routes" "distinct (map fst app_routes)"
  by code_simp+

text \<open>While a check or an installation runs, the bootstrap page offers no second one.\<close>

lemma BootstrapPage_offers:
  assumes "renders (BootstrapPage b)"
  shows "offers [] [] (BootstrapPage b) = (if isChecking b then [] else [[OnCheckHost]]) @ (if isInstalling b then [] else [[OnInstall]])"
proof -
  have inert: "offers form outer (titled title r) = []" if "offers form outer r = []" "renders r" for form outer title r
    using that by (simp add: titled_def offers_element)
  have child: "offers form outer (child_of x k) = []" for form outer x k by (simp add: child_of_def offers_def js_child_def)
  have result: "offers form outer (install_result x) = []" if "renders (install_result x)" for form outer x
    using that by (auto simp: install_result_def Let_def offers_element inert child titled_def split: if_splits)
  from assms have r: "renders (connection_section b)" "renders (install_section b)" by (simp_all add: BootstrapPage_def)
  have "offers [] [] (connection_section b) = (if isChecking b then [] else [[OnCheckHost]])"
    using r(1) by (auto simp: connection_section_def Let_def offers_element inert child titled_def)
  moreover have "offers [] [] (install_section b) = (if isInstalling b then [] else [[OnInstall]])"
    using r(2) by (auto simp: install_section_def offers_element install_input_def result)
  ultimately show ?thesis using r by (simp add: BootstrapPage_def offers_element)
qed

end
