(* ===== verification/Page_Session.thy ===== *)
theory Page_Session
  imports Route_Views
begin

text \<open>
  A session of the routes page as a step relation. A user clicks, types and presses Enter in what
  \<open>Route_Views\<close> renders; the handlers of \<open>useRoutesPage.ts\<close> that wait before they act stay in flight
  and finish in any order, while the user goes on; timers reset the local state of components. A
  handler keeps what its render closed over. The wait is the only place where a handler can be
  overtaken: the calls of the repository that follow it are one step. The clipboard accepts what it
  is given at once.
\<close>

subsection \<open>State\<close>

text \<open>A save holds the values the form library submitted, or \<open>None\<close> when it reads them after its wait.\<close>

datatype task =
    is_save: SaveTask render "js option"
  | is_remove: RemoveTask render string
  | is_toggle: ToggleTask render string
  | is_delete_location: DeleteLocationTask int
  | is_save_location: SaveLocationTask bool render js

datatype timer = ClearRemove | ClearDelete | ClearButton | ClearCopied

record 's session =
  world :: "'s page_world"
  local :: locals
  flight :: "task list"
  timers :: "timer list"
  crashed :: bool

text \<open>What the environment decides at a step: the form library, clocks and random values.\<close>

record moment =
  m_kit :: form_kit
  m_uuid :: string
  m_now :: int
  m_stamp :: int
  m_random :: string
  m_created :: int
  m_updated :: int

definition page_of :: "'s session \<Rightarrow> page" where
  "page_of s = fst (world s)"

definition store_of :: "'s session \<Rightarrow> routes_state" where
  "store_of s = fst (snd (world s))"

definition upd :: "(page \<Rightarrow> page) \<Rightarrow> 's session \<Rightarrow> 's session" where
  "upd f s = s\<lparr>world := on_page f (world s)\<rparr>"

definition launch :: "task \<Rightarrow> 's session \<Rightarrow> 's session" where
  "launch t s = s\<lparr>flight := flight s @ [t]\<rparr>"

definition closure :: "moment \<Rightarrow> 's session \<Rightarrow> render" where
  "closure m s =
     \<lparr>r_mode = mode (modal (page_of s)), r_editing = editing_index (modal (page_of s)), r_routes = routes (store_of s),
      r_stamp = m_stamp m, r_random = m_random m, r_created = m_created m, r_updated = m_updated m\<rparr>"

subsection \<open>Handlers\<close>

definition begin_save :: "moment \<Rightarrow> js option \<Rightarrow> 's session \<Rightarrow> 's session" where
  "begin_save m v s = launch (SaveTask (closure m s) v) (upd (\<lambda>p. p\<lparr>isSaving := True\<rparr>) s)"

definition begin_save_location :: "moment \<Rightarrow> bool \<Rightarrow> js \<Rightarrow> 's session \<Rightarrow> 's session" where
  "begin_save_location m force v s =
     launch (SaveLocationTask force (closure m s) v) (upd (\<lambda>p. p\<lparr>isSavingLocation := True\<rparr>) s)"

text \<open>What an action does at once; \<open>resolve\<close> are the values the form library submits, if it finds no error.\<close>

fun start :: "host \<Rightarrow> (js \<Rightarrow> js option) \<Rightarrow> moment \<Rightarrow> page_action \<Rightarrow> 's session \<Rightarrow> 's session" where
  "start z resolve m OnCreate s = upd (page_openForCreate (m_uuid m) (m_now m)) s"
| "start z resolve m (OnEdit route) s = upd (page_openForEdit route) s"
| "start z resolve m (OnToggle i) s = launch (ToggleTask (closure m s) i) s"
| "start z resolve m (MarkRemoving i) s = s\<lparr>local := (local s)\<lparr>activeRemoveId := Some i\<rparr>\<rparr>"
| "start z resolve m (OnRemove i) s = launch (RemoveTask (closure m s) i) (upd (\<lambda>p. p\<lparr>isRemoving := True\<rparr>) s)"
| "start z resolve m (SetTab tab) s = upd (\<lambda>p. p\<lparr>modal := setActiveTab tab (modal p)\<rparr>) s"
| "start z resolve m OnSubmit s =
     (case resolve (form_values (page_of s)) of None \<Rightarrow> s | Some v \<Rightarrow> begin_save m (Some v) s)"
| "start z resolve m OnSaveForce s = begin_save m None s"
| "start z resolve m OnClose s = upd page_closeModal s"
| "start z resolve m (SetValue path v) s = upd (\<lambda>p. p\<lparr>form_values := form_set path v (form_values p)\<rparr>) s"
| "start z resolve m OnAddLocation s = upd onAddLocation s"
| "start z resolve m (OnEditLocation i loc) s =
     (case zod_parse z LocationConfigSchema loc of Inl _ \<Rightarrow> s | Inr v \<Rightarrow> upd (onEditLocation (Some i) v) s)"
| "start z resolve m (MarkDeleting i) s = s\<lparr>local := (local s)\<lparr>activeDeleteIndex := Some i\<rparr>\<rparr>"
| "start z resolve m (OnDeleteLocation i) s = launch (DeleteLocationTask i) (upd (\<lambda>p. p\<lparr>isRemovingLocation := True\<rparr>) s)"
| "start z resolve m (OnCopy t) s =
     upd (show_toast (ToastSuccess ''Konfiguraciya skopirovana'')) (s\<lparr>local := (local s)\<lparr>copied := True\<rparr>, timers := timers s @ [ClearCopied]\<rparr>)"
| "start z resolve m (OnChangeLocation field t) s = upd (change_location_field field t) s"
| "start z resolve m OnCancelLocation s = upd (\<lambda>p. p\<lparr>modal := startEditLocation None JNull (modal p)\<rparr>) s"
| "start z resolve m (MarkButton b) s = s\<lparr>local := (local s)\<lparr>activeButton := Some b\<rparr>\<rparr>"
| "start z resolve m (OnSaveLocation v) s = begin_save_location m False v s"
| "start z resolve m (OnSaveLocationForce v) s = begin_save_location m True v s"

text \<open>What is left of a handler after its wait.\<close>

fun finish :: "host \<Rightarrow> 's route_repository \<Rightarrow> task \<Rightarrow> 's page_world \<Rightarrow> 's page_world" where
  "finish z repository (SaveTask r v) w =
     finish_save z repository r (case v of None \<Rightarrow> form_values (fst w) | Some v' \<Rightarrow> v') w"
| "finish z repository (RemoveTask r i) w = finish_remove repository r i w"
| "finish z repository (ToggleTask r i) w = onToggle z repository r i w"
| "finish z repository (DeleteLocationTask i) w = on_page (finish_delete_location i) w"
| "finish z repository (SaveLocationTask force r v) w =
     on_page (finish_save_location (if force then ''Invalid location configuration'' else ''Nekorrektnaya konfiguraciya lokacii'') z r v) w"

fun fire :: "timer \<Rightarrow> locals \<Rightarrow> locals" where
  "fire ClearRemove l = l\<lparr>activeRemoveId := None\<rparr>"
| "fire ClearDelete l = l\<lparr>activeDeleteIndex := None\<rparr>"
| "fire ClearButton l = l\<lparr>activeButton := None\<rparr>"
| "fire ClearCopied l = l\<lparr>copied := False\<rparr>"

subsection \<open>Rendering\<close>

definition page_view :: "host \<Rightarrow> moment \<Rightarrow> 's session \<Rightarrow> page_action rendering" where
  "page_view z m s = RoutesPage z (m_kit m) (local s) (page_of s) (store_of s)"

text \<open>The tabs keep their local state only while they are shown; their timers go with them.\<close>

definition tab_open :: "active_tab \<Rightarrow> page \<Rightarrow> bool" where
  "tab_open tab p \<longleftrightarrow> modalOpen (modal p) \<and> activeTab (modal p) = tab"

definition mounted :: "page \<Rightarrow> locals \<Rightarrow> locals" where
  "mounted p l = l\<lparr>activeDeleteIndex := if tab_open Locations p then activeDeleteIndex l else None,
     copied := tab_open Preview p \<and> copied l\<rparr>"

definition kept_timer :: "page \<Rightarrow> timer \<Rightarrow> bool" where
  "kept_timer p t = (case t of ClearDelete \<Rightarrow> tab_open Locations p | ClearCopied \<Rightarrow> tab_open Preview p | _ \<Rightarrow> True)"

text \<open>The timers a render sets.\<close>

definition due :: "page \<Rightarrow> locals \<Rightarrow> timer list" where
  "due p l =
     (if \<not> isRemoving p \<and> activeRemoveId l \<noteq> None then [ClearRemove] else []) @
     (if tab_open Locations p \<and> \<not> isRemovingLocation p \<and> activeDeleteIndex l \<noteq> None then [ClearDelete] else []) @
     (if \<not> isSavingLocation p \<and> activeButton l \<noteq> None then [ClearButton] else [])"

definition rerender :: "host \<Rightarrow> moment \<Rightarrow> 's session \<Rightarrow> 's session" where
  "rerender z m s =
     (let l = mounted (page_of s) (local s); s1 = s\<lparr>local := l, timers := filter (kept_timer (page_of s)) (timers s)\<rparr> in
      if renders (page_view z m s1) then s1\<lparr>timers := timers s1 @ due (page_of s) l\<rparr>
      else s1\<lparr>crashed := True\<rparr>)"

subsection \<open>Steps\<close>

datatype session_event = Clicked "page_action list" | Entered | Typed string string | Checked string bool | Finished task | Fired timer

inductive session_step ::
  "host \<Rightarrow> 's route_repository \<Rightarrow> (js \<Rightarrow> js option) \<Rightarrow> 's session \<Rightarrow> session_event \<Rightarrow> 's session \<Rightarrow> bool"
  for z repository resolve where
  click: "\<not> crashed s \<Longrightarrow> page_view z m s = Inr v \<Longrightarrow> acts \<in> set (map snd (presses [] [] v)) \<Longrightarrow>
    session_step z repository resolve s (Clicked acts) (rerender z m (fold (start z resolve m) acts s))"
| enter: "\<not> crashed s \<Longrightarrow> RouteModal z (m_kit m) (local s) (page_of s) = Inr v \<Longrightarrow>
    text_fields v \<noteq> [] \<Longrightarrow> acts \<in> set (enter_key v) \<Longrightarrow>
    session_step z repository resolve s Entered (rerender z m (fold (start z resolve m) acts s))"
| type: "\<not> crashed s \<Longrightarrow> page_view z m s = Inr v \<Longrightarrow> (name, change) \<in> set (text_fields v) \<Longrightarrow>
    session_step z repository resolve s (Typed name t) (rerender z m (start z resolve m (change t) s))"
| check: "\<not> crashed s \<Longrightarrow> page_view z m s = Inr v \<Longrightarrow> (name, change) \<in> set (checks v) \<Longrightarrow>
    session_step z repository resolve s (Checked name b) (rerender z m (fold (start z resolve m) (change b) s))"
| finished: "flight s = ts @ t # us \<Longrightarrow>
    session_step z repository resolve s (Finished t)
      (rerender z m (s\<lparr>world := finish z repository t (world s), flight := ts @ us\<rparr>))"
| fired: "timers s = ts @ t # us \<Longrightarrow>
    session_step z repository resolve s (Fired t) (rerender z m (s\<lparr>local := fire t (local s), timers := ts @ us\<rparr>))"

definition opened :: "'s page_world \<Rightarrow> bool" where
  "opened w = (case w of (p, _) \<Rightarrow> modal p = initial_modal \<and> \<not> isSaving p \<and> \<not> isRemoving p \<and> \<not> isSavingLocation p \<and> \<not> isRemovingLocation p)"

inductive session_reachable :: "host \<Rightarrow> 's route_repository \<Rightarrow> (js \<Rightarrow> js option) \<Rightarrow> 's session \<Rightarrow> bool"
  for z repository resolve where
  first: "opened w \<Longrightarrow>
    session_reachable z repository resolve (rerender z m \<lparr>world = w, local = initial_locals, flight = [], timers = [], crashed = False\<rparr>)"
| step: "session_reachable z repository resolve s \<Longrightarrow> session_step z repository resolve s e s' \<Longrightarrow>
    session_reachable z repository resolve s'"

lemma rerender_simps [simp]:
  "world (rerender z m s) = world s" "flight (rerender z m s) = flight s" "page_of (rerender z m s) = page_of s"
  "store_of (rerender z m s) = store_of s"
  by (simp_all add: rerender_def Let_def page_of_def store_of_def)

lemma session_simps [simp]:
  "flight (upd f s) = flight s" "page_of (upd f s) = f (page_of s)" "store_of (upd f s) = store_of s"
  "flight (launch t s) = flight s @ [t]" "page_of (launch t s) = page_of s" "store_of (launch t s) = store_of s"
  "page_of (s\<lparr>local := l\<rparr>) = page_of s" "page_of (s\<lparr>timers := ts\<rparr>) = page_of s"
  by (simp_all add: upd_def launch_def page_of_def store_of_def on_page_def split: prod.split)

text \<open>A handler that nothing overtakes does what the whole handler does.\<close>

lemma handlers_uninterrupted:
  "finish z repository (SaveTask r (Some v)) (on_page (\<lambda>p. p\<lparr>isSaving := True\<rparr>) w) = save_route z repository r v w"
  "finish z repository (SaveTask r None) (on_page (\<lambda>p. p\<lparr>isSaving := True\<rparr>) w) = saveRouteForce z repository r w"
  "finish z repository (RemoveTask r i) (on_page (\<lambda>p. p\<lparr>isRemoving := True\<rparr>) w) = onRemove repository r i w"
  "finish z repository (DeleteLocationTask j) (on_page (\<lambda>p. p\<lparr>isRemovingLocation := True\<rparr>) w) = on_page (onDeleteLocation j) w"
  "finish z repository (SaveLocationTask force r v) (on_page (\<lambda>p. p\<lparr>isSavingLocation := True\<rparr>) w) =
     on_page (if force then onSaveLocationForce z r v else onSaveLocation z r v) w"
  by (cases w; simp add: save_route_def saveRouteForce_def onRemove_def onDeleteLocation_def onSaveLocationForce_def
      onSaveLocation_def save_location_def on_page_def)+

subsection \<open>At most one of each\<close>

definition in_flight :: "(task \<Rightarrow> bool) \<Rightarrow> 's session \<Rightarrow> nat" where
  "in_flight Q s = length (filter Q (flight s))"

text \<open>
  The flags count what is in flight, except the one of the form, which can be off while a save is
  still running; and the editor of a location is open only inside the form.
\<close>

definition session_ok :: "'s session \<Rightarrow> bool" where
  "session_ok s \<longleftrightarrow>
     in_flight is_remove s = of_bool (isRemoving (page_of s)) \<and>
     in_flight is_delete_location s = of_bool (isRemovingLocation (page_of s)) \<and>
     in_flight is_save_location s = of_bool (isSavingLocation (page_of s)) \<and>
     (isSaving (page_of s) \<longrightarrow> 0 < in_flight is_save s) \<and>
     (truthy (editing_value (modal (page_of s))) \<longrightarrow> modalOpen (modal (page_of s)))"

lemma session_ok_rerender [simp]: "session_ok (rerender z m s) = session_ok s"
  by (simp add: session_ok_def in_flight_def)

lemma in_flight_simps [simp]:
  "in_flight Q (upd f s) = in_flight Q s" "in_flight Q (launch t s) = in_flight Q s + of_bool (Q t)"
  "in_flight Q (s\<lparr>local := l\<rparr>) = in_flight Q s" "in_flight Q (s\<lparr>timers := ts\<rparr>) = in_flight Q s"
  by (simp_all add: in_flight_def)

lemma sanitize_null [simp]: "sanitizeForJson JNull = JNull"
  by simp

lemmas page_edit_defs = page_openForCreate_def page_openForEdit_def page_closeModal_def onAddLocation_def onEditLocation_def
  change_location_field_def show_toast_def openForCreate_def openForEdit_def closeModal_def setActiveTab_def startEditLocation_def Let_def

lemma edit_keeps:
  assumes "session_ok s" and "edit_action (page_of s) a"
  shows "session_ok (start z resolve m a s)"
  using assms by (cases a) (auto simp: session_ok_def page_edit_defs)

lemma edits_keep: "session_ok s \<Longrightarrow> list_all is_set acts \<Longrightarrow> session_ok (fold (start z resolve m) acts s)"
proof (induction acts arbitrary: s)
  case (Cons a acts)
  then have "edit_action (page_of s) a" by (cases a) auto
  with Cons show ?case by (simp add: edit_keeps)
qed simp

text \<open>The clicks: what is offered cannot start a second removal, deletion or save of a location.\<close>

lemma click_keeps:
  assumes "session_ok s" and "acts \<in> set (page_offers z (page_of s) (store_of s))"
  shows "session_ok (fold (start z resolve m) acts s)"
proof -
  from assms(2) consider "acts \<in> set (list_offers (page_of s) (store_of s))"
    | "acts \<in> set (modal_offers z (page_of s))" | "acts \<in> set (location_offers (page_of s))"
    by (auto simp: page_offers_def)
  then show ?thesis
  proof cases
    case 1
    then consider "acts = [OnCreate]" | i where "acts = [OnToggle i]" | route where "acts = [OnEdit route]"
      | i where "\<not> isRemoving (page_of s)" "acts = [MarkRemoving i, OnRemove i]"
      by (auto simp: list_offers_def Let_def split: if_splits)
    then show ?thesis using assms(1)
      by cases (simp_all add: session_ok_def page_edit_defs)
  next
    case 2
    then consider "acts = [OnClose]" | tab where "acts = [SetTab tab]" | "acts = [OnSaveForce, OnSubmit]" | "acts = [OnSubmit]"
      | "modalOpen (modal (page_of s))" "acts \<in> set (tab_offers z (page_of s))"
      by (auto simp: modal_offers_def split: if_splits)
    then show ?thesis
    proof cases
      case 5
      then show ?thesis using assms(1)
        by (cases "activeTab (modal (page_of s))")
          (auto simp: tab_offers_def session_ok_def page_edit_defs split: if_splits sum.split)
    qed (use assms(1) in \<open>auto simp: session_ok_def page_edit_defs begin_save_def split: option.split\<close>)
  next
    case 3
    then show ?thesis using assms(1)
      by (auto simp: location_offers_def session_ok_def page_edit_defs begin_save_location_def split: if_splits)
  qed
qed

subsection \<open>Finishing\<close>

text \<open>What a task leaves alone: its own flag goes off, the others stay, and the form at most closes.\<close>

definition task_settles :: "(page \<Rightarrow> page) \<Rightarrow> page \<Rightarrow> page \<Rightarrow> bool" where
  "task_settles off p p' \<longleftrightarrow>
     isSaving p' = isSaving (off p) \<and> isRemoving p' = isRemoving (off p) \<and>
     isSavingLocation p' = isSavingLocation (off p) \<and> isRemovingLocation p' = isRemovingLocation (off p) \<and>
     (modal p' = modal p \<or> modal p' = closeModal (modal p) \<or> modal p' = startEditLocation None JNull (modal p))"

lemma run_operation_page: "fst (run_operation operation w) = (fst w)\<lparr>ops := fst (snd (operation (ops (fst w), snd w)))\<rparr>"
  by (simp add: run_operation_def split: prod.split)

lemma fst_on_page [simp]: "fst (on_page f w) = f (fst w)"
  by (simp add: on_page_def split: prod.split)

fun flag_off :: "task \<Rightarrow> page \<Rightarrow> page" where
  "flag_off (SaveTask _ _) p = p\<lparr>isSaving := False\<rparr>"
| "flag_off (RemoveTask _ _) p = p\<lparr>isRemoving := False\<rparr>"
| "flag_off (ToggleTask _ _) p = p"
| "flag_off (DeleteLocationTask _) p = p\<lparr>isRemovingLocation := False\<rparr>"
| "flag_off (SaveLocationTask _ _ _) p = p\<lparr>isSavingLocation := False\<rparr>"

lemma finish_settles: "task_settles (flag_off t) (fst w) (fst (finish z repository t w))"
proof (cases t)
  case (SaveTask r v)
  then show ?thesis
    by (auto simp: task_settles_def finish_save_def run_operation_page page_closeModal_def show_toast_def Let_def split: sum.split)
next
  case (DeleteLocationTask i)
  then show ?thesis
    by (auto simp: task_settles_def finish_delete_location_def show_toast_def Let_def split: js.split)
next
  case (SaveLocationTask force r v)
  then show ?thesis
    by (auto simp: task_settles_def finish_save_location_def show_toast_def Let_def split: js.split)
qed (auto simp: task_settles_def finish_remove_def onToggle_def run_operation_page show_toast_def)

lemma finish_keeps:
  assumes ok: "session_ok s" and "flight s = ts @ t # us"
  shows "session_ok (s\<lparr>world := finish z repository t (world s), flight := ts @ us\<rparr>)"
proof -
  let ?s = "s\<lparr>world := finish z repository t (world s), flight := ts @ us\<rparr>"
  have count: "in_flight Q ?s + of_bool (Q t) = in_flight Q s" for Q
    using assms(2) by (simp add: in_flight_def)
  have "task_settles (flag_off t) (page_of s) (page_of ?s)"
    using finish_settles [of t "world s" z repository] by (simp add: page_of_def)
  then have flags: "isSaving (page_of ?s) = isSaving (flag_off t (page_of s))" "isRemoving (page_of ?s) = isRemoving (flag_off t (page_of s))"
      "isSavingLocation (page_of ?s) = isSavingLocation (flag_off t (page_of s))"
      "isRemovingLocation (page_of ?s) = isRemovingLocation (flag_off t (page_of s))"
    and "truthy (editing_value (modal (page_of ?s))) \<longrightarrow> modalOpen (modal (page_of ?s))"
    using ok by (auto simp: task_settles_def session_ok_def closeModal_def startEditLocation_def)
  with ok count [of is_remove] count [of is_delete_location] count [of is_save_location] count [of is_save]
  show ?thesis
    unfolding session_ok_def flags by (cases t) (simp_all add: of_bool_def split: if_splits)
qed

lemma set_of_offers: "map snd ps = offered \<Longrightarrow> snd ` set ps = set offered"
  by (metis list.set_map)

lemma session_reachable_ok: "session_reachable z repository resolve s \<Longrightarrow> session_ok s"
proof (induction rule: session_reachable.induct)
  case (first w m)
  then show ?case
    by (auto simp: session_ok_def in_flight_def page_of_def opened_def initial_modal_def split: prod.splits)
next
  case (step s e s')
  from step.hyps(2) show ?case
  proof cases
    case (click m v acts)
    then have "acts \<in> set (page_offers z (page_of s) (store_of s))"
      using RoutesPage_offers [of z "m_kit m" "local s" "page_of s" "store_of s"]
      by (auto simp: page_view_def dest!: set_of_offers)
    with click step.IH show ?thesis by (simp add: click_keeps)
  next
    case (enter m v acts)
    have "modalOpen (modal (page_of s))" using enter by (auto simp: RouteModal_def split: if_splits)
    with enter have "acts \<in> set (page_offers z (page_of s) (store_of s))"
      using enter_key_form [of z "m_kit m" "local s" "page_of s" v] by (simp add: page_offers_def modal_offers_def)
    with enter step.IH show ?thesis by (simp add: click_keeps)
  next
    case (type m v name change t)
    then have "edit_action (page_of s) (change t)"
      using page_edits(1) [of "page_of s" z "m_kit m" "local s" "store_of s"] by (auto simp: page_view_def list_all_iff)
    with type step.IH show ?thesis by (simp add: edit_keeps)
  next
    case (check m v name change b)
    then have "list_all is_set (change b)"
      using page_edits(2) [of z "m_kit m" "local s" "page_of s" "store_of s"] by (auto simp: page_view_def list_all_iff)
    with check step.IH show ?thesis by (simp add: edits_keep)
  next
    case (fired ts t us m)
    with step.IH show ?thesis by (simp add: session_ok_def in_flight_def page_of_def)
  qed (use step.IH in \<open>simp add: finish_keeps\<close>)
qed

subsection \<open>Runs\<close>

lemma crashed_rerender [simp]: "crashed (rerender z m s) \<longleftrightarrow> crashed s \<or> \<not> page_shown z (page_of s) (store_of s)"
proof -
  have "renders (page_view z m (s\<lparr>local := l, timers := ts\<rparr>)) \<longleftrightarrow> page_shown z (page_of s) (store_of s)" for l ts
    using renders_RoutesPage by (simp add: page_view_def page_of_def store_of_def)
  then show ?thesis by (simp add: rerender_def Let_def)
qed

lemma crashed_simps [simp]: "crashed (upd f s) = crashed s" "crashed (launch t s) = crashed s"
  by (simp_all add: upd_def launch_def)

lemma shown_view:
  assumes "page_shown z (page_of s) (store_of s)"
  obtains v where "page_view z m s = Inr v" "map snd (presses [] [] v) = page_offers z (page_of s) (store_of s)"
  using assms renders_RoutesPage [of z "m_kit m" "local s" "page_of s" "store_of s"]
    RoutesPage_offers [of z "m_kit m" "local s" "page_of s" "store_of s"]
  by (cases "page_view z m s") (auto simp: page_view_def)

lemma click_step:
  assumes "\<not> crashed s" and "page_shown z (page_of s) (store_of s)" and "acts \<in> set (page_offers z (page_of s) (store_of s))"
  shows "session_step z repository resolve s (Clicked acts) (rerender z m (fold (start z resolve m) acts s))"
proof -
  obtain v where "page_view z m s = Inr v" "map snd (presses [] [] v) = page_offers z (page_of s) (store_of s)"
    using shown_view [OF assms(2)] .
  with assms show ?thesis by (intro click) (auto dest!: set_of_offers)
qed

text \<open>A small session the theorems are tried on: one route, which is also in the form.\<close>

definition demo_route :: js where
  "demo_route = JObj [(''id'', JStr ''a''), (''domain'', JStr ''a.com''), (''port'', jint 80), (''locations'', JArr [JObj [(''path'', JStr ''/'')]])]"

definition demo_page :: "bool \<Rightarrow> page" where
  "demo_page isOpen = \<lparr>modal = initial_modal\<lparr>modalOpen := isOpen\<rparr>, ops = \<lparr>loading = False, op_error = None, success = None\<rparr>,
     form_values = demo_route, isSaving = False, isRemoving = False, isSavingLocation = False, isRemovingLocation = False, toasts = []\<rparr>"

definition demo_session :: "bool \<Rightarrow> task list \<Rightarrow> storage session" where
  "demo_session isOpen ts = \<lparr>world = (demo_page isOpen, initial_routes\<lparr>routes := [(JStr ''a'', demo_route)]\<rparr>, Map.empty),
     local = initial_locals, flight = ts, timers = [], crashed = False\<rparr>"

lemma demo_simps [simp]:
  "page_of (demo_session b ts) = demo_page b" "store_of (demo_session b ts) = initial_routes\<lparr>routes := [(JStr ''a'', demo_route)]\<rparr>"
  "flight (demo_session b ts) = ts" "\<not> crashed (demo_session b ts)" "form_values (demo_page b) = demo_route"
  "modalOpen (modal (demo_page b)) = b" "activeTab (modal (demo_page b)) = Basic" "\<not> isRemoving (demo_page b)"
  by (simp_all add: demo_session_def demo_page_def page_of_def store_of_def initial_modal_def)

lemma validatePort_wf: "zod z \<Longrightarrow> validatePort z v \<longleftrightarrow> port_wf (port_preprocess v)"
  by (auto simp: validatePort_def makeValidator_iff zod.port_accepts)

lemma demo_port: "validatePort zod_reference (get demo_route ''port'')"
  unfolding validatePort_wf [OF zref.zod_axioms] by (simp add: demo_route_def port_preprocess_def port_wf_def jint_def)

lemma demo_shown: "page_shown zod_reference (demo_page b) (initial_routes\<lparr>routes := [(JStr ''a'', demo_route)]\<rparr>)"
  using demo_port by (simp add: page_shown_def route_shown_def missing_def) (simp add: demo_route_def jint_def)



text \<open>The first field of the tabs that have fields.\<close>

lemma form_has_fields:
  assumes "RouteModal z fk l p = Inr v" and "tab_open Basic p \<or> tab_open Advanced p"
  shows "text_fields v \<noteq> []"
proof -
  from assms obtain content where c: "tab_content z fk l p = Inr content"
    by (cases "tab_content z fk l p") (auto simp: RouteModal_def tab_open_def)
  with assms(2) have "text_fields content \<noteq> []"
    by (auto simp: tab_open_def tab_content_def AnimatedTab_def Let_def BasicTab_def AdvancedTab_def Cons_eq_map_conv)
  with assms c show ?thesis by (auto simp: RouteModal_def tab_open_def split: if_splits)
qed

text \<open>
  C36: the button that saves in any case saves twice. It is offered whenever the form is open, also
  while a save is running; one click on it, and likewise the Enter key in a field of the form, starts
  one save of its own and one by submitting the form, whose values pass validation. The button that
  only submits is withdrawn while a save is running.
\<close>

theorem force_button_saves_twice:
  assumes "\<not> crashed s" and "page_shown z (page_of s) (store_of s)" and "modalOpen (modal (page_of s))"
    and "resolve (form_values (page_of s)) = Some v"
  shows "\<exists>s'. session_step z repository resolve s (Clicked [OnSaveForce, OnSubmit]) s' \<and>
      (tab_open Basic (page_of s) \<or> tab_open Advanced (page_of s) \<longrightarrow> session_step z repository resolve s Entered s') \<and>
      flight s' = flight s @ [SaveTask (closure m s) None, SaveTask (closure m s) (Some v)] \<and>
      [OnSubmit] \<notin> set (page_offers z (page_of s') (store_of s')) \<and> [OnSaveForce, OnSubmit] \<in> set (page_offers z (page_of s') (store_of s'))"
proof -
  have offered: "[OnSaveForce, OnSubmit] \<in> set (page_offers z (page_of s) (store_of s))"
    using assms(3) by (simp add: page_offers_def modal_offers_def)
  define s' where "s' = rerender z m (fold (start z resolve m) [OnSaveForce, OnSubmit] s)"
  have "closure m (launch t (upd (\<lambda>p. p\<lparr>isSaving := True\<rparr>) s)) = closure m s" for t
    by (simp add: closure_def)
  with assms(4) have s': "flight s' = flight s @ [SaveTask (closure m s) None, SaveTask (closure m s) (Some v)]"
    "isSaving (page_of s')" "modal (page_of s') = modal (page_of s)"
    by (simp_all add: s'_def begin_save_def)
  have "[OnSubmit] \<notin> set (list_offers p st)" "[OnSubmit] \<notin> set (tab_offers z p)" "[OnSubmit] \<notin> set (location_offers p)" for p st
    by (auto simp: list_offers_def tab_offers_def location_offers_def Let_def split: active_tab.splits)
  with s' assms(3) have "[OnSubmit] \<notin> set (page_offers z (page_of s') (store_of s'))"
    "[OnSaveForce, OnSubmit] \<in> set (page_offers z (page_of s') (store_of s'))"
    by (auto simp: page_offers_def modal_offers_def)
  moreover have "session_step z repository resolve s Entered s'" if "tab_open Basic (page_of s) \<or> tab_open Advanced (page_of s)"
  proof -
    obtain v where v: "RouteModal z (m_kit m) (local s) (page_of s) = Inr v"
      using assms(2) renders_RoutesPage [of z "m_kit m" "local s" "page_of s" "store_of s"]
      by (cases "RouteModal z (m_kit m) (local s) (page_of s)") (auto simp: RoutesPage_def useRoutesList_def)
    with that enter_key_form [OF v assms(3)] show ?thesis
      unfolding s'_def by (intro enter [OF assms(1) v]) (auto simp: form_has_fields)
  qed
  ultimately show ?thesis
    using s'(1) click_step [OF assms(1, 2) offered, of repository resolve m, folded s'_def] by blast
qed

theorem force_button_saves_twice_witness:
  "\<exists>s' m. session_step zod_reference LocalStorageRouteRepository Some (demo_session True []) (Clicked [OnSaveForce, OnSubmit]) s' \<and>
     flight s' = [SaveTask (closure m (demo_session True [])) None, SaveTask (closure m (demo_session True [])) (Some demo_route)]"
proof -
  fix m :: moment
  have "page_shown zod_reference (page_of (demo_session True [])) (store_of (demo_session True []))" by (simp add: demo_shown)
  from force_button_saves_twice [where m = m, OF _ this, of Some demo_route LocalStorageRouteRepository] show ?thesis by auto
qed

text \<open>
  C37: a pending deletion follows the form, not the route. While the deletion of a location waits, the
  form can be closed and another route opened in it; the deletion then removes the location with the
  same number from that other route.
\<close>

theorem pending_deletion_hits_next_route:
  assumes "\<not> crashed s" and "page_shown z (page_of s) (store_of s)" and "modalOpen (modal (page_of s))"
    and "\<not> isRemoving (page_of s)" and "\<not> isLoading (store_of s)" and "error (store_of s) = None"
    and "DeleteLocationTask i \<in> set (flight s)" and "(k, route) \<in> set (routes (store_of s))"
    and "get route ''locations'' = JArr ls" and "validatePort z (get route ''port'')"
  shows "\<exists>s1 s2 s3. session_step z repository resolve s (Clicked [OnClose]) s1 \<and>
      session_step z repository resolve s1 (Clicked [OnEdit route]) s2 \<and> form_values (page_of s2) = route \<and>
      session_step z repository resolve s2 (Finished (DeleteLocationTask i)) s3 \<and>
      get (form_values (page_of s3)) ''locations'' = JArr (removeLocation ls i)"
proof -
  fix m :: moment
  define s1 where "s1 = rerender z m (upd page_closeModal s)"
  define s2 where "s2 = rerender z m (upd (page_openForEdit route) s1)"
  have rows: "list_all (\<lambda>(_, route). route_shown route) (routes (store_of s))"
    using assms(2, 5, 6) by (simp add: page_shown_def)
  have p1: "page_of s1 = page_closeModal (page_of s)" "store_of s1 = store_of s" "flight s1 = flight s" by (simp_all add: s1_def)
  have p2: "page_of s2 = page_openForEdit route (page_closeModal (page_of s))" "flight s2 = flight s" by (simp_all add: s2_def p1)
  have "[OnClose] \<in> set (page_offers z (page_of s) (store_of s))"
    using assms(3) by (simp add: page_offers_def modal_offers_def)
  from click_step [OF assms(1, 2) this, of repository resolve m]
  have 1: "session_step z repository resolve s (Clicked [OnClose]) s1" by (simp add: s1_def)
  have shown1: "page_shown z (page_of s1) (store_of s1)" using rows by (simp add: p1 page_shown_def page_closeModal_def closeModal_def)
  then have alive: "\<not> crashed s1" using assms(1) unfolding s1_def by simp
  have "[OnEdit route] \<in> set (page_offers z (page_of s1) (store_of s1))"
    using assms(4-6, 8) by (force simp: p1 page_offers_def list_offers_def page_closeModal_def Let_def)
  from click_step [OF alive shown1 this, of repository resolve m]
  have 2: "session_step z repository resolve s1 (Clicked [OnEdit route]) s2" by (simp add: s2_def)
  from assms(7) p2(2) obtain ts us where fl: "flight s2 = ts @ DeleteLocationTask i # us" by (auto simp: in_set_conv_decomp)
  let ?s3 = "rerender z m (s2\<lparr>world := finish z repository (DeleteLocationTask i) (world s2), flight := ts @ us\<rparr>)"
  have 3: "session_step z repository resolve s2 (Finished (DeleteLocationTask i)) ?s3"
    by (rule finished [OF fl])
  have vals: "form_values (page_of s2) = route" by (simp add: p2 page_openForEdit_def)
  have "page_of ?s3 = finish_delete_location i (page_of s2)" by (simp add: page_of_def)
  moreover have "is_obj route" using assms(9) by (cases route) (auto simp: get_def)
  ultimately have "get (form_values (page_of ?s3)) ''locations'' = JArr (removeLocation ls i)"
    using vals assms(9) by (simp add: finish_delete_location_def show_toast_def)
  with 1 2 3 vals show ?thesis by blast
qed

theorem pending_deletion_hits_next_route_witness:
  "\<exists>s1 s2 s3. session_step zod_reference LocalStorageRouteRepository Some (demo_session True [DeleteLocationTask 0]) (Clicked [OnClose]) s1 \<and>
     session_step zod_reference LocalStorageRouteRepository Some s1 (Clicked [OnEdit demo_route]) s2 \<and>
     session_step zod_reference LocalStorageRouteRepository Some s2 (Finished (DeleteLocationTask 0)) s3 \<and>
     get (form_values (page_of s3)) ''locations'' = JArr []"
proof -
  let ?s = "demo_session True [DeleteLocationTask 0]"
  have "page_shown zod_reference (page_of ?s) (store_of ?s)" by (simp add: demo_shown)
  from pending_deletion_hits_next_route [OF _ this, of 0 "JStr ''a''" demo_route "[JObj [(''path'', JStr ''/'')]]" LocalStorageRouteRepository Some]
  have "\<exists>s1 s2 s3. session_step zod_reference LocalStorageRouteRepository Some ?s (Clicked [OnClose]) s1 \<and>
      session_step zod_reference LocalStorageRouteRepository Some s1 (Clicked [OnEdit demo_route]) s2 \<and> form_values (page_of s2) = demo_route \<and>
      session_step zod_reference LocalStorageRouteRepository Some s2 (Finished (DeleteLocationTask 0)) s3 \<and>
      get (form_values (page_of s3)) ''locations'' = JArr (removeLocation [JObj [(''path'', JStr ''/'')]] 0)"
    using demo_port by (simp add: initial_routes_def) (simp add: demo_route_def)
  moreover have "removeLocation [JObj [(''path'', JStr ''/'')]] 0 = []" by code_simp
  ultimately show ?thesis by force
qed

definition typed_port :: "string \<Rightarrow> js" where
  "typed_port t = (if t = [] then JUndef else JNum (js_Number t))"

lemma port_field_offered:
  assumes "page_view z m s = Inr v" and "tab_open Basic (page_of s)"
  shows "(''port'', \<lambda>t. SetValue [''port''] (typed_port t)) \<in> set (text_fields v)"
proof -
  from assms(1) obtain v1 v2 v3 where v: "v = Element [v1, v2, v3]" and m: "RouteModal z (m_kit m) (local s) (page_of s) = Inr v2"
    by (auto simp: page_view_def RoutesPage_def useRoutesList_def Cons_eq_map_conv)
  from m assms(2) obtain content where c: "tab_content z (m_kit m) (local s) (page_of s) = Inr content"
    by (cases "tab_content z (m_kit m) (local s) (page_of s)") (auto simp: RouteModal_def tab_open_def)
  with assms(2) have "(''port'', \<lambda>t. SetValue [''port''] (typed_port t)) \<in> set (text_fields content)"
    by (auto simp: tab_open_def tab_content_def AnimatedTab_def Let_def BasicTab_def Cons_eq_map_conv port_field_def typed_port_def split: sum.splits)
  with v m c assms(2) show ?thesis by (auto simp: RouteModal_def tab_open_def)
qed



end
