(* ===== verification/Desktop_App.thy ===== *)
theory Desktop_App
  imports Bootstrap
begin

text \<open>
  The windows and the life cycle of the desktop application, the rest of
  \<open>apps/desktop/src/main/main.ts\<close>: \<open>createWindow\<close>, the handler of \<open>whenReady\<close> and the handlers of
  \<open>activate\<close>, \<open>window-all-closed\<close> and \<open>before-quit\<close>, as steps of a machine over the desktop's state,
  the open windows and the connection manager. Electron decides when they run; whether a page loads
  and what the health check answers is chosen anew at each step.
\<close>

subsection \<open>Windows\<close>

record web_preferences =
  wp_preload :: string
  contextIsolation :: bool
  nodeIntegration :: bool
  sandbox :: bool
  webSecurity :: bool
  devTools :: bool

record browser_window =
  win_width :: int
  win_height :: int
  visible :: bool
  autoHideMenuBar :: bool
  webPreferences :: web_preferences
  loaded :: string

text \<open>What the platform fixes: whether the application is packaged, the system, and the candidate paths.\<close>

record platform =
  isPackaged :: bool
  darwin :: bool
  preload_paths :: "string list"
  index_paths :: "string list"

definition DEFAULT_WIDTH :: int where
  "DEFAULT_WIDTH = 1400"

definition DEFAULT_HEIGHT :: int where
  "DEFAULT_HEIGHT = 900"

definition new_window :: "platform \<Rightarrow> string \<Rightarrow> browser_window" where
  "new_window pf preload =
     \<lparr>win_width = DEFAULT_WIDTH, win_height = DEFAULT_HEIGHT, visible = False, autoHideMenuBar = True,
      webPreferences = \<lparr>wp_preload = preload, contextIsolation = True, nodeIntegration = False, sandbox = True, webSecurity = True,
        devTools = \<not> isPackaged pf\<rparr>,
      loaded = []\<rparr>"

text \<open>Loading a page: the window stays open also when the promise is rejected.\<close>

definition load_page :: "(string \<Rightarrow> js_error option) \<Rightarrow> string \<Rightarrow> browser_window \<Rightarrow> (js_error + browser_window) \<times> browser_window list" where
  "load_page load url win =
     (let win' = win\<lparr>loaded := url\<rparr> in case load url of Some e \<Rightarrow> (Inl e, [win']) | None \<Rightarrow> (Inr win', [win']))"

text \<open>\<open>createWindow\<close>: its result, and the windows it has opened by then.\<close>

definition createWindow ::
  "platform \<Rightarrow> env \<Rightarrow> (string \<Rightarrow> string option) \<Rightarrow> (string \<Rightarrow> js_error option) \<Rightarrow> (js_error + browser_window) \<times> browser_window list" where
  "createWindow pf e fs load =
     (case resolveExistingPath fs (preload_paths pf) of
        Inl err \<Rightarrow> (Inl err, [])
      | Inr preload \<Rightarrow>
          (let win = new_window pf preload; devServerUrl = env_or e ''ELECTRON_RENDERER_URL'' [] in
           if devServerUrl \<noteq> [] then load_page load devServerUrl win
           else case resolveExistingPath fs (index_paths pf) of
             Inl err \<Rightarrow> (Inl err, [win])
           | Inr indexPath \<Rightarrow> load_page load (''file://'' @ indexPath) win))"

subsection \<open>The life cycle\<close>

record 's main_state =
  desk :: "'s desktop"
  windows :: "browser_window list"
  sshRuntime :: "ssh_runtime option"
  handlers :: "bootstrap_defaults option"
  app :: app_state
  devToolsOpen :: bool
  quitting :: bool
  conn :: manager
  unhandled :: "js_error list"

text \<open>After the modules are loaded and the \<open>.env\<close> file is read.\<close>

definition launched :: "'s desktop \<Rightarrow> 's main_state" where
  "launched w = \<lparr>desk = w, windows = [], sshRuntime = None, handlers = None, app = \<lparr>health = None, reopens = False\<rparr>, devToolsOpen = False,
     quitting = False, conn = initial_manager, unhandled = []\<rparr>"

definition on_ready ::
  "platform \<Rightarrow> 's secrets_repository \<Rightarrow> string option \<Rightarrow> bootstrap_defaults \<Rightarrow> (string \<Rightarrow> js_error option) \<Rightarrow> (manager, js_error, unit) io \<Rightarrow>
   's main_state \<Rightarrow> 's main_state" where
  "on_ready pf repository envPath d load check st =
     (case createSshRuntime repository envPath (desk st) of
        (Inl e, w) \<Rightarrow> st\<lparr>desk := w, unhandled := unhandled st @ [e]\<rparr>
      | (Inr runtime, w) \<Rightarrow>
          (let st1 = st\<lparr>desk := w, sshRuntime := Some runtime, handlers := Some d\<rparr> in
           case createWindow pf (penv w) (files w) load of
             (Inl e, ws) \<Rightarrow> st1\<lparr>windows := windows st1 @ ws, unhandled := unhandled st1 @ [e]\<rparr>
           | (Inr win, ws) \<Rightarrow>
               (let st2 = st1\<lparr>windows := windows st1 @ ws,
                      devToolsOpen := \<not> isPackaged pf \<and> penv w ''ELECTRON_OPEN_DEVTOOLS'' = Some ''1''\<rparr> in
                case when_ready runtime check (conn st2) of (a, c) \<Rightarrow> st2\<lparr>app := a, conn := c\<rparr>)))"

definition on_activate :: "platform \<Rightarrow> (string \<Rightarrow> js_error option) \<Rightarrow> 's main_state \<Rightarrow> 's main_state" where
  "on_activate pf load st =
     (if reopens (app st) \<and> windows st = [] then
        (case createWindow pf (penv (desk st)) (files (desk st)) load of
           (Inl e, ws) \<Rightarrow> st\<lparr>windows := windows st @ ws, unhandled := unhandled st @ [e]\<rparr>
         | (Inr win, ws) \<Rightarrow> st\<lparr>windows := windows st @ ws\<rparr>)
      else st)"

definition before_quit :: "'s main_state \<Rightarrow> 's main_state" where
  "before_quit st = (case sshRuntime st of None \<Rightarrow> st | Some _ \<Rightarrow> st\<lparr>conn := shutdown (conn st)\<rparr>)"

text \<open>\<open>app.quit()\<close> emits \<open>before-quit\<close>.\<close>

definition quit :: "'s main_state \<Rightarrow> 's main_state" where
  "quit st = before_quit (st\<lparr>quitting := True\<rparr>)"

definition window_all_closed :: "platform \<Rightarrow> 's main_state \<Rightarrow> 's main_state" where
  "window_all_closed pf st = (if \<not> darwin pf then quit st else st)"

definition close_window :: "platform \<Rightarrow> nat \<Rightarrow> 's main_state \<Rightarrow> 's main_state" where
  "close_window pf i st =
     (let st1 = st\<lparr>windows := take i (windows st) @ drop (Suc i) (windows st)\<rparr> in
      if windows st1 = [] then window_all_closed pf st1 else st1)"

definition ready_to_show :: "nat \<Rightarrow> 's main_state \<Rightarrow> 's main_state" where
  "ready_to_show i st = st\<lparr>windows := (windows st)[i := (windows st ! i)\<lparr>visible := True\<rparr>]\<rparr>"

inductive main_reachable ::
  "platform \<Rightarrow> 's secrets_repository \<Rightarrow> string option \<Rightarrow> bootstrap_defaults \<Rightarrow> 's desktop \<Rightarrow> 's main_state \<Rightarrow> bool"
  for pf repository envPath d w where
  ready: "main_reachable pf repository envPath d w (on_ready pf repository envPath d load check (launched w))"
| activate: "main_reachable pf repository envPath d w st \<Longrightarrow> main_reachable pf repository envPath d w (on_activate pf load st)"
| close: "main_reachable pf repository envPath d w st \<Longrightarrow> i < length (windows st) \<Longrightarrow>
    main_reachable pf repository envPath d w (close_window pf i st)"
| shown: "main_reachable pf repository envPath d w st \<Longrightarrow> i < length (windows st) \<Longrightarrow>
    main_reachable pf repository envPath d w (ready_to_show i st)"
| quits: "main_reachable pf repository envPath d w st \<Longrightarrow> main_reachable pf repository envPath d w (quit st)"

subsection \<open>Windows are isolated and show the right page\<close>

definition isolated :: "platform \<Rightarrow> browser_window \<Rightarrow> bool" where
  "isolated pf win \<longleftrightarrow> (let wp = webPreferences win in
     contextIsolation wp \<and> \<not> nodeIntegration wp \<and> sandbox wp \<and> webSecurity wp \<and> (devTools wp \<longleftrightarrow> \<not> isPackaged pf) \<and>
     wp_preload wp \<in> set (preload_paths pf))"

text \<open>The page of a window: none yet, the development server, or one of the files of the application.\<close>

definition proper_page :: "platform \<Rightarrow> env \<Rightarrow> browser_window \<Rightarrow> bool" where
  "proper_page pf e win \<longleftrightarrow>
     (if env_or e ''ELECTRON_RENDERER_URL'' [] \<noteq> [] then loaded win = env_or e ''ELECTRON_RENDERER_URL'' []
      else loaded win = [] \<or> loaded win \<in> (\<lambda>p. ''file://'' @ p) ` set (index_paths pf))"

lemma resolveExistingPath_mem: "resolveExistingPath fs ps = Inr p \<Longrightarrow> p \<in> set ps"
  by (auto simp: resolveExistingPath_def find_Some_iff split: option.splits)

lemma createWindow_windows:
  assumes "createWindow pf e fs load = (r, ws)" and "win \<in> set ws"
  shows "isolated pf win \<and> proper_page pf e win"
proof -
  have page: "load_page load url win0 = (r', ws') \<Longrightarrow> ws' = [win0\<lparr>loaded := url\<rparr>]" for url win0 r' ws'
    by (auto simp: load_page_def Let_def split: option.splits)
  from assms show ?thesis
    by (auto simp: createWindow_def isolated_def proper_page_def new_window_def Let_def
        dest!: resolveExistingPath_mem page split: sum.splits if_splits)
qed

definition main_ok :: "platform \<Rightarrow> 's main_state \<Rightarrow> bool" where
  "main_ok pf st \<longleftrightarrow>
     (\<forall>win \<in> set (windows st). isolated pf win \<and> proper_page pf (penv (desk st)) win) \<and>
     (\<forall>runtime. sshRuntime st = Some runtime \<and> \<not> hasAuth runtime \<longrightarrow> \<not> reopens (app st)) \<and>
     (reopens (app st) \<or> windows st \<noteq> [] \<longrightarrow> sshRuntime st \<noteq> None \<and> handlers st \<noteq> None)"

lemma main_ok_more_windows:
  assumes "main_ok pf st" and "createWindow pf (penv (desk st)) (files (desk st)) load = (r, ws)" and "handlers st \<noteq> None" and "sshRuntime st \<noteq> None"
  shows "main_ok pf (st\<lparr>windows := windows st @ ws\<rparr>)"
  using assms createWindow_windows [OF assms(2)] by (auto simp: main_ok_def)

lemma main_ok_unhandled [simp]: "main_ok pf (st\<lparr>unhandled := es\<rparr>) = main_ok pf st"
  by (simp add: main_ok_def)

lemma when_ready_reopens: "when_ready runtime check c = (a, c') \<Longrightarrow> reopens a \<longleftrightarrow> hasAuth runtime"
  using no_reopen_without_auth [of runtime check c] by simp

lemma on_ready_ok: "main_ok pf (on_ready pf repository envPath d load check (launched w))"
proof -
  obtain r w1 where rt: "createSshRuntime repository envPath w = (r, w1)" by (rule prod.exhaust)
  obtain q ws where win: "createWindow pf (penv w1) (files w1) load = (q, ws)" by (rule prod.exhaust)
  note ok = createWindow_windows [OF win]
  show ?thesis
  proof (cases r)
    case (Inl e)
    with rt show ?thesis by (simp add: on_ready_def launched_def main_ok_def)
  next
    case (Inr runtime)
    obtain a c where a: "when_ready runtime check initial_manager = (a, c)" by (rule prod.exhaust)
    from when_ready_reopens [OF a] Inr rt win ok a show ?thesis
      by (cases q) (auto simp: on_ready_def launched_def main_ok_def Let_def)
  qed
qed

lemma on_activate_ok:
  assumes "main_ok pf st" shows "main_ok pf (on_activate pf load st)"
proof (cases "reopens (app st) \<and> windows st = []")
  case True
  obtain q ws where win: "createWindow pf (penv (desk st)) (files (desk st)) load = (q, ws)" by (rule prod.exhaust)
  from True assms have "handlers st \<noteq> None" "sshRuntime st \<noteq> None" by (auto simp: main_ok_def)
  from main_ok_more_windows [OF assms win this] True win show ?thesis
    by (cases q) (simp_all add: on_activate_def)
next
  case False
  then show ?thesis using assms by (auto simp: on_activate_def)
qed

lemma quit_ok [simp]: "main_ok pf (quit st) = main_ok pf st"
  by (auto simp: quit_def before_quit_def main_ok_def split: option.split)

lemma main_reachable_ok: "main_reachable pf repository envPath d w st \<Longrightarrow> main_ok pf st"
proof (induction rule: main_reachable.induct)
  case (close st i)
  let ?st = "st\<lparr>windows := take i (windows st) @ drop (Suc i) (windows st)\<rparr>"
  have "main_ok pf ?st" using close.IH by (auto simp: main_ok_def dest: in_set_takeD in_set_dropD)
  then have "main_ok pf (window_all_closed pf ?st)" by (cases "darwin pf") (simp_all only: window_all_closed_def quit_ok not_True_eq_False not_False_eq_True if_True if_False)
  with \<open>main_ok pf ?st\<close> show ?case unfolding close_window_def Let_def by presburger
next
  case (shown st i)
  then have "windows st ! i \<in> set (windows st)" by simp
  with shown.IH have "isolated pf (windows st ! i)" "proper_page pf (penv (desk st)) (windows st ! i)"
    by (auto simp: main_ok_def)
  with shown show ?case
    by (auto simp: main_ok_def ready_to_show_def isolated_def proper_page_def dest!: set_update_subset_insert [THEN subsetD])
qed (simp_all add: on_ready_ok on_activate_ok)

subsection \<open>Properties\<close>

text \<open>A program without a keyring and without a development server, started from its files.\<close>

definition demo_platform :: platform where
  "demo_platform = \<lparr>isPackaged = True, darwin = True, preload_paths = [''/app/remoteBridge.js''], index_paths = [''/app/index.html'']\<rparr>"

definition demo_desktop :: "unit desktop" where
  "demo_desktop = \<lparr>keyring = (), penv = Map.empty, files = [''/app/remoteBridge.js'' \<mapsto> [], ''/app/index.html'' \<mapsto> []]\<rparr>"

definition no_keyring :: "unit secrets_repository" where
  "no_keyring = KeytarSecretsRepository DEFAULT_SERVICE (Inl (Error ''keytar is missing''))"

lemma demo_start:
  obtains st runtime where "main_reachable demo_platform no_keyring None (read_defaults Map.empty) demo_desktop st"
    "sshRuntime st = Some runtime" "\<not> hasAuth runtime" "penv (desk st) = Map.empty"
    "windows st = [(new_window demo_platform ''/app/remoteBridge.js'')\<lparr>loaded := ''file:///app/index.html''\<rparr>]"
proof -
  have "migrated_secrets no_keyring None demo_desktop = (JNull, clearSecretProcessEnv demo_desktop)"
    by (simp add: migrated_secrets_def runDesktopSecretsMigration_def no_keyring_def KeytarSecretsRepository_def keytar_get_def run_defs demo_desktop_def)
  moreover have "clearSecretProcessEnv demo_desktop = demo_desktop" by (simp add: clearSecretProcessEnv_def demo_desktop_def)
  ultimately obtain runtime where rt: "createSshRuntime no_keyring None demo_desktop = (Inr runtime, demo_desktop)" "\<not> hasAuth runtime"
    by (auto simp: createSshRuntime_def Let_def parsePort_def demo_desktop_def get_def)
  let ?win = "(new_window demo_platform ''/app/remoteBridge.js'')\<lparr>loaded := ''file:///app/index.html''\<rparr>"
  have win: "createWindow demo_platform (penv demo_desktop) (files demo_desktop) (\<lambda>_. None) = (Inr ?win, [?win])"
    by (simp add: createWindow_def resolveExistingPath_def demo_platform_def demo_desktop_def env_or_def load_page_def Let_def)
  let ?st = "on_ready demo_platform no_keyring None (read_defaults Map.empty) (\<lambda>_. None) (ret ()) (launched demo_desktop)"
  have "sshRuntime ?st = Some runtime" "windows ?st = [?win]" "penv (desk ?st) = Map.empty"
    using rt win by (simp_all add: on_ready_def launched_def when_ready_def Let_def) (simp add: demo_desktop_def)
  with rt(2) ready [of demo_platform no_keyring None "read_defaults Map.empty" demo_desktop "\<lambda>_. None" "ret ()"] show ?thesis
    using that by blast
qed



text \<open>
  Without credentials a closed window never comes back. In every reachable state of a program
  that was started without a password or a key, activating it opens no window, on any system, and
  leaves everything as it is.
\<close>

theorem no_window_without_credentials:
  assumes "main_reachable pf repository envPath d w st" and "sshRuntime st = Some runtime" and "\<not> hasAuth runtime"
  shows "on_activate pf load st = st"
  using main_reachable_ok [OF assms(1)] assms(2, 3) by (auto simp: main_ok_def on_activate_def)

theorem no_window_without_credentials_witness:
  "\<exists>st runtime. main_reachable demo_platform no_keyring None (read_defaults Map.empty) demo_desktop st \<and> sshRuntime st = Some runtime \<and>
     \<not> hasAuth runtime \<and> on_activate demo_platform (\<lambda>_. None) st = st"
proof -
  obtain st runtime where st: "main_reachable demo_platform no_keyring None (read_defaults Map.empty) demo_desktop st"
    "sshRuntime st = Some runtime" "\<not> hasAuth runtime" by (rule demo_start)
  from no_window_without_credentials [OF this, of "\<lambda>_. None"] st show ?thesis by blast
qed

end
