(* ===== verification/Contracts.thy ===== *)
theory Contracts
  imports Compositions Web_Pages
begin

text \<open>
  The contracts between the parts of the program: the interfaces of \<open>packages/transport\<close>, of
  \<open>core/domain/Route.ts\<close> and of \<open>SecretsRepository.ts\<close> as types of a small language, with the
  relation \<open>has_type\<close> between types and values. The compiler checks these types but erases them, and
  values that arrive from outside are only asserted to have them; the lemmas show which answers
  really do. Types of functions and abort signals are left out.
\<close>

subsection \<open>Types\<close>

text \<open>An object type lists its fields, each with whether it is optional.\<close>

datatype ts_type =
    TsString
  | TsNumber
  | TsBoolean
  | TsLiteral js
  | TsUnion "ts_type list"
  | TsArray ts_type
  | TsObject "(string \<times> bool \<times> ts_type) list"

fun is_num :: "js \<Rightarrow> bool" where
  "is_num (JNum _) = True"
| "is_num _ = False"

lemma is_bool_simps [simp]:
  "is_bool (JBool b)" "\<not> is_bool JUndef" "\<not> is_bool JNull" "\<not> is_bool (JNum n)" "\<not> is_bool (JStr t)"
  "\<not> is_bool (JArr xs)" "\<not> is_bool (JObj ps)" "\<not> is_bool (JDate d)"
  by (simp_all add: is_bool_def)

fun has_type :: "ts_type \<Rightarrow> js \<Rightarrow> bool" where
  "has_type TsString v = is_str v"
| "has_type TsNumber v = is_num v"
| "has_type TsBoolean v = is_bool v"
| "has_type (TsLiteral x) v = (v = x)"
| "has_type (TsUnion ts) v = list_ex (\<lambda>t. has_type t v) ts"
| "has_type (TsArray t) v = (case v of JArr xs \<Rightarrow> list_all (has_type t) xs | _ \<Rightarrow> False)"
| "has_type (TsObject fs) v =
     (is_obj v \<and> list_all (\<lambda>(k, opt, t). (opt \<and> get v k = JUndef) \<or> has_type t (get v k)) fs)"

abbreviation required :: "string \<Rightarrow> ts_type \<Rightarrow> string \<times> bool \<times> ts_type" where
  "required k t \<equiv> (k, False, t)"

abbreviation optionally :: "string \<Rightarrow> ts_type \<Rightarrow> string \<times> bool \<times> ts_type" where
  "optionally k t \<equiv> (k, True, t)"

subsection \<open>The routes of the command side\<close>

definition Route :: ts_type where
  "Route = TsObject [required ''id'' TsString, required ''host'' TsString, required ''destination'' TsString,
     required ''enabled'' TsBoolean, required ''updatedAt'' TsString]"

definition RouteDraft :: ts_type where
  "RouteDraft = TsObject [optionally ''id'' TsString, required ''host'' TsString, required ''destination'' TsString,
     optionally ''enabled'' TsBoolean]"

text \<open>What a command takes and what it answers.\<close>

definition RouteCommandMap :: "(string \<times> ts_type \<times> ts_type) list" where
  "RouteCommandMap =
     [(''routes:list'', TsObject [optionally ''includeDisabled'' TsBoolean], TsObject [required ''routes'' (TsArray Route)]),
      (''routes:save'', TsObject [required ''draft'' RouteDraft], TsObject [required ''route'' Route]),
      (''routes:toggle'', TsObject [required ''id'' TsString, required ''enabled'' TsBoolean], TsObject [required ''route'' Route])]"

subsection \<open>The bootstrap channels\<close>

definition host_status :: ts_type where
  "host_status = TsUnion [TsLiteral (JStr ''unknown''), TsLiteral (JStr ''reachable''), TsLiteral (JStr ''unreachable'')]"

definition HostMetadata :: ts_type where
  "HostMetadata = TsObject [required ''id'' TsString, required ''name'' TsString, required ''host'' TsString, required ''port'' TsNumber,
     optionally ''description'' TsString, optionally ''createdAt'' TsString, optionally ''updatedAt'' TsString,
     optionally ''checkedAt'' TsString, optionally ''latencyMs'' TsNumber, optionally ''status'' host_status]"

definition BootstrapConnectionContext :: ts_type where
  "BootstrapConnectionContext = TsObject [required ''id'' TsString, required ''name'' TsString, required ''host'' TsString,
     required ''port'' TsNumber, optionally ''description'' TsString, optionally ''createdAt'' TsString,
     optionally ''updatedAt'' TsString, optionally ''checkedAt'' TsString, optionally ''latencyMs'' TsNumber,
     optionally ''status'' host_status]"

definition BootstrapInstallOptions :: ts_type where
  "BootstrapInstallOptions = TsObject [required ''installScriptUrl'' TsString, required ''serviceName'' TsString,
     required ''healthCommand'' TsString, optionally ''timeoutMs'' TsNumber]"

definition BootstrapContextResponse :: ts_type where
  "BootstrapContextResponse = TsObject [required ''connection'' BootstrapConnectionContext, required ''defaults'' BootstrapInstallOptions]"

definition BootstrapCheckHostResponse :: ts_type where
  "BootstrapCheckHostResponse = TsObject [required ''reachable'' TsBoolean, required ''checkedAt'' TsString, required ''latencyMs'' TsNumber]"

definition BootstrapInstallDaemonResponse :: ts_type where
  "BootstrapInstallDaemonResponse = TsObject [required ''installedAt'' TsString,
     required ''service'' (TsObject [required ''name'' TsString, required ''active'' TsBoolean, required ''enabled'' TsBoolean,
       required ''activeStateRaw'' TsString, required ''enabledStateRaw'' TsString]),
     required ''health'' (TsObject [required ''ok'' TsBoolean, required ''output'' TsString])]"

definition BridgeFailure :: ts_type where
  "BridgeFailure = TsObject [required ''ok'' (TsLiteral (JBool False)),
     required ''error'' (TsObject [required ''message'' TsString, required ''code'' TsString])]"

definition BridgeSuccess :: "ts_type \<Rightarrow> ts_type" where
  "BridgeSuccess t = TsObject [required ''ok'' (TsLiteral (JBool True)), required ''data'' t]"

definition BridgeResult :: "ts_type \<Rightarrow> ts_type" where
  "BridgeResult t = TsUnion [BridgeSuccess t, BridgeFailure]"

lemmas route_types = Route_def RouteDraft_def
lemmas bootstrap_types = host_status_def HostMetadata_def BootstrapConnectionContext_def BootstrapInstallOptions_def
  BootstrapContextResponse_def BootstrapCheckHostResponse_def BootstrapInstallDaemonResponse_def
lemmas bridge_types = BridgeFailure_def BridgeSuccess_def BridgeResult_def

subsection \<open>Types that survive sanitising and storing\<close>

text \<open>Numbers may become \<open>null\<close> in JSON, and a sensitive field is dropped.\<close>

fun storable_type :: "ts_type \<Rightarrow> bool" where
  "storable_type TsString \<longleftrightarrow> True"
| "storable_type TsNumber \<longleftrightarrow> False"
| "storable_type TsBoolean \<longleftrightarrow> True"
| "storable_type (TsLiteral x) \<longleftrightarrow> steady x"
| "storable_type (TsUnion ts) \<longleftrightarrow> list_all storable_type ts"
| "storable_type (TsArray t) \<longleftrightarrow> storable_type t"
| "storable_type (TsObject fs) \<longleftrightarrow> list_all (\<lambda>(k, opt, t). \<not> opt \<and> \<not> isSensitiveFieldName k \<and> storable_type t) fs"

lemma is_num_iff: "is_num v \<longleftrightarrow> (\<exists>n. v = JNum n)"
  by (cases v) auto

lemma is_bool_iff: "is_bool v \<longleftrightarrow> (\<exists>b. v = JBool b)"
  by (cases v) auto

lemma is_obj_iff: "is_obj v \<longleftrightarrow> (\<exists>ps. v = JObj ps)"
  by (cases v) auto

lemma storable_defined: "storable_type t \<Longrightarrow> has_type t v \<Longrightarrow> v \<noteq> JUndef"
  by (induction t v rule: has_type.induct) (auto simp: list_ex_iff list_all_iff)

lemma object_type_map_filter:
  assumes "has_type (TsObject fs) (JObj ps)"
    and "\<And>k opt t. (k, opt, t) \<in> set fs \<Longrightarrow> \<not> opt \<and> storable_type t \<and> (has_type t (get (JObj ps) k) \<longrightarrow> has_type t (f (get (JObj ps) k)))"
    and "\<And>k opt t v. (k, opt, t) \<in> set fs \<Longrightarrow> v \<noteq> JUndef \<Longrightarrow> P k v"
  shows "has_type (TsObject fs) (JObj (map (\<lambda>(k, v). (k, f v)) (filter (\<lambda>(k, v). P k v) ps)))"
proof -
  have "has_type t (pget (map (\<lambda>(k, v). (k, f v)) (filter (\<lambda>(k, v). P k v) ps)) k)" if "(k, opt, t) \<in> set fs" for k opt t
  proof -
    from assms(1) assms(2) [OF that] that have t: "has_type t (pget ps k)" "storable_type t" "has_type t (f (pget ps k))"
      by (auto simp: list_all_iff)
    then have "pget ps k \<noteq> JUndef" using storable_defined by blast
    with pget_map_filter [OF refl this, of P f] assms(3) [OF that] t(3) show ?thesis by simp
  qed
  then show ?thesis by (auto simp: list_all_iff)
qed

lemma storable_preserved:
  "storable_type t \<Longrightarrow> has_type t v \<Longrightarrow> has_type t (sanitizeForJson v) \<and> has_type t (json_val v)"
proof (induction t v rule: has_type.induct)
  case (5 ts v)
  then show ?case by (fastforce simp: list_ex_iff list_all_iff)
next
  case (6 t v)
  then show ?case by (auto simp: list_all_iff split: js.splits)
next
  case (7 fs v)
  then obtain ps where v: "v = JObj ps" by (auto simp: is_obj_iff)
  have field: "\<not> opt \<and> storable_type t \<and> \<not> isSensitiveFieldName k \<and>
      (has_type t (get (JObj ps) k) \<longrightarrow> has_type t (sanitizeForJson (get (JObj ps) k)) \<and> has_type t (json_val (get (JObj ps) k)))"
    if "(k, opt, t) \<in> set fs" for k opt t
    using "7.IH" [OF that refl refl] "7.prems"(1) that by (auto simp: list_all_iff v)
  note obj = "7.prems"(2) [unfolded v]
  have "has_type (TsObject fs) (sanitizeForJson (JObj ps))"
    unfolding sanitizeForJson.simps using field by (intro object_type_map_filter [OF obj]) blast+
  moreover have "has_type (TsObject fs) (json_val (JObj ps))"
    unfolding json_val.simps using field by (intro object_type_map_filter [OF obj]) blast+
  ultimately show ?case by (simp add: v)
qed (auto simp: is_str_iff is_num_iff is_bool_iff steady_def)

subsection \<open>Executors\<close>

text \<open>
  An executor keeps the contract of the route commands when, from a state of the right shape, every
  command with a payload of its type leaves such a state and answers, if it answers at all, with a
  value of the promised type.
\<close>

definition op_typed :: "string \<times> int \<times> process_op \<Rightarrow> bool" where
  "op_typed = (\<lambda>(uuid, now, op). case op of OpSave d \<Rightarrow> has_type RouteDraft d | _ \<Rightarrow> True)"

definition shown_typed :: "projection \<Rightarrow> bool" where
  "shown_typed p \<longleftrightarrow> list_all (has_type Route) (proj_routes p)"

lemma Route_storable [simp]: "storable_type Route"
  by (simp add: Route_def)

lemma sanitize_Route: "has_type Route r \<Longrightarrow> has_type Route (sanitizeForJson r)"
  using storable_preserved Route_storable by blast

lemma stored_Route: "has_type Route r \<Longrightarrow> has_type Route (stored r)"
  using storable_preserved Route_storable by (metis stored_def)

lemma replaceRoutes_typed: "has_type (TsArray Route) v \<Longrightarrow> shown_typed (replaceRoutes v p)"
  by (auto simp: shown_typed_def replaceRoutes_def list_all_iff sanitize_Route split: js.splits)

lemma upsertRoute_typed: "has_type Route r \<Longrightarrow> shown_typed p \<Longrightarrow> shown_typed (upsertRoute r p)"
  by (auto simp: shown_typed_def upsertRoute_def list_all_iff sanitize_Route)

lemma shown_typed_simps [simp]:
  "shown_typed (setPending b p) = shown_typed p" "shown_typed (setError e p) = shown_typed p"
  by (simp_all add: shown_typed_def setPending_def setError_def)

lemma run_process_typed:
  assumes "shown_typed p" and "\<And>v s'. call s = (Inr v, s') \<Longrightarrow> has_type t v" and "\<And>v p. has_type t v \<Longrightarrow> shown_typed p \<Longrightarrow> shown_typed (f v p)"
  shows "\<exists>p'. snd (run_process fallback call f (p, s)) = (p', snd (call s)) \<and> shown_typed p'"
  using assms by (cases "call s"; cases "fst (call s)") (auto simp: run_process_def Let_def)

locale typed_executor =
  fixes execute :: "string \<Rightarrow> int \<Rightarrow> 's executor"
    and typed :: "'s \<Rightarrow> bool"
  assumes contract: "typed s \<Longrightarrow> (command, req, res) \<in> set RouteCommandMap \<Longrightarrow> has_type req payload \<Longrightarrow>
      execute uuid now command payload s = (r, s') \<Longrightarrow> typed s' \<and> (\<forall>v. r = Inr v \<longrightarrow> has_type res v)"
begin

lemma gateway_typed:
  assumes "typed s"
  shows "gw_list (CommandRouteGateway (execute uuid now)) (JObj [(''includeDisabled'', JBool b)]) s = (r, s') \<Longrightarrow>
      typed s' \<and> (\<forall>v. r = Inr v \<longrightarrow> has_type (TsArray Route) v)"
    and "has_type RouteDraft d \<Longrightarrow> gw_save (CommandRouteGateway (execute uuid now)) d s = (r, s') \<Longrightarrow>
      typed s' \<and> (\<forall>v. r = Inr v \<longrightarrow> has_type Route v)"
    and "gw_toggle (CommandRouteGateway (execute uuid now)) (toggle_input i b) s = (r, s') \<Longrightarrow>
      typed s' \<and> (\<forall>v. r = Inr v \<longrightarrow> has_type Route v)"
proof -
  have answered: "typed s' \<and> (\<forall>v. r = Inr v \<longrightarrow> has_type t v)"
    if "(command, req, TsObject [required k t]) \<in> set RouteCommandMap" "has_type req payload"
      "bind (execute uuid now command payload) (\<lambda>r. ret (get r k)) s = (r, s')" for command req k t payload r s'
    using that contract [OF assms that(1, 2)] by (auto simp: bind_def ret_def split: prod.splits sum.splits)
  show "typed s' \<and> (\<forall>v. r = Inr v \<longrightarrow> has_type (TsArray Route) v)"
    if "gw_list (CommandRouteGateway (execute uuid now)) (JObj [(''includeDisabled'', JBool b)]) s = (r, s')"
    using that by (intro answered [where command = "''routes:list''" and k = "''routes''"])
      (auto simp: RouteCommandMap_def CommandRouteGateway_def nullish_def)
  show "typed s' \<and> (\<forall>v. r = Inr v \<longrightarrow> has_type Route v)"
    if "has_type RouteDraft d" "gw_save (CommandRouteGateway (execute uuid now)) d s = (r, s')"
    using that by (intro answered [where command = "''routes:save''" and k = "''route''" and payload = "JObj [(''draft'', d)]"])
      (auto simp: RouteCommandMap_def CommandRouteGateway_def)
  show "typed s' \<and> (\<forall>v. r = Inr v \<longrightarrow> has_type Route v)"
    if "gw_toggle (CommandRouteGateway (execute uuid now)) (toggle_input i b) s = (r, s')"
    using that by (intro answered [where command = "''routes:toggle''" and k = "''route''" and payload = "toggle_input i b"])
      (auto simp: RouteCommandMap_def CommandRouteGateway_def toggle_input_def)
qed

lemma run_op_typed:
  assumes "typed s" and "shown_typed p" and "op_typed op" and "run_op execute op (p, s) = (p', s')"
  shows "shown_typed p' \<and> typed s'"
proof -
  obtain uuid now x where op: "op = (uuid, now, x)" by (cases op)
  let ?gw = "CommandRouteGateway (execute uuid now)"
  show ?thesis
  proof (cases x)
    case (OpLoad b)
    with gateway_typed(1) [OF assms(1), of uuid now b] assms op
      run_process_typed [OF assms(2), of "gw_list ?gw (JObj [(''includeDisabled'', JBool b)])" s "TsArray Route" replaceRoutes "''Failed to load routes''"]
    show ?thesis by (cases "gw_list ?gw (JObj [(''includeDisabled'', JBool b)]) s")
      (auto simp: run_op_def process_load_def replaceRoutes_typed simp del: has_type.simps)
  next
    case (OpSave d)
    with gateway_typed(2) [OF assms(1), of d uuid now] assms op
      run_process_typed [OF assms(2), of "gw_save ?gw d" s Route upsertRoute "''Failed to save route''"]
    show ?thesis by (cases "gw_save ?gw d s") (auto simp: run_op_def process_save_def op_typed_def upsertRoute_typed simp del: has_type.simps)
  next
    case (OpToggle i b)
    with gateway_typed(3) [OF assms(1), of uuid now i b] assms op
      run_process_typed [OF assms(2), of "gw_toggle ?gw (toggle_input i b)" s Route upsertRoute "''Failed to toggle route''"]
    show ?thesis by (cases "gw_toggle ?gw (toggle_input i b) s")
      (auto simp: run_op_def process_toggle_def upsertRoute_typed simp del: has_type.simps)
  qed
qed

lemma run_ops_typed:
  "typed s \<Longrightarrow> shown_typed p \<Longrightarrow> list_all op_typed xs \<Longrightarrow> run_ops execute xs (p, s) = (p', s') \<Longrightarrow> shown_typed p' \<and> typed s'"
proof (induction xs arbitrary: p s)
  case (Cons x xs)
  obtain p1 s1 where 1: "run_op execute x (p, s) = (p1, s1)" by fastforce
  with Cons.prems have "run_ops execute xs (p1, s1) = (p', s')" by (simp add: run_ops_def)
  with Cons.IH [of s1 p1] run_op_typed [OF Cons.prems(1, 2) _ 1] Cons.prems(3) show ?case by simp
qed (simp add: run_ops_def)

end

lemma draft_route_typed: "has_type RouteDraft d \<Longrightarrow> has_type Route (draft_route uuid now d)"
  by (auto simp: route_types draft_route_def nullish_def is_str_iff)

lemma toggled_route_typed: "has_type Route c \<Longrightarrow> has_type Route (toggled_route now c (JBool b))"
  by (cases c) (auto simp: Route_def toggled_route_def is_str_iff)

definition routes_typed :: "js list \<Rightarrow> bool" where
  "routes_typed rs \<longleftrightarrow> list_all (has_type Route) rs"

lemma routes_typed_changes:
  "routes_typed rs \<Longrightarrow> has_type Route r \<Longrightarrow> routes_typed (put_last r rs)"
  "routes_typed rs \<Longrightarrow> has_type Route r \<Longrightarrow> routes_typed (replace_id i r rs)"
  "routes_typed rs \<Longrightarrow> routes_typed (filter P rs)"
  "routes_typed rs \<Longrightarrow> find Q rs = Some c \<Longrightarrow> has_type Route c"
  by (auto simp: routes_typed_def put_last_def replace_id_def list_all_iff find_Some_iff)

lemma Route_not_nullish: "has_type Route r \<Longrightarrow> r \<noteq> JNull"
  by (auto simp: Route_def)

lemma command_cases:
  assumes "(command, req, res) \<in> set RouteCommandMap"
  obtains "command = ''routes:list''" "req = TsObject [optionally ''includeDisabled'' TsBoolean]" "res = TsObject [required ''routes'' (TsArray Route)]"
  | "command = ''routes:save''" "req = TsObject [required ''draft'' RouteDraft]" "res = TsObject [required ''route'' Route]"
  | "command = ''routes:toggle''" "req = TsObject [required ''id'' TsString, required ''enabled'' TsBoolean]" "res = TsObject [required ''route'' Route]"
  using assms by (auto simp: RouteCommandMap_def)

lemma typed_draft_present: "has_type RouteDraft d \<Longrightarrow> d \<noteq> JUndef \<and> d \<noteq> JNull"
  by (auto simp: RouteDraft_def)

interpretation mock_types: typed_executor mock_execute routes_typed
proof
  fix s command req res payload uuid now r s'
  assume s: "routes_typed s" and c: "(command, req, res) \<in> set RouteCommandMap" and p: "has_type req payload"
    and e: "mock_execute uuid now command payload s = (r, s')"
  from c show "routes_typed s' \<and> (\<forall>v. r = Inr v \<longrightarrow> has_type res v)"
  proof (cases rule: command_cases)
    case 1
    with s e routes_typed_changes(3) [OF s] show ?thesis by (auto simp: mock_execute_def routes_typed_def)
  next
    case 2
    with p have "has_type RouteDraft (get payload ''draft'')" by simp
    with 2 s e typed_draft_present draft_route_typed [OF this, of uuid now] routes_typed_changes(1) [OF s]
    show ?thesis by (auto simp: mock_execute_def Let_def)
  next
    case 3
    with p obtain b where "get payload ''enabled'' = JBool b" by (auto simp: is_bool_iff)
    with 3 s e routes_typed_changes(2, 4) [OF s] show ?thesis
      by (fastforce simp: mock_execute_def Let_def toggled_route_typed split: option.splits)
  qed
qed

definition storage_typed :: "storage \<Rightarrow> bool" where
  "storage_typed s \<longleftrightarrow> has_type (TsArray Route) (local_loadRoutes s)"

lemma storage_typed_save: "routes_typed rs \<Longrightarrow> storage_typed (local_saveRoutes rs s)"
  by (auto simp: storage_typed_def local_loadRoutes_def local_saveRoutes_def getItem_def stringify_array routes_typed_def
      list_all_iff stored_Route)

interpretation local_types: typed_executor local_execute storage_typed
proof
  fix s command req res payload uuid now r s'
  assume s: "storage_typed s" and c: "(command, req, res) \<in> set RouteCommandMap" and p: "has_type req payload"
    and e: "local_execute uuid now command payload s = (r, s')"
  from s obtain rs where rs: "local_loadRoutes s = JArr rs" "routes_typed rs"
    by (auto simp: storage_typed_def routes_typed_def split: js.splits)
  then have no_null: "JNull \<notin> set rs" using Route_not_nullish by (auto simp: routes_typed_def list_all_iff)
  from c show "storage_typed s' \<and> (\<forall>v. r = Inr v \<longrightarrow> has_type res v)"
  proof (cases rule: command_cases)
    case 1
    with s e rs no_null routes_typed_changes(3) [OF rs(2)] show ?thesis
      by (auto simp: local_execute_def routes_typed_def split: if_splits)
  next
    case 2
    with p have "has_type RouteDraft (get payload ''draft'')" by simp
    with 2 s e rs no_null typed_draft_present draft_route_typed [OF this, of uuid now] routes_typed_changes(1) [OF rs(2)]
    show ?thesis by (auto simp: local_execute_def Let_def storage_typed_save)
  next
    case 3
    with p obtain b where "get payload ''enabled'' = JBool b" by (auto simp: is_bool_iff)
    with 3 s e rs no_null routes_typed_changes(2, 4) [OF rs(2)] show ?thesis
      by (fastforce simp: local_execute_def Let_def toggled_route_typed storage_typed_save split: option.splits)
  qed
qed

text \<open>An HTTP executor asserts the type of what the server sends; nothing checks it.\<close>

lemma http_unchecked:
  "truthy v \<Longrightarrow> http_execute (\<lambda>_ _. FetchResponse True 200 (Some (JObj [(''ok'', JBool True), (''data'', v)]))) base False command payload = Inr v"
  by (simp add: http_execute_def)

subsection \<open>Handlers of the bootstrap channels\<close>

lemma failure_typed: "has_type (BridgeResult t) (ipc_failure m c)"
  by (simp add: bridge_types ipc_failure_def)

lemma success_typed: "has_type t v \<Longrightarrow> has_type (BridgeResult t) (ipc_success v)"
  by (simp add: bridge_types ipc_success_def)

lemma toIpcError_typed: "has_type (BridgeResult t) (toIpcError e)"
  by (cases e) (simp_all only: toIpcError.simps failure_typed)

lemma answering_typed:
  "(\<And>v s'. m s = (Inr v, s') \<Longrightarrow> has_type (BridgeResult t) v) \<Longrightarrow> has_type (BridgeResult t) (fst (answering m s))"
  by (cases "m s"; cases "fst (m s)") (auto simp only: answering_def prod.case sum.case fst_conv toIpcError_typed)

lemma getContext_typed:
  assumes "has_type HostMetadata metadata"
  shows "has_type (BridgeResult BootstrapContextResponse) (fst (getContext trusted d metadata s))"
proof -
  have "has_type BootstrapConnectionContext (JObj (map (\<lambda>k. (k, get metadata k)) METADATA_KEYS))"
    using assms by (auto simp: HostMetadata_def BootstrapConnectionContext_def METADATA_KEYS_def)
  then show ?thesis
    by (auto simp: getContext_def untrusted_def failure_typed BootstrapContextResponse_def BootstrapInstallOptions_def jint_def
        intro!: success_typed)
qed

lemma checkHost_typed: "has_type (BridgeResult BootstrapCheckHostResponse) (fst (checkHost trusted check start now s))"
proof -
  have "has_type BootstrapCheckHostResponse (JObj [(''reachable'', JBool True), (''checkedAt'', JStr (to_iso now)), (''latencyMs'', jint (now - start))])"
    by (simp add: BootstrapCheckHostResponse_def jint_def)
  then show ?thesis
    by (auto simp: checkHost_def untrusted_def failure_typed bind_def ret_def intro!: answering_typed success_typed split: prod.splits sum.splits)
qed

lemma installDaemon_typed: "has_type (BridgeResult BootstrapInstallDaemonResponse) (fst (installDaemon trusted d shell now request s))"
  by (auto simp: installDaemon_def untrusted_def failure_typed bind_def ret_def BootstrapInstallDaemonResponse_def
      intro!: answering_typed success_typed split: prod.splits sum.splits)

lemma runtime_metadata_typed: "createSshRuntime repository envPath w = (Inr runtime, w') \<Longrightarrow> has_type HostMetadata (rt_metadata runtime)"
  by (auto simp: createSshRuntime_def Let_def HostMetadata_def host_status_def env_js_def split: sum.splits prod.splits option.splits)

subsection \<open>Properties\<close>

text \<open>
  C16: the routes of the command side keep their type. From typed routes, any sequence of loads, typed
  saves and toggles leaves typed routes on the screen and in the store, on the desktop and with the
  executor in memory, whatever redaction and JSON do to the texts in between; and in the states
  reached every command with a payload of its type fails or answers with the type its contract
  promises.
\<close>

theorem commands_keep_contract:
  assumes "list_all op_typed xs" and "shown_typed p" and "storage_typed s" and "routes_typed rs"
    and "run_ops local_execute xs (p, s) = (p1, s1)" and "run_ops mock_execute xs (p, rs) = (p2, rs2)"
    and "(command, req, res) \<in> set RouteCommandMap" and "has_type req payload"
  shows "shown_typed p1 \<and> storage_typed s1 \<and> shown_typed p2 \<and> routes_typed rs2 \<and>
    (case fst (local_execute uuid now command payload s1) of Inr v \<Rightarrow> has_type res v | Inl _ \<Rightarrow> True) \<and>
    (case fst (mock_execute uuid now command payload rs2) of Inr v \<Rightarrow> has_type res v | Inl _ \<Rightarrow> True)"
proof -
  from local_types.run_ops_typed [OF assms(3, 2, 1, 5)] have 1: "shown_typed p1" "storage_typed s1" by simp_all
  from mock_types.run_ops_typed [OF assms(4, 2, 1, 6)] have 2: "shown_typed p2" "routes_typed rs2" by simp_all
  have "case fst (local_execute uuid now command payload s1) of Inr v \<Rightarrow> has_type res v | Inl _ \<Rightarrow> True"
    using local_types.contract [OF 1(2) assms(7, 8), of uuid now] by (cases "local_execute uuid now command payload s1") (auto split: sum.split)
  moreover have "case fst (mock_execute uuid now command payload rs2) of Inr v \<Rightarrow> has_type res v | Inl _ \<Rightarrow> True"
    using mock_types.contract [OF 2(2) assms(7, 8), of uuid now] by (cases "mock_execute uuid now command payload rs2") (auto split: sum.split)
  ultimately show ?thesis using 1 2 by blast
qed

theorem commands_keep_contract_witness:
  "\<exists>p1 s1. run_ops local_execute [(''u'', 0, OpSave (JObj [(''host'', JStr ''a.b''), (''destination'', JStr ''c'')]))] (initial_projection, Map.empty) = (p1, s1) \<and>
     shown_typed p1 \<and> storage_typed s1"
proof -
  let ?xs = "[(''u'', 0, OpSave (JObj [(''host'', JStr ''a.b''), (''destination'', JStr ''c'')]))]"
  obtain p1 s1 p2 rs2 where r: "run_ops local_execute ?xs (initial_projection, Map.empty) = (p1, s1)"
    "run_ops mock_execute ?xs (initial_projection, []) = (p2, rs2)" by (metis surj_pair)
  have "list_all op_typed ?xs" "shown_typed initial_projection" "storage_typed Map.empty" "routes_typed []"
    by (simp_all add: op_typed_def RouteDraft_def shown_typed_def initial_projection_def storage_typed_def local_loadRoutes_def getItem_def routes_typed_def)
  from commands_keep_contract [OF this r, of "''routes:list''" "TsObject [optionally ''includeDisabled'' TsBoolean]"
      "TsObject [required ''routes'' (TsArray Route)]" "JObj []" "''u''" 0] r(1)
  show ?thesis by (simp add: RouteCommandMap_def)
qed

text \<open>
  The main process keeps the contract of the bootstrap channels. For a host the program was started
  for, whatever the sender, the network and the shell do, the answer of each of the three handlers
  has the type the page is compiled against.
\<close>

theorem handlers_keep_contract:
  assumes "start_main repository resolved w = (Inr (d, runtime), w')"
  shows "has_type (BridgeResult BootstrapContextResponse) (fst (getContext trusted d (rt_metadata runtime) s)) \<and>
    has_type (BridgeResult BootstrapCheckHostResponse) (fst (checkHost trusted check start now s)) \<and>
    has_type (BridgeResult BootstrapInstallDaemonResponse) (fst (installDaemon trusted d shell now request s))"
proof -
  obtain envPath w1 where "createSshRuntime repository envPath w1 = (Inr runtime, w')" using start_main_runtime [OF assms] by blast
  then show ?thesis by (intro conjI getContext_typed runtime_metadata_typed checkHost_typed installDaemon_typed)
qed

theorem handlers_keep_contract_witness:
  "\<exists>d runtime w'. start_main (KeytarSecretsRepository DEFAULT_SERVICE (Inr memory_keytar)) [] quiet_desktop = (Inr (d, runtime), w') \<and>
     has_type (BridgeResult BootstrapContextResponse) (fst (getContext True d (rt_metadata runtime) ()))"
proof -
  obtain d runtime w' where s: "start_main (KeytarSecretsRepository DEFAULT_SERVICE (Inr memory_keytar)) [] quiet_desktop = (Inr (d, runtime), w')"
    using quiet_start by blast
  from handlers_keep_contract [OF s, where trusted = True and s = "()"] s show ?thesis by blast
qed

end
