(* ===== verification/Preload.thy ===== *)
theory Preload
  imports Contracts
begin

text \<open>
  From the page to the main process: the channels of \<open>transport/src/contracts/bootstrap.ts\<close> and
  \<open>transport/src/ipc.ts\<close>, the table of handlers \<open>registerBootstrapHandlers\<close> fills, the preload script
  \<open>apps/desktop/src/preload/remoteBridge.ts\<close>, which names the channels a second time, and what the
  page finds on its window. How Electron carries a call is a parameter with its documented
  behaviour: an invocation is answered by the handler registered for its channel, which learns the
  address of the page, and fails when there is none.
\<close>

subsection \<open>Channels and handlers\<close>

definition BOOTSTRAP_CHECK_HOST_CHANNEL :: string where
  "BOOTSTRAP_CHECK_HOST_CHANNEL = ''bootstrap:check-host''"

definition BOOTSTRAP_INSTALL_DAEMON_CHANNEL :: string where
  "BOOTSTRAP_INSTALL_DAEMON_CHANNEL = ''bootstrap:install-daemon''"

definition BOOTSTRAP_GET_CONTEXT_CHANNEL :: string where
  "BOOTSTRAP_GET_CONTEXT_CHANNEL = ''bootstrap:get-context''"

definition REMOTE_EXECUTE_CHANNEL :: string where
  "REMOTE_EXECUTE_CHANNEL = ''remote:execute''"

text \<open>A handler takes the address of the sender's frame and the request.\<close>

type_synonym 's ipc_handler = "string \<Rightarrow> js \<Rightarrow> 's \<Rightarrow> js \<times> 's"
type_synonym 's ipc_table = "(string \<times> 's ipc_handler) list"

text \<open>What the handlers use of the running program.\<close>

record 's main_services =
  ms_trusts :: "string \<Rightarrow> bool"
  ms_defaults :: bootstrap_defaults
  ms_metadata :: js
  ms_check :: "('s, js_error, unit) io"
  ms_shell :: "string \<Rightarrow> rat \<Rightarrow> ('s, js_error, string) io"
  ms_start :: int
  ms_now :: int

definition registerBootstrapHandlers :: "'s main_services \<Rightarrow> 's ipc_table" where
  "registerBootstrapHandlers m =
     [(BOOTSTRAP_GET_CONTEXT_CHANNEL, \<lambda>url _. getContext (ms_trusts m url) (ms_defaults m) (ms_metadata m)),
      (BOOTSTRAP_CHECK_HOST_CHANNEL, \<lambda>url _. checkHost (ms_trusts m url) (ms_check m) (ms_start m) (ms_now m)),
      (BOOTSTRAP_INSTALL_DAEMON_CHANNEL, \<lambda>url request. installDaemon (ms_trusts m url) (ms_defaults m) (ms_shell m) (ms_now m) request)]"

subsection \<open>The preload script\<close>

definition preload_check_host_channel :: string where
  "preload_check_host_channel = ''bootstrap:check-host''"

definition preload_get_context_channel :: string where
  "preload_get_context_channel = ''bootstrap:get-context''"

definition preload_install_daemon_channel :: string where
  "preload_install_daemon_channel = ''bootstrap:install-daemon''"

text \<open>The bridge as the page gets it: promises that may be rejected.\<close>

record 's preload_bridge =
  pb_getContext :: "('s, js_error, js) io"
  pb_checkHost :: "('s, js_error, js) io"
  pb_installDaemon :: "js \<Rightarrow> ('s, js_error, js) io"

type_synonym 's ipc_invoke = "'s ipc_table \<Rightarrow> string \<Rightarrow> string \<Rightarrow> js \<Rightarrow> ('s, js_error, js) io"

definition bootstrapBridge :: "(string \<Rightarrow> js \<Rightarrow> ('s, js_error, js) io) \<Rightarrow> 's preload_bridge" where
  "bootstrapBridge invoke =
     \<lparr>pb_getContext = invoke preload_get_context_channel JUndef,
      pb_checkHost = invoke preload_check_host_channel JUndef,
      pb_installDaemon = (\<lambda>request. invoke preload_install_daemon_channel request)\<rparr>"

subsection \<open>What the page finds on its window\<close>

text \<open>
  The two globals the sources look for. The remote bridge is an object with or without a function
  \<open>execute\<close>; no window at all is \<open>None\<close> in the functions below.
\<close>

record ('s, 't) window_globals =
  w_bootstrapBridge :: "'s preload_bridge option"
  w_remoteBridge :: "'t bridge option option"

definition bare_window :: "('s, 't) window_globals" where
  "bare_window = \<lparr>w_bootstrapBridge = None, w_remoteBridge = None\<rparr>"

definition exposeInMainWorld :: "'s preload_bridge \<Rightarrow> ('s, 't) window_globals \<Rightarrow> ('s, 't) window_globals" where
  "exposeInMainWorld b w = w\<lparr>w_bootstrapBridge := Some b\<rparr>"

definition resolveBridge :: "('s, 't) window_globals option \<Rightarrow> 's preload_bridge option" where
  "resolveBridge w = (case w of None \<Rightarrow> None | Some g \<Rightarrow> w_bootstrapBridge g)"

definition resolveRemoteBridge :: "('s, 't) window_globals option \<Rightarrow> 't bridge option" where
  "resolveRemoteBridge w =
     (case w of
        None \<Rightarrow> None
      | Some g \<Rightarrow> (case w_remoteBridge g of None \<Rightarrow> None | Some None \<Rightarrow> None | Some (Some b) \<Rightarrow> Some b))"

text \<open>The window of a page of the desktop application, at an address.\<close>

definition desktop_window :: "'s ipc_invoke \<Rightarrow> 's main_services \<Rightarrow> string \<Rightarrow> ('s, 't) window_globals" where
  "desktop_window invoke m url = exposeInMainWorld (bootstrapBridge (invoke (registerBootstrapHandlers m) url)) bare_window"

subsection \<open>Electron\<close>

definition answered :: "js \<times> 's \<Rightarrow> (js_error + js) \<times> 's" where
  "answered = (\<lambda>(v, s). (Inr v, s))"

locale electron_ipc =
  fixes invoke :: "'s ipc_invoke"
  assumes delivers: "map_of table channel = Some h \<Longrightarrow> invoke table url channel request s = answered (h url request s)"
    and no_handler: "map_of table channel = None \<Longrightarrow> \<exists>e. invoke table url channel request s = (Inl e, s)"
begin

lemma bridge_reaches_handlers:
  fixes m :: "'s main_services" and url :: string
  defines "b \<equiv> bootstrapBridge (invoke (registerBootstrapHandlers m) url)"
    and "d \<equiv> desktop_bridge (ms_trusts m url) (ms_defaults m) (ms_metadata m) (ms_check m) (ms_shell m) (ms_start m) (ms_now m)"
  shows "pb_getContext b s = answered (bb_getContext d s)" "pb_checkHost b s = answered (bb_checkHost d s)"
    "pb_installDaemon b request s = answered (bb_installDaemon d request s)"
proof -
  have "map_of (registerBootstrapHandlers m) preload_get_context_channel = Some (\<lambda>url _. getContext (ms_trusts m url) (ms_defaults m) (ms_metadata m))"
    "map_of (registerBootstrapHandlers m) preload_check_host_channel =
      Some (\<lambda>url _. checkHost (ms_trusts m url) (ms_check m) (ms_start m) (ms_now m))"
    "map_of (registerBootstrapHandlers m) preload_install_daemon_channel =
      Some (\<lambda>url request. installDaemon (ms_trusts m url) (ms_defaults m) (ms_shell m) (ms_now m) request)"
    by (simp_all add: registerBootstrapHandlers_def preload_get_context_channel_def preload_check_host_channel_def
        preload_install_daemon_channel_def BOOTSTRAP_GET_CONTEXT_CHANNEL_def BOOTSTRAP_CHECK_HOST_CHANNEL_def
        BOOTSTRAP_INSTALL_DAEMON_CHANNEL_def)
  then show "pb_getContext b s = answered (bb_getContext d s)" "pb_checkHost b s = answered (bb_checkHost d s)"
    "pb_installDaemon b request s = answered (bb_installDaemon d request s)"
    by (simp_all add: b_def d_def bootstrapBridge_def desktop_bridge_def delivers)
qed

lemma remote_execute_unanswered: "\<exists>e. invoke (registerBootstrapHandlers m) url REMOTE_EXECUTE_CHANNEL request s = (Inl e, s)"
  by (rule no_handler) (simp add: registerBootstrapHandlers_def REMOTE_EXECUTE_CHANNEL_def BOOTSTRAP_GET_CONTEXT_CHANNEL_def
      BOOTSTRAP_CHECK_HOST_CHANNEL_def BOOTSTRAP_INSTALL_DAEMON_CHANNEL_def)

end

text \<open>The least such carrier: the handler, or an error.\<close>

definition direct_ipc :: "'s ipc_invoke" where
  "direct_ipc table url channel request s =
     (case map_of table channel of Some h \<Rightarrow> answered (h url request s)
      | None \<Rightarrow> (Inl (Error (''No handler registered for '' @ channel)), s))"

interpretation direct: electron_ipc direct_ipc
  by unfold_locales (simp_all add: direct_ipc_def)

subsection \<open>Properties\<close>

text \<open>
  C17: what a page of the desktop application can call. The bridge it finds on its window never rejects
  and answers exactly like the handlers of the main process, with the trust its address earns; the
  remote bridge it also looks for is not there, nor is the channel behind it, so the repository of
  routes is the one over the browser's storage, on the desktop too.
\<close>

theorem desktop_window_calls:
  fixes w :: "('s, storage) window_globals option"
  assumes "electron_ipc invoke" and "w = Some (desktop_window invoke m url)"
  shows "(\<exists>b. resolveBridge w = Some b \<and>
      (let d = desktop_bridge (ms_trusts m url) (ms_defaults m) (ms_metadata m) (ms_check m) (ms_shell m) (ms_start m) (ms_now m) in
       pb_getContext b s = answered (bb_getContext d s) \<and> pb_checkHost b s = answered (bb_checkHost d s) \<and>
       pb_installDaemon b request s = answered (bb_installDaemon d request s))) \<and>
     (\<exists>e. invoke (registerBootstrapHandlers m) url REMOTE_EXECUTE_CHANNEL request s = (Inl e, s)) \<and>
     createRouteRepository z now (resolveRemoteBridge w) key =
       Inr (BrowserLocalStorageRouteRepository z now (case key of None \<Rightarrow> ROUTES_STORAGE_KEY | Some k \<Rightarrow> k))"
proof -
  have "resolveBridge w = Some (bootstrapBridge (invoke (registerBootstrapHandlers m) url))" "resolveRemoteBridge w = None"
    by (simp_all add: assms(2) resolveBridge_def resolveRemoteBridge_def desktop_window_def exposeInMainWorld_def bare_window_def)
  then show ?thesis
    using electron_ipc.bridge_reaches_handlers [OF assms(1), of m url] electron_ipc.remote_execute_unanswered [OF assms(1), of m url request s]
    by (simp add: createRouteRepository_def isAvailable_def Let_def)
qed

definition demo_services :: "host_script main_services" where
  "demo_services = \<lparr>ms_trusts = (\<lambda>url. starts_with url ''file://''), ms_defaults = read_defaults Map.empty, ms_metadata = JObj [],
     ms_check = ret (), ms_shell = scripted_shell, ms_start = 0, ms_now = 0\<rparr>"

theorem desktop_window_calls_witness:
  "\<exists>b. resolveBridge (Some (desktop_window direct_ipc demo_services ''https://evil'' :: (host_script, storage) window_globals)) = Some b \<and>
     pb_installDaemon b (JObj []) ([], []) = (Inr untrusted, ([], []))"
proof -
  have "\<not> starts_with ''https://evil'' ''file://''" by code_simp
  then show ?thesis
    using desktop_window_calls [OF direct.electron_ipc_axioms refl, where m = demo_services and url = "''https://evil''" and s = "([], [])"
      and request = "JObj []", THEN conjunct1]
    by (auto simp: demo_services_def desktop_bridge_def installDaemon_def answered_def Let_def)
qed

end
