(* ===== verification/Bootstrap_Session.thy ===== *)
theory Bootstrap_Session
  imports Contracts Route_Views
begin

text \<open>
  Sessions with the bootstrap page inside the application shell. Its handlers call the main process
  and wait; meanwhile the user may click, type, leave the page and come back. Leaving unmounts the
  page, so what its calls bring later is dropped, but the calls go on; coming back mounts a new page
  with its initial state. A call does its work on the host at the moment its answer arrives. The
  locale \<open>bridge_contract\<close> is what the page relies on: answers of the types of the contract. Which
  bridge answers may change from call to call, with the clock and the trust in the page's address.
\<close>

subsection \<open>Handlers in two halves\<close>

definition begin_check :: "bootstrap_page \<Rightarrow> bootstrap_page" where
  "begin_check b = b\<lparr>isChecking := True, checkError := JNull, checkResult := JNull\<rparr>"

definition end_check :: "js \<Rightarrow> bootstrap_page \<Rightarrow> bootstrap_page" where
  "end_check result b =
     (if \<not> truthy (get result ''ok'') then b\<lparr>checkError := fail_message result\<rparr>
      else b\<lparr>checkResult := get result ''data''\<rparr>)\<lparr>isChecking := False\<rparr>"

definition begin_install :: "bootstrap_page \<Rightarrow> bootstrap_page" where
  "begin_install b = b\<lparr>isInstalling := True, installError := JNull, installResult := JNull\<rparr>"

definition end_install :: "js \<Rightarrow> bootstrap_page \<Rightarrow> bootstrap_page" where
  "end_install result b =
     (if \<not> truthy (get result ''ok'') then b\<lparr>installError := fail_message result\<rparr>
      else b\<lparr>installResult := get result ''data''\<rparr>)\<lparr>isInstalling := False\<rparr>"

definition end_context :: "js \<Rightarrow> bootstrap_page \<Rightarrow> bootstrap_page" where
  "end_context result b =
     (if \<not> truthy (get result ''ok'') then b\<lparr>contextError := fail_message result\<rparr>
      else let data = get result ''data''; d = get data ''defaults'' in
        b\<lparr>b_context := data,
          install_form := JObj [(''installScriptUrl'', get d ''installScriptUrl''), (''serviceName'', get d ''serviceName''),
            (''healthCommand'', get d ''healthCommand''), (''timeoutMs'', or_else (get d ''timeoutMs'') (jint 120000))]\<rparr>)"

definition install_options :: "js \<Rightarrow> js" where
  "install_options v = JObj
     [(''installScriptUrl'', get v ''installScriptUrl''), (''serviceName'', get v ''serviceName''),
      (''healthCommand'', get v ''healthCommand''), (''timeoutMs'', JNum (to_number (get v ''timeoutMs'')))]"

text \<open>Run without interruption they are the handlers.\<close>

lemma handlers_in_halves:
  "onCheckHost bridge (b, s) = (case checkBootstrapHost bridge s of (result, s') \<Rightarrow> (end_check result (begin_check b), s'))"
  "onInstall bridge v (b, s) =
     (case installBootstrapDaemon bridge (install_options v) s of (result, s') \<Rightarrow> (end_install result (begin_install b), s'))"
  "load_context bridge True (b, s) = (case getBootstrapContext bridge s of (result, s') \<Rightarrow> (end_context result b, s'))"
  by (auto simp: onCheckHost_def onInstall_def load_context_def begin_check_def end_check_def begin_install_def end_install_def
      end_context_def install_options_def Let_def split: prod.split)

subsection \<open>Sessions\<close>

datatype boot_task = ContextTask | CheckTask | InstallTask js

text \<open>\<open>mounts\<close> counts how often the page was mounted; a waiting call remembers for which mount it was made.\<close>

record 's boot_session =
  at_path :: string
  mounts :: nat
  boot_page :: bootstrap_page
  calls_waiting :: "(nat \<times> boot_task) list"
  main_world :: 's

definition on_bootstrap :: "'s boot_session \<Rightarrow> bool" where
  "on_bootstrap s \<longleftrightarrow> map_of app_routes (at_path s) = Some BootstrapElement"

lemma on_bootstrap_updates [simp]:
  "on_bootstrap (s\<lparr>calls_waiting := cs\<rparr>) = on_bootstrap s" "on_bootstrap (s\<lparr>boot_page := b\<rparr>) = on_bootstrap s"
  "on_bootstrap (s\<lparr>main_world := w\<rparr>) = on_bootstrap s" "on_bootstrap (s\<lparr>mounts := n\<rparr>) = on_bootstrap s"
  by (simp_all add: on_bootstrap_def)

definition call_main :: "boot_task \<Rightarrow> 's boot_session \<Rightarrow> 's boot_session" where
  "call_main t s = s\<lparr>calls_waiting := calls_waiting s @ [(mounts s, t)]\<rparr>"

text \<open>A link of the sidebar: the router keeps the page when the path stays, and mounts it anew when it comes back.\<close>

definition navigate :: "string \<Rightarrow> 's boot_session \<Rightarrow> 's boot_session" where
  "navigate path s =
     (let s1 = s\<lparr>at_path := path\<rparr> in
      if on_bootstrap s1 \<and> \<not> on_bootstrap s
      then call_main ContextTask (s1\<lparr>mounts := Suc (mounts s), boot_page := initial_bootstrap\<rparr>)
      else s1)"

text \<open>The timeout is registered with \<open>valueAsNumber\<close>.\<close>

definition field_value :: "string \<Rightarrow> string \<Rightarrow> js" where
  "field_value name t = (if name = ''timeoutMs'' then JNum (if t = [] then NaN else js_Number t) else JStr t)"

fun boot_start :: "bootstrap_action \<Rightarrow> 's boot_session \<Rightarrow> 's boot_session" where
  "boot_start OnCheckHost s = call_main CheckTask (s\<lparr>boot_page := begin_check (boot_page s)\<rparr>)"
| "boot_start OnInstall s = call_main (InstallTask (install_form (boot_page s))) (s\<lparr>boot_page := begin_install (boot_page s)\<rparr>)"
| "boot_start (SetInstall name t) s =
     s\<lparr>boot_page := (boot_page s)\<lparr>install_form := set_prop name (field_value name t) (install_form (boot_page s))\<rparr>\<rparr>"

fun run_call :: "'s bootstrap_bridge option \<Rightarrow> boot_task \<Rightarrow> 's \<Rightarrow> js \<times> 's" where
  "run_call bridge ContextTask s = getBootstrapContext bridge s"
| "run_call bridge CheckTask s = checkBootstrapHost bridge s"
| "run_call bridge (InstallTask v) s = installBootstrapDaemon bridge (install_options v) s"

fun end_task :: "boot_task \<Rightarrow> js \<Rightarrow> bootstrap_page \<Rightarrow> bootstrap_page" where
  "end_task ContextTask result = end_context result"
| "end_task CheckTask result = end_check result"
| "end_task (InstallTask v) result = end_install result"

definition arrive :: "'s bootstrap_bridge option \<Rightarrow> nat \<times> boot_task \<Rightarrow> 's boot_session \<Rightarrow> 's boot_session" where
  "arrive bridge c s =
     (case run_call bridge (snd c) (main_world s) of (result, w) \<Rightarrow>
        s\<lparr>calls_waiting := remove1 c (calls_waiting s), main_world := w,
          boot_page := if on_bootstrap s \<and> fst c = mounts s then end_task (snd c) result (boot_page s) else boot_page s\<rparr>)"

datatype boot_event = Went string | Pressed "bootstrap_action list" | Wrote string string | Arrived "nat \<times> boot_task"

inductive boot_step :: "('s bootstrap_bridge option \<Rightarrow> bool) \<Rightarrow> 's boot_session \<Rightarrow> boot_event \<Rightarrow> 's boot_session \<Rightarrow> bool"
  for bridges where
  go: "path \<in> fst ` set sidebar_links \<Longrightarrow> boot_step bridges s (Went path) (navigate path s)"
| press: "on_bootstrap s \<Longrightarrow> BootstrapPage (boot_page s) = Inr v \<Longrightarrow> acts \<in> set (map snd (presses [] [] v)) \<Longrightarrow>
    boot_step bridges s (Pressed acts) (fold boot_start acts s)"
| enter: "on_bootstrap s \<Longrightarrow> BootstrapPage (boot_page s) = Inr v \<Longrightarrow> acts \<in> set (enter_key v) \<Longrightarrow>
    boot_step bridges s (Pressed acts) (fold boot_start acts s)"
| fill: "on_bootstrap s \<Longrightarrow> BootstrapPage (boot_page s) = Inr v \<Longrightarrow> (name, change) \<in> set (text_fields v) \<Longrightarrow>
    boot_step bridges s (Wrote name t) (boot_start (change t) s)"
| answer: "bridges bridge \<Longrightarrow> c \<in> set (calls_waiting s) \<Longrightarrow> boot_step bridges s (Arrived c) (arrive bridge c s)"

inductive_cases boot_stepE [elim]: "boot_step bridges s e s'"

definition opened_app :: "string \<Rightarrow> 's \<Rightarrow> 's boot_session" where
  "opened_app path w = navigate path \<lparr>at_path = [], mounts = 0, boot_page = initial_bootstrap, calls_waiting = [], main_world = w\<rparr>"

inductive boot_reachable :: "('s bootstrap_bridge option \<Rightarrow> bool) \<Rightarrow> 's boot_session \<Rightarrow> bool" for bridges where
  start: "boot_reachable bridges (opened_app path w)"
| step: "boot_reachable bridges s \<Longrightarrow> boot_step bridges s e s' \<Longrightarrow> boot_reachable bridges s'"

subsection \<open>When the page renders\<close>

definition none_or :: "ts_type \<Rightarrow> js \<Rightarrow> bool" where
  "none_or t v \<longleftrightarrow> v = JNull \<or> has_type t v"

definition page_typed :: "bootstrap_page \<Rightarrow> bool" where
  "page_typed b \<longleftrightarrow> none_or BootstrapContextResponse (b_context b) \<and> none_or TsString (contextError b) \<and>
     none_or BootstrapCheckHostResponse (checkResult b) \<and> none_or TsString (checkError b) \<and>
     none_or BootstrapInstallDaemonResponse (installResult b) \<and> none_or TsString (installError b)"

lemma typed_renderable [simp]:
  "has_type TsString v \<Longrightarrow> renderable v" "has_type TsNumber v \<Longrightarrow> renderable v" "has_type TsBoolean v \<Longrightarrow> renderable v"
  by (cases v; simp)+

lemma renders_titled [simp]: "renders (titled title r) \<longleftrightarrow> renders r"
  by (simp add: titled_def)

lemma renders_child_of [simp]: "renders (child_of v k) \<longleftrightarrow> \<not> missing v \<and> renderable (get v k)"
  by (simp add: child_of_def)

lemma none_or_renderable: "none_or TsString v \<Longrightarrow> renderable v"
  by (auto simp: none_or_def is_str_iff)

lemma obj_present: "is_obj v \<Longrightarrow> \<not> missing v"
  by (auto simp: is_obj_iff missing_def)

lemma field_typed: "has_type (TsObject fs) v \<Longrightarrow> (k, False, t) \<in> set fs \<Longrightarrow> has_type t (get v k)"
  by (auto simp: list_all_iff)

lemma optional_typed: "has_type (TsObject fs) v \<Longrightarrow> (k, True, t) \<in> set fs \<Longrightarrow> get v k = JUndef \<or> has_type t (get v k)"
  by (auto simp: list_all_iff)

lemma object_present: "has_type (TsObject fs) v \<Longrightarrow> \<not> missing v"
  by (simp add: obj_present)

lemma connection_fields:
  assumes "has_type BootstrapConnectionContext c"
  shows "\<not> missing c" "renderable (get c ''name'')" "renderable (get c ''host'')" "renderable (get c ''port'')"
    "renderable (or_else (get c ''status'') (JStr ''unknown''))"
proof -
  note t = assms [unfolded BootstrapConnectionContext_def]
  show "\<not> missing c" using t by (rule object_present)
  show "renderable (get c ''name'')" "renderable (get c ''host'')" "renderable (get c ''port'')"
    by (rule typed_renderable, rule field_typed [OF t], simp)+
  show "renderable (or_else (get c ''status'') (JStr ''unknown''))"
    using optional_typed [OF t, of "''status''" host_status] by (auto simp: host_status_def or_else_def)
qed

lemma context_connection: "has_type BootstrapContextResponse v \<Longrightarrow> has_type BootstrapConnectionContext (get v ''connection'')"
  unfolding BootstrapContextResponse_def by (erule field_typed) simp

lemma check_fields:
  assumes "has_type BootstrapCheckHostResponse v"
  shows "renderable (get v ''checkedAt'')" "renderable (get v ''latencyMs'')"
  using assms by (auto simp: BootstrapCheckHostResponse_def)

lemma install_result_renders:
  assumes "has_type BootstrapInstallDaemonResponse r"
  shows "renders (install_result r :: bootstrap_action rendering)"
  using assms by (simp add: install_result_def Let_def BootstrapInstallDaemonResponse_def or_text_def obj_present)

lemma connection_renders:
  assumes "none_or BootstrapContextResponse (b_context b)" and "none_or TsString (contextError b)"
    and "none_or BootstrapCheckHostResponse (checkResult b)" and "none_or TsString (checkError b)"
  shows "renders (connection_section b)"
proof -
  have "truthy (b_context b) \<longrightarrow> has_type BootstrapConnectionContext (get (b_context b) ''connection'')"
    "truthy (checkResult b) \<longrightarrow> has_type BootstrapCheckHostResponse (checkResult b)"
    using assms by (auto simp: none_or_def context_connection)
  then show ?thesis
    using none_or_renderable [OF assms(2)] none_or_renderable [OF assms(4)]
    by (auto simp: connection_section_def Let_def connection_fields check_fields)
qed

lemma install_renders:
  assumes "none_or BootstrapInstallDaemonResponse (installResult b)" and "none_or TsString (installError b)"
  shows "renders (install_section b)"
proof -
  have "truthy (installResult b) \<longrightarrow> has_type BootstrapInstallDaemonResponse (installResult b)"
    using assms by (auto simp: none_or_def)
  then show ?thesis using none_or_renderable [OF assms(2)] by (auto simp: install_section_def install_result_renders)
qed

lemma page_renders: "page_typed b \<Longrightarrow> renders (BootstrapPage b)"
  by (simp add: BootstrapPage_def page_typed_def connection_renders install_renders)

subsection \<open>What the page offers\<close>

text \<open>The Enter key in a component that renders, composed the way components are.\<close>

definition enters :: "'a rendering \<Rightarrow> 'a list list" where
  "enters r = (case r of Inl _ \<Rightarrow> [] | Inr v \<Rightarrow> enter_key v)"

lemma enters_simps [simp]:
  "enters (Inr v) = enter_key v" "enters (js_child x) = []" "enters (and_then x r) = (if truthy x then enters r else [])"
  by (simp_all add: enters_def js_child_def and_then_def)

lemma enters_element: "list_all renders rs \<Longrightarrow> enters (element rs) = concat (map enters rs)"
proof -
  assume "list_all renders rs"
  then obtain vs where "children rs = Inr vs" using renders_children by blast
  moreover from this have "rs = map Inr vs" by (rule children_InrD)
  ultimately show ?thesis by (simp add: element_def comp_def)
qed

lemma enters_child_of [simp]: "enters (child_of x k) = []"
  by (simp add: child_of_def enters_def js_child_def)

lemma enters_titled: "renders r \<Longrightarrow> enters (titled title r) = enters r"
  by (simp add: titled_def enters_element)

lemma enter_installs:
  assumes "renders (BootstrapPage b)"
  shows "enters (BootstrapPage b) = (if isInstalling b then [] else [[OnInstall]])"
proof -
  from assms have r: "renders (connection_section b)" "renders (install_section b)" by (simp_all add: BootstrapPage_def)
  have result: "enters (install_result x) = []" if "renders (install_result x)" for x
    using that by (auto simp: install_result_def Let_def enters_element enters_titled split: if_splits)
  have "enters (connection_section b) = []"
    using r(1) by (auto simp: connection_section_def Let_def enters_element enters_titled)
  moreover have "enters (install_section b) = (if isInstalling b then [] else [[OnInstall]])"
    using r(2) by (auto simp: install_section_def enters_element install_input_def result)
  ultimately show ?thesis using r by (simp add: BootstrapPage_def enters_element)
qed

lemma fields_edit: "all_fields (\<lambda>name change. change = SetInstall name) (BootstrapPage b)"
proof -
  have child: "all_fields P (child_of x k)" "all_fields P r \<Longrightarrow> all_fields P (titled title r)" for P x k title and r :: "bootstrap_action rendering"
    by (auto simp: child_of_def titled_def intro!: all_fields_element)
  have "all_fields P (connection_section b)" "all_fields P (install_result x)" for P x
    by (auto simp: connection_section_def install_result_def Let_def child intro!: all_fields_element)
  then show ?thesis
    by (auto simp: BootstrapPage_def install_section_def install_input_def intro!: all_fields_element)
qed

text \<open>Whatever the user does on the page is one of three actions, and never the one that is running.\<close>

lemma page_steps:
  assumes "BootstrapPage b = Inr v"
  shows "acts \<in> set (map snd (presses [] [] v)) \<Longrightarrow> acts = [OnCheckHost] \<and> \<not> isChecking b \<or> acts = [OnInstall] \<and> \<not> isInstalling b"
    and "acts \<in> set (enter_key v) \<Longrightarrow> acts = [OnInstall] \<and> \<not> isInstalling b"
    and "(name, change) \<in> set (text_fields v) \<Longrightarrow> change = SetInstall name"
proof -
  have r: "renders (BootstrapPage b)" by (simp add: assms)
  show "acts \<in> set (map snd (presses [] [] v)) \<Longrightarrow> acts = [OnCheckHost] \<and> \<not> isChecking b \<or> acts = [OnInstall] \<and> \<not> isInstalling b"
    using BootstrapPage_offers [OF r] by (simp add: assms del: set_map split: if_splits)
  show "acts \<in> set (enter_key v) \<Longrightarrow> acts = [OnInstall] \<and> \<not> isInstalling b"
    using enter_installs [OF r] by (simp add: assms split: if_splits)
  show "(name, change) \<in> set (text_fields v) \<Longrightarrow> change = SetInstall name"
    using fields_edit [of b] by (auto simp: assms list_all_iff)
qed

subsection \<open>The invariant\<close>

fun is_check :: "boot_task \<Rightarrow> bool" where
  "is_check CheckTask = True"
| "is_check _ = False"

fun is_install :: "boot_task \<Rightarrow> bool" where
  "is_install (InstallTask _) = True"
| "is_install _ = False"

text \<open>The calls of the page as it is mounted now, and those of all its mounts.\<close>

definition waiting_here :: "(boot_task \<Rightarrow> bool) \<Rightarrow> 's boot_session \<Rightarrow> nat" where
  "waiting_here P s = length (filter (\<lambda>(i, t). i = mounts s \<and> P t) (calls_waiting s))"

definition running_calls :: "(boot_task \<Rightarrow> bool) \<Rightarrow> 's boot_session \<Rightarrow> nat" where
  "running_calls P s = length (filter (\<lambda>(i, t). P t) (calls_waiting s))"

definition flags_ok :: "'s boot_session \<Rightarrow> bool" where
  "flags_ok s \<longleftrightarrow> waiting_here is_check s = of_bool (isChecking (boot_page s)) \<and> waiting_here is_install s = of_bool (isInstalling (boot_page s))"

definition boot_ok :: "'s boot_session \<Rightarrow> bool" where
  "boot_ok s \<longleftrightarrow> (\<forall>i t. (i, t) \<in> set (calls_waiting s) \<longrightarrow> i \<le> mounts s) \<and> (on_bootstrap s \<longrightarrow> page_typed (boot_page s) \<and> flags_ok s)"

lemma length_filter_weaker: "(\<And>x. P x \<Longrightarrow> Q x) \<Longrightarrow> length (filter P xs) \<le> length (filter Q xs)"
  by (induction xs) (auto intro: le_SucI)

lemma here_le_running: "waiting_here P s \<le> running_calls P s"
  unfolding waiting_here_def running_calls_def by (rule length_filter_weaker) auto

lemma boot_okI:
  "(\<And>i t. (i, t) \<in> set (calls_waiting s) \<Longrightarrow> i \<le> mounts s) \<Longrightarrow> (on_bootstrap s \<Longrightarrow> page_typed (boot_page s)) \<Longrightarrow>
     (on_bootstrap s \<Longrightarrow> flags_ok s) \<Longrightarrow> boot_ok s"
  by (simp add: boot_ok_def)

lemma fresh_mount: "\<forall>i t. (i, t) \<in> set (calls_waiting s) \<longrightarrow> i \<le> mounts s \<Longrightarrow> filter (\<lambda>(i, t). i = Suc (mounts s) \<and> P t) (calls_waiting s) = []"
  by (fastforce simp: filter_empty_conv)

lemma navigate_ok:
  assumes "boot_ok s"
  shows "boot_ok (navigate path s)"
proof (cases "on_bootstrap (s\<lparr>at_path := path\<rparr>) \<and> \<not> on_bootstrap s")
  case True
  with assms show ?thesis
    by (auto simp: boot_ok_def navigate_def call_main_def flags_ok_def waiting_here_def fresh_mount initial_bootstrap_def page_typed_def none_or_def)
next
  case False
  with assms show ?thesis
    by (intro boot_okI) (auto simp: boot_ok_def navigate_def flags_ok_def waiting_here_def, blast+)
qed

lemma boot_start_ok:
  assumes "boot_ok s" and "on_bootstrap s" and "a = OnCheckHost \<longrightarrow> \<not> isChecking (boot_page s)" and "a = OnInstall \<longrightarrow> \<not> isInstalling (boot_page s)"
  shows "boot_ok (boot_start a s)"
  using assms
  by (cases a) (auto simp: boot_ok_def call_main_def flags_ok_def waiting_here_def begin_check_def begin_install_def page_typed_def none_or_def)

lemma opened_ok: "boot_ok (opened_app path w)"
  unfolding opened_app_def by (rule navigate_ok) (simp add: boot_ok_def on_bootstrap_def app_routes_def)

subsection \<open>What the page relies on\<close>

fun answer_type :: "boot_task \<Rightarrow> ts_type" where
  "answer_type ContextTask = BootstrapContextResponse"
| "answer_type CheckTask = BootstrapCheckHostResponse"
| "answer_type (InstallTask _) = BootstrapInstallDaemonResponse"

lemma BridgeResult_cases:
  assumes "has_type (BridgeResult t) r"
  obtains "truthy (get r ''ok'')" "has_type t (get r ''data'')" | "\<not> truthy (get r ''ok'')" "has_type TsString (fail_message r)"
  using assms by (auto simp: bridge_types fail_message_def)

lemma end_task_typed:
  assumes "has_type (BridgeResult (answer_type t)) r" and "page_typed b"
  shows "page_typed (end_task t r b)"
  using assms(1) by (cases rule: BridgeResult_cases; cases t)
    (use assms(2) in \<open>auto simp: end_context_def end_check_def end_install_def page_typed_def none_or_def Let_def simp del: has_type.simps\<close>)

lemma end_task_flags:
  "isChecking (end_task t r b) = (isChecking b \<and> \<not> is_check t)" "isInstalling (end_task t r b) = (isInstalling b \<and> \<not> is_install t)"
  by (cases t; simp add: end_context_def end_check_def end_install_def Let_def)+

lemma here_answered:
  assumes "(i, t) \<in> set (calls_waiting s)"
  shows "length (filter (\<lambda>(i, t). i = mounts s \<and> P t) (remove1 (i, t) (calls_waiting s))) =
    waiting_here P s - of_bool (i = mounts s \<and> P t)"
  using assms by (auto simp: waiting_here_def filter_remove1 length_remove1)

lemma arrive_ok:
  assumes "boot_ok s" and "c \<in> set (calls_waiting s)" and "\<And>w. has_type (BridgeResult (answer_type (snd c))) (fst (run_call bridge (snd c) w))"
  shows "boot_ok (arrive bridge c s)"
proof -
  obtain i t where c: "c = (i, t)" by (cases c)
  obtain r w where r: "run_call bridge t (main_world s) = (r, w)" by fastforce
  with assms(3) [of "main_world s"] have typed: "has_type (BridgeResult (answer_type t)) r" by (simp add: c)
  let ?s = "arrive bridge c s"
  have on: "on_bootstrap ?s \<longleftrightarrow> on_bootstrap s" by (simp add: arrive_def c r)
  show ?thesis
  proof (rule boot_okI)
    show "j \<le> mounts ?s" if "(j, u) \<in> set (calls_waiting ?s)" for j u
      using that assms(1) notin_set_remove1 [of "(j, u)" "calls_waiting s" c] by (auto simp: arrive_def c r boot_ok_def)
    show "page_typed (boot_page ?s)" if "on_bootstrap ?s"
      using that assms(1) end_task_typed [OF typed] by (auto simp: on arrive_def c r boot_ok_def)
    show "flags_ok ?s" if "on_bootstrap ?s"
    proof -
      have "waiting_here P ?s = waiting_here P s - of_bool (i = mounts s \<and> P t)" for P
        using here_answered [of i t s P] assms(2) by (simp add: c arrive_def r waiting_here_def)
      moreover have "isChecking (boot_page ?s) = (isChecking (boot_page s) \<and> \<not> (i = mounts s \<and> is_check t))"
        "isInstalling (boot_page ?s) = (isInstalling (boot_page s) \<and> \<not> (i = mounts s \<and> is_install t))"
        using that on by (auto simp: arrive_def c r end_task_flags)
      ultimately show ?thesis using that assms(1) by (auto simp: on flags_ok_def boot_ok_def)
    qed
  qed
qed

locale bridge_contract =
  fixes bridges :: "'s bootstrap_bridge option \<Rightarrow> bool"
  assumes typed_answers: "bridges bridge \<Longrightarrow> has_type (BridgeResult (answer_type t)) (fst (run_call bridge t w))"
begin

lemma step_ok:
  assumes "boot_step bridges s e s'" and "boot_ok s"
  shows "boot_ok s'"
  using assms(1)
proof cases
  case (go path)
  then show ?thesis using navigate_ok [OF assms(2)] by simp
next
  case (press v acts)
  then show ?thesis using page_steps(1) [OF press(4, 5)] by (auto simp del: boot_start.simps intro!: boot_start_ok [OF assms(2)])
next
  case (enter v acts)
  then show ?thesis using page_steps(2) [OF enter(4, 5)] by (auto simp del: boot_start.simps intro!: boot_start_ok [OF assms(2)])
next
  case (fill v name change t)
  then show ?thesis using page_steps(3) [OF fill(4, 5)] by (auto simp del: boot_start.simps intro!: boot_start_ok [OF assms(2)])
next
  case (answer bridge c)
  then show ?thesis using arrive_ok [OF assms(2)] typed_answers by blast
qed

lemma reachable_ok: "boot_reachable bridges s \<Longrightarrow> boot_ok s"
  by (induction rule: boot_reachable.induct) (auto simp: opened_ok intro: step_ok)

end

text \<open>
  The bridges of a main process: its answers come with any trust in the page and at any time; in a
  browser there is none.
\<close>

definition main_bridges ::
  "bootstrap_defaults \<Rightarrow> js \<Rightarrow> ('s, js_error, unit) io \<Rightarrow> (string \<Rightarrow> rat \<Rightarrow> ('s, js_error, string) io) \<Rightarrow> 's bootstrap_bridge option \<Rightarrow> bool" where
  "main_bridges d metadata check shell b \<longleftrightarrow>
     b = None \<or> (\<exists>trusted start now. b = Some (desktop_bridge trusted d metadata check shell start now))"

definition host_bridges :: "'s bootstrap_bridge option \<Rightarrow> bool" where
  "host_bridges b \<longleftrightarrow> (\<exists>d metadata check shell. has_type HostMetadata metadata \<and> main_bridges d metadata check shell b)"

interpretation hosted: bridge_contract "host_bridges :: 's bootstrap_bridge option \<Rightarrow> bool"
proof
  fix bridge :: "'s bootstrap_bridge option" and t w
  assume "host_bridges bridge"
  then show "has_type (BridgeResult (answer_type t)) (fst (run_call bridge t w))"
    by (cases t) (auto simp: host_bridges_def main_bridges_def getBootstrapContext_def checkBootstrapHost_def installBootstrapDaemon_def
        unavailable_def desktop_bridge_def failure_typed getContext_typed checkHost_typed installDaemon_typed simp del: has_type.simps)
qed

lemma boot_reachable_mono:
  assumes "boot_reachable bridges s" and "\<And>b. bridges b \<Longrightarrow> bridges' b"
  shows "boot_reachable bridges' s"
  using assms(1)
proof induction
  case (step s e s')
  from step.hyps(2) have "boot_step bridges' s e s'" by cases (use assms(2) in \<open>auto simp del: set_map intro: boot_step.intros\<close>)
  with step.IH show ?case by (rule boot_reachable.step)
qed (rule boot_reachable.start)

lemma started_reachable_ok:
  assumes "start_main repository resolved w = (Inr (d, runtime), w')" and "boot_reachable (main_bridges d (rt_metadata runtime) check shell) s"
  shows "boot_ok s"
proof -
  obtain envPath w1 where "createSshRuntime repository envPath w1 = (Inr runtime, w')" using start_main_runtime [OF assms(1)] by blast
  then have "has_type HostMetadata (rt_metadata runtime)" by (rule runtime_metadata_typed)
  then have "host_bridges b" if "main_bridges d (rt_metadata runtime) check shell b" for b using that unfolding host_bridges_def by blast
  then show ?thesis using boot_reachable_mono [OF assms(2)] hosted.reachable_ok by blast
qed

subsection \<open>Properties\<close>

text \<open>
  C14: the bootstrap page never breaks. Once the main process has started, in every session, whatever
  the user clicks, types and visits, in whatever order the answers come and whatever the host and the
  network did to them: while the page is shown it renders, and each of its buttons is disabled exactly
  while one call of that kind made from this page is waiting. So every answer is shown and none leaves
  a button disabled.
\<close>

theorem bootstrap_page_never_throws:
  assumes "start_main repository resolved w = (Inr (d, runtime), w')"
    and "boot_reachable (main_bridges d (rt_metadata runtime) check shell) s" and "on_bootstrap s"
  shows "renders (BootstrapPage (boot_page s)) \<and>
    waiting_here is_check s = of_bool (isChecking (boot_page s)) \<and> waiting_here is_install s = of_bool (isInstalling (boot_page s))"
  using started_reachable_ok [OF assms(1, 2)] assms(3) by (auto simp: boot_ok_def flags_ok_def page_renders)

lemma fresh_page:
  obtains v where "BootstrapPage initial_bootstrap = Inr v" "[OnInstall] \<in> set (map snd (presses [] [] v))"
proof -
  have r: "renders (BootstrapPage initial_bootstrap)" by (rule page_renders) (simp add: initial_bootstrap_def page_typed_def none_or_def)
  then obtain v where "BootstrapPage initial_bootstrap = Inr v" by (cases "BootstrapPage initial_bootstrap") auto
  with BootstrapPage_offers [OF r] that show thesis by (simp add: initial_bootstrap_def del: set_map)
qed

lemma opened_on_bootstrap: "on_bootstrap (opened_app ''/bootstrap'' w)"
  by (simp add: opened_app_def navigate_def call_main_def on_bootstrap_def app_routes_def)

theorem bootstrap_page_never_throws_witness:
  "\<exists>d runtime w'. start_main (KeytarSecretsRepository DEFAULT_SERVICE (Inr memory_keytar)) [] quiet_desktop = (Inr (d, runtime), w') \<and>
     renders (BootstrapPage (boot_page (opened_app ''/bootstrap'' ([], []) :: host_script boot_session)))"
proof -
  obtain d runtime w' where s: "start_main (KeytarSecretsRepository DEFAULT_SERVICE (Inr memory_keytar)) [] quiet_desktop = (Inr (d, runtime), w')"
    using quiet_start by blast
  from bootstrap_page_never_throws [where check = "ret ()" and shell = scripted_shell, OF s boot_reachable.start opened_on_bootstrap] s
  show ?thesis by blast
qed

text \<open>
  C30: the button that guards an installation guards only its own page. While an installation runs, a
  visit to another page and back is enough: the page is mounted with its initial state, offers the
  installation again, and pressing the button starts a second one on the same host beside the first.
\<close>

theorem second_installation:
  assumes "start_main repository resolved w = (Inr (d, runtime), w')"
    and "boot_reachable (main_bridges d (rt_metadata runtime) check shell) s" and "on_bootstrap s" and "isInstalling (boot_page s)"
  shows "\<exists>s1 s2 s3. boot_step (main_bridges d (rt_metadata runtime) check shell) s (Went ''/'') s1 \<and>
    boot_step (main_bridges d (rt_metadata runtime) check shell) s1 (Went ''/bootstrap'') s2 \<and>
    boot_step (main_bridges d (rt_metadata runtime) check shell) s2 (Pressed [OnInstall]) s3 \<and> 2 \<le> running_calls is_install s3"
proof -
  let ?B = "main_bridges d (rt_metadata runtime) check shell"
  let ?s1 = "navigate ''/'' s" let ?s2 = "navigate ''/bootstrap'' ?s1" let ?s3 = "fold boot_start [OnInstall] ?s2"
  have home: "?s1 = s\<lparr>at_path := ''/''\<rparr>" by (simp add: navigate_def on_bootstrap_def app_routes_def)
  have again: "?s2 = call_main ContextTask (s\<lparr>at_path := ''/bootstrap'', mounts := Suc (mounts s), boot_page := initial_bootstrap\<rparr>)"
    unfolding home by (simp add: navigate_def on_bootstrap_def app_routes_def)
  obtain v where v: "BootstrapPage initial_bootstrap = Inr v" "[OnInstall] \<in> set (map snd (presses [] [] v))" by (rule fresh_page)
  have "boot_step ?B s (Went ''/'') ?s1" "boot_step ?B ?s1 (Went ''/bootstrap'') ?s2"
    by (rule boot_step.go; force simp: sidebar_links_def)+
  moreover have "boot_step ?B ?s2 (Pressed [OnInstall]) ?s3"
    by (rule boot_step.press [OF _ _ v(2)]) (simp_all add: again call_main_def on_bootstrap_def app_routes_def v(1))
  moreover have "2 \<le> running_calls is_install ?s3"
  proof -
    have "1 \<le> running_calls is_install s"
      using started_reachable_ok [OF assms(1, 2)] assms(3, 4) here_le_running [of is_install s] by (simp add: boot_ok_def flags_ok_def)
    then show ?thesis by (simp add: again call_main_def running_calls_def)
  qed
  ultimately show ?thesis by blast
qed

definition installing_session :: "host_script boot_session" where
  "installing_session = boot_start OnInstall (opened_app ''/bootstrap'' ([], []))"

lemma installing_reachable: "boot_reachable bridges installing_session"
  "on_bootstrap installing_session" "isInstalling (boot_page installing_session)"
proof -
  let ?s = "opened_app ''/bootstrap'' ([], []) :: host_script boot_session"
  obtain v where v: "BootstrapPage initial_bootstrap = Inr v" "[OnInstall] \<in> set (map snd (presses [] [] v))" by (rule fresh_page)
  have page: "boot_page ?s = initial_bootstrap"
    by (simp add: opened_app_def navigate_def call_main_def on_bootstrap_def app_routes_def)
  have "boot_step bridges ?s (Pressed [OnInstall]) (fold boot_start [OnInstall] ?s)"
    by (rule boot_step.press [OF opened_on_bootstrap _ v(2)]) (simp add: page v(1))
  then show "boot_reachable bridges installing_session"
    using boot_reachable.step [OF boot_reachable.start] by (simp add: installing_session_def del: boot_start.simps)
  show "on_bootstrap installing_session" "isInstalling (boot_page installing_session)"
    using opened_on_bootstrap by (simp_all add: installing_session_def call_main_def begin_install_def)
qed

theorem second_installation_witness:
  "\<exists>d runtime w' s1 s2 s3. start_main (KeytarSecretsRepository DEFAULT_SERVICE (Inr memory_keytar)) [] quiet_desktop = (Inr (d, runtime), w') \<and>
     boot_step (main_bridges d (rt_metadata runtime) (ret ()) scripted_shell) installing_session (Went ''/'') s1 \<and>
     boot_step (main_bridges d (rt_metadata runtime) (ret ()) scripted_shell) s1 (Went ''/bootstrap'') s2 \<and>
     boot_step (main_bridges d (rt_metadata runtime) (ret ()) scripted_shell) s2 (Pressed [OnInstall]) s3 \<and> 2 \<le> running_calls is_install s3"
proof -
  obtain d runtime w' where s: "start_main (KeytarSecretsRepository DEFAULT_SERVICE (Inr memory_keytar)) [] quiet_desktop = (Inr (d, runtime), w')"
    using quiet_start by blast
  from second_installation [where check = "ret ()" and shell = scripted_shell, OF s installing_reachable] s show ?thesis by blast
qed

end
