(* ===== verification/Ssh_Log.thy ===== *)
theory Ssh_Log
  imports Bootstrap
begin

text \<open>
  What the desktop writes to its log: \<open>log\<close> and \<open>getConnectionMeta\<close> of
  \<open>apps/desktop/src/main/ssh/SSHConnectionManager.ts\<close>, the lines its handlers write, those of
  \<open>SSHExecutor.ts\<close>, and the lines of \<open>main.ts\<close> about the SSH runtime. The machines of
  \<open>Ssh_Connection\<close> and \<open>Ssh_Executor\<close> run unchanged; here each of their steps is given the lines it
  writes. The properties are of the form: two runs that differ only in secrets write the same log.
\<close>

subsection \<open>Lines\<close>

datatype log_level = LogInfo | LogWarn | LogError

text \<open>A line of the console; its second argument is \<open>undefined\<close> when there is none.\<close>

record log_line =
  line_level :: log_level
  line_text :: string
  line_meta :: js

definition write_line :: "string \<Rightarrow> log_level \<Rightarrow> string \<Rightarrow> js \<Rightarrow> log_line" where
  "write_line logPrefix lvl message meta =
     \<lparr>line_level = lvl, line_text = logPrefix @ '' '' @ message, line_meta = (if meta = JUndef then JUndef else sanitizeForJson meta)\<rparr>"

definition manager_line :: "log_level \<Rightarrow> string \<Rightarrow> js \<Rightarrow> log_line" where
  "manager_line = write_line ''[ssh][manager]''"

definition executor_line :: "log_level \<Rightarrow> string \<Rightarrow> js \<Rightarrow> log_line" where
  "executor_line = write_line ''[ssh][executor]''"

subsection \<open>The connection manager\<close>

definition keepalive :: "js \<Rightarrow> js \<Rightarrow> props" where
  "keepalive config options =
     [(''keepaliveInterval'', or_else (get options ''keepaliveInterval'') (or_else (get config ''keepaliveInterval'') (jint 15000))),
      (''keepaliveCountMax'', or_else (get options ''keepaliveCountMax'') (or_else (get config ''keepaliveCountMax'') (jint 3)))]"

definition getConnectionMeta :: "js \<Rightarrow> js \<Rightarrow> js" where
  "getConnectionMeta config options =
     JObj ([(''host'', get config ''host''), (''port'', get config ''port'')] @ keepalive config options)"

text \<open>What \<open>connect\<close> hands to the client: the whole configuration, secrets included.\<close>

definition client_config :: "js \<Rightarrow> js \<Rightarrow> js" where
  "client_config config options = (case config of JObj ps \<Rightarrow> JObj (spread ps (keepalive config options)) | _ \<Rightarrow> JObj (keepalive config options))"

text \<open>
  The listeners of a signal run in the order they were added: that of an attempt, then those of the
  calls that wait for it, then those of the next attempt.
\<close>

definition abort_lines :: "nat \<Rightarrow> manager \<Rightarrow> log_line list" where
  "abort_lines i m = concat (map (\<lambda>n.
     (let a = attempts m ! n in
      if att_signal a = Some i \<and> listening a \<and> \<not> att_settled a then [manager_line LogWarn ''SSH connect aborted by signal'' JUndef] else []) @
     map (\<lambda>c. manager_line LogWarn ''Pending SSH operation aborted by signal'' JUndef)
       (filter (\<lambda>c. call_attempt c = n \<and> call_signal c = Some i \<and> call_outcome c = Waiting) (calls m)))
     [0..<length (attempts m)])"

fun manager_lines :: "js \<Rightarrow> js \<Rightarrow> event \<Rightarrow> manager \<Rightarrow> log_line list" where
  "manager_lines config options (GetClient signal) m =
     (if shuttingDown m then [manager_line LogWarn ''Client requested during shutdown'' JUndef]
      else if activeClient m \<noteq> None then [manager_line LogInfo ''Reusing active SSH client'' JUndef]
      else if connectPromise m = None then
        manager_line LogInfo ''Creating new SSH connection'' (getConnectionMeta config options) #
        (if is_aborted signal m then [manager_line LogWarn ''SSH connect aborted by signal'' JUndef] else [])
      else [manager_line LogInfo ''Waiting for in-flight SSH connection attempt'' JUndef])"
| "manager_lines config options Shutdown m =
     (if activeClient m = None then [manager_line LogInfo ''Shutdown requested with no active SSH client'' JUndef]
      else [manager_line LogInfo ''Shutting down active SSH client'' JUndef])"
| "manager_lines config options (ShutdownDone c) m = [manager_line LogInfo ''SSH client shutdown complete'' JUndef]"
| "manager_lines config options (Abort i) m = abort_lines i m"
| "manager_lines config options (ClientReady n) m =
     (if listening (attempts m ! n) \<and> \<not> att_settled (attempts m ! n)
      then [manager_line LogInfo ''SSH connection is ready'' (getConnectionMeta config options)] else [])"
| "manager_lines config options (ClientError n msg) m =
     (let a = attempts m ! n in
      if listening a then
        (if att_settled a then []
         else [manager_line LogError ''SSH connection failed'' (JObj [(''message'', JStr (redactPotentialSecrets msg))])])
      else if watched a then [manager_line LogWarn ''Active SSH client emitted error and was invalidated'' JUndef]
      else [])"
| "manager_lines config options (ClientClose n) m =
     (if watched (attempts m ! n) then [manager_line LogInfo ''Active SSH client closed and was invalidated'' JUndef] else [])"
| "manager_lines config options _ m = []"

text \<open>A run of the manager with what it writes.\<close>

inductive logged_run :: "js \<Rightarrow> js \<Rightarrow> manager \<Rightarrow> event list \<Rightarrow> log_line list \<Rightarrow> manager \<Rightarrow> bool" for config options where
  stop: "logged_run config options m [] [] m"
| step: "manager_step m e m' \<Longrightarrow> logged_run config options m' es lines m'' \<Longrightarrow>
    logged_run config options m (e # es) (manager_lines config options e m @ lines) m''"

inductive_simps logged_run_simps: "logged_run config options m [] lines m'" "logged_run config options m (e # es) lines m'"

subsection \<open>The executor\<close>

fun exec_lines :: "js \<Rightarrow> exec_event \<Rightarrow> exec_state \<Rightarrow> log_line list" where
  "exec_lines timeoutMs (OpenFailed msg) st = [executor_line LogError ''Failed to open SSH exec channel'' (JObj [(''message'', JStr msg)])]"
| "exec_lines timeoutMs (StreamClosed code) st =
     (if code \<noteq> jint 0 then
        [executor_line LogError ''SSH command exited with non-zero code''
           (JObj [(''code'', code), (''stderrLength'', jint (int (length (trim (ex_stderr st)))))])]
      else [executor_line LogInfo ''SSH command stream closed successfully'' JUndef])"
| "exec_lines timeoutMs TimerFired st =
     (if armed st then [executor_line LogWarn ''SSH command timed out'' (JObj [(''timeoutMs'', timeoutMs)])] else [])"
| "exec_lines timeoutMs SignalAborted st = (if armed st then [executor_line LogWarn ''SSH command aborted'' JUndef] else [])"
| "exec_lines timeoutMs _ st = []"

fun exec_log :: "js \<Rightarrow> exec_state \<Rightarrow> exec_event list \<Rightarrow> log_line list" where
  "exec_log timeoutMs st [] = []"
| "exec_log timeoutMs st (e # es) = exec_lines timeoutMs e st @ exec_log timeoutMs (exec_event_step e st) es"

definition execOnClient_log :: "js \<Rightarrow> bool \<Rightarrow> exec_event list \<Rightarrow> log_line list" where
  "execOnClient_log timeoutMs aborted events =
     (if aborted then [executor_line LogWarn ''SSH command aborted'' JUndef] else []) @ exec_log timeoutMs (start_exec aborted) events"

text \<open>\<open>error instanceof Error ? error.message : String(error)\<close>.\<close>

fun error_text :: "js_error \<Rightarrow> string" where
  "error_text (Thrown v) = js_to_string v"
| "error_text e = err_message e"

text \<open>The retry loop, with the log beside the state of the world.\<close>

function retry_logged ::
  "string \<Rightarrow> int \<Rightarrow> ('s, js_error, string) io \<Rightarrow> (int \<Rightarrow> ('s, js_error, unit) io) \<Rightarrow> int \<Rightarrow> int \<Rightarrow> js_error option \<Rightarrow>
   ('s \<times> log_line list, js_error, string) io" where
  "retry_logged name base run wait totalAttempts attempt lastError (s, l) =
     (if attempt < totalAttempts then
        (let here = [(''command'', JStr name), (''attempt'', jint (attempt + 1)), (''totalAttempts'', jint totalAttempts)];
             l1 = l @ [executor_line LogInfo ''Executing over SSH'' (JObj here)] in
         case run s of
           (Inr output, s1) \<Rightarrow> (Inr output, (s1, l1))
         | (Inl e, s1) \<Rightarrow>
             let l2 = l1 @ [executor_line LogWarn ''SSH execution attempt failed''
                   (JObj (here @ [(''error'', JStr (redactPotentialSecrets (error_text e)))]))] in
             if \<not> shouldRetry e (attempt + 1) totalAttempts
             then (Inl e, (s1, l2 @ [executor_line LogError ''SSH execution failed with no retries left'' (JObj here)]))
             else let l3 = l2 @ [executor_line LogInfo ''Retrying SSH execution with backoff''
                   (JObj [(''command'', JStr name), (''delayMs'', jint (base * 2 ^ nat attempt))])] in
               (case wait (base * 2 ^ nat attempt) s1 of
                  (Inl e', s2) \<Rightarrow> (Inl e', (s2, l3 @ [executor_line LogWarn ''SSH retry delay aborted'' JUndef]))
                | (Inr _, s2) \<Rightarrow> retry_logged name base run wait totalAttempts (attempt + 1) (Some e) (s2, l3)))
      else (Inl (case lastError of
          Some e \<Rightarrow> if is_error e then e else RemoteExecutionError ''SSH execution failed'' ''SSH_EXEC_FAILED''
        | None \<Rightarrow> RemoteExecutionError ''SSH execution failed'' ''SSH_EXEC_FAILED''), (s, l)))"
  by auto
termination
  by (relation "measure (\<lambda>(_, _, _, _, totalAttempts, attempt, _, _). nat (totalAttempts - attempt))") auto

declare retry_logged.simps [simp del]

subsection \<open>The main process\<close>

definition safeErrorMessage :: "js_error \<Rightarrow> string" where
  "safeErrorMessage e = redactPotentialSecrets (error_text e)"

fun error_name :: "js_error \<Rightarrow> js" where
  "error_name (Error _) = JStr ''Error''"
| "error_name (ZodError _ _) = JStr ''ZodError''"
| "error_name (RemoteExecutionError _ _) = JStr ''RemoteExecutionError''"
| "error_name (SecretsRepositoryError _ _) = JStr ''SecretsRepositoryError''"
| "error_name (Thrown _) = JUndef"

definition safeErrorMeta :: "js_error \<Rightarrow> js" where
  "safeErrorMeta e = JObj [(''name'', error_name e), (''message'', JStr (safeErrorMessage e)),
     (''code'', case e of SecretsRepositoryError _ code \<Rightarrow> JStr code | _ \<Rightarrow> JUndef)]"

text \<open>These lines go to the console as they are.\<close>

definition main_line :: "log_level \<Rightarrow> string \<Rightarrow> js \<Rightarrow> log_line" where
  "main_line lvl message meta = \<lparr>line_level = lvl, line_text = ''[main][ssh] '' @ message, line_meta = meta\<rparr>"

text \<open>The migration, by its result.\<close>

definition migration_lines :: "js_error + migration_result \<Rightarrow> log_line list" where
  "migration_lines r =
     (case r of
        Inr m \<Rightarrow>
          (if migrated m then [main_line LogInfo ''Migrated SSH credentials to secure storage''
             (JObj [(''hostId'', JStr (mig_hostId m)), (''cleanedEnvFile'', JBool (cleanedEnvFile m))])] else [])
      | Inl e \<Rightarrow>
          [main_line LogError ''Secure credential migration failed''
             (JObj [(''code'', JStr (case e of SecretsRepositoryError _ code \<Rightarrow> code | _ \<Rightarrow> ''MIGRATION_FAILED'')),
                (''message'', JStr (safeErrorMessage e))])])"

definition init_lines :: "ssh_runtime \<Rightarrow> log_line list" where
  "init_lines runtime =
     (let usesPassword = truthy (rt_password runtime); usesPrivateKey = truthy (rt_privateKey runtime) in
      main_line LogInfo ''SSH executor init''
        (JObj [(''hostId'', get (rt_metadata runtime) ''id''), (''host'', get (rt_metadata runtime) ''host''),
           (''port'', get (rt_metadata runtime) ''port''), (''usesPassword'', JBool usesPassword), (''usesPrivateKey'', JBool usesPrivateKey),
           (''cliPath'', JStr (cliPath (rt_executor runtime)))]) #
      (if \<not> usesPassword \<and> \<not> usesPrivateKey then [main_line LogWarn ''Neither SSH password nor private key is configured.'' JUndef] else []))"

definition health_lines :: "ssh_runtime \<Rightarrow> js_error + unit \<Rightarrow> log_line list" where
  "health_lines runtime r =
     (if \<not> hasAuth runtime then [main_line LogWarn ''Startup SSH health check skipped: no SSH auth configured'' JUndef]
      else case r of
        Inr _ \<Rightarrow> [main_line LogInfo ''Startup SSH health check passed'' JUndef]
      | Inl e \<Rightarrow> [main_line LogError ''Startup SSH health check failed'' (safeErrorMeta e)])"

text \<open>What the runtime gives the connection manager.\<close>

definition ssh_config :: "ssh_runtime \<Rightarrow> js" where
  "ssh_config runtime = JObj [(''host'', JStr (rt_host runtime)), (''username'', rt_username runtime), (''port'', JNum (rt_port runtime)),
     (''password'', rt_password runtime), (''privateKey'', rt_privateKey runtime), (''passphrase'', rt_passphrase runtime)]"

definition ssh_options :: js where
  "ssh_options = JObj [(''keepaliveInterval'', jint 15000), (''keepaliveCountMax'', jint 3), (''maxRetries'', jint 1), (''retryBaseDelayMs'', jint 250)]"

subsection \<open>Runs that differ in secrets only\<close>

text \<open>
  Messages of the client that redaction makes equal. What an uncaught error leaves behind is not
  redacted, but nothing reads it.
\<close>

definition event_alike :: "event \<Rightarrow> event \<Rightarrow> bool" where
  "event_alike e e' \<longleftrightarrow> e = e' \<or>
     (\<exists>n msg msg'. e = ClientError n msg \<and> e' = ClientError n msg' \<and> redactPotentialSecrets msg = redactPotentialSecrets msg')"

definition manager_alike :: "manager \<Rightarrow> manager \<Rightarrow> bool" where
  "manager_alike m m' \<longleftrightarrow> (\<exists>u. m' = m\<lparr>uncaught := u\<rparr>)"

lemmas manager_handlers = getClient_def shutdown_def shutdown_complete_def abort_def emit_ready_def onReady_def emit_error_def onError_def
  emit_close_def invalidate_def withAbort_def new_call_def connect_def new_attempt_def upd_attempt_def is_aborted_def deliver_def

lemma handlers_ignore_uncaught:
  "getClient signal (m\<lparr>uncaught := u\<rparr>) = (getClient signal m)\<lparr>uncaught := u\<rparr>"
  "shutdown (m\<lparr>uncaught := u\<rparr>) = (shutdown m)\<lparr>uncaught := u\<rparr>"
  "shutdown_complete c (m\<lparr>uncaught := u\<rparr>) = (shutdown_complete c m)\<lparr>uncaught := u\<rparr>"
  "abort i (m\<lparr>uncaught := u\<rparr>) = (abort i m)\<lparr>uncaught := u\<rparr>"
  "emit_ready n (m\<lparr>uncaught := u\<rparr>) = (emit_ready n m)\<lparr>uncaught := u\<rparr>"
  "emit_close n (m\<lparr>uncaught := u\<rparr>) = (emit_close n m)\<lparr>uncaught := u\<rparr>"
  "deliver k (m\<lparr>uncaught := u\<rparr>) = (deliver k m)\<lparr>uncaught := u\<rparr>"
  by (auto simp: manager_handlers Let_def split: option.split)

lemma emit_error_alike:
  "redactPotentialSecrets msg = redactPotentialSecrets msg' \<Longrightarrow> \<exists>u'. emit_error n msg' (m\<lparr>uncaught := u\<rparr>) = (emit_error n msg m)\<lparr>uncaught := u'\<rparr>"
  by (auto simp: manager_handlers Let_def intro: exI [of _ u])

lemma step_alike:
  assumes "manager_step m e m1" and "event_alike e e'" and "manager_alike m m'"
  shows "\<exists>m1'. manager_step m' e' m1' \<and> manager_alike m1 m1'"
proof -
  from assms(3) obtain u where m': "m' = m\<lparr>uncaught := u\<rparr>" by (auto simp: manager_alike_def)
  show ?thesis
    using assms(1)
  proof cases
    case (ClientError n msg)
    with assms(2) obtain msg' where e': "e' = ClientError n msg'" "redactPotentialSecrets msg = redactPotentialSecrets msg'"
      by (auto simp: event_alike_def)
    from emit_error_alike [OF e'(2), where n = n and m = m and u = u] ClientError e'(1) m'
      manager_step.ClientError [of n m' msg'] show ?thesis by (auto simp: manager_alike_def)
  next
    case (Finally n)
    then have "manager_step m' e' (m'\<lparr>connectPromise := None\<rparr>)" using assms(2) m' by (auto simp: event_alike_def)
    moreover have "m'\<lparr>connectPromise := None\<rparr> = m\<lparr>connectPromise := None\<rparr>\<lparr>uncaught := u\<rparr>" by (simp add: m')
    ultimately show ?thesis using Finally unfolding manager_alike_def by blast
  next
    case (Deliver k)
    then have "manager_step m' e' (deliver k m')" using assms(2) m' by (auto simp: event_alike_def)
    with Deliver m' show ?thesis unfolding manager_alike_def by (auto simp: handlers_ignore_uncaught)
  qed (use assms(2) m' in \<open>fastforce simp: event_alike_def manager_alike_def handlers_ignore_uncaught intro: manager_step.intros\<close>)+
qed

text \<open>Configurations that agree on what \<open>getConnectionMeta\<close> reads.\<close>

definition meta_alike :: "js \<Rightarrow> js \<Rightarrow> js \<Rightarrow> bool" where
  "meta_alike options c c' \<longleftrightarrow> getConnectionMeta c options = getConnectionMeta c' options"

lemma lines_alike:
  assumes "meta_alike options c c'" and "event_alike e e'" and "manager_alike m m'"
  shows "manager_lines c options e m = manager_lines c' options e' m'"
  using assms by (cases e) (auto simp: event_alike_def manager_alike_def meta_alike_def abort_lines_def is_aborted_def Let_def split: option.split)

lemma run_alike:
  assumes "logged_run c options m es lines m1" and "list_all2 event_alike es es'" and "manager_alike m m'" and "meta_alike options c c'"
  shows "\<exists>m1'. logged_run c' options m' es' lines m1'"
  using assms
proof (induction arbitrary: m' es' rule: logged_run.induct)
  case (step m e m1 es lines m2)
  from step.prems(1) obtain e' es1 where es': "es' = e' # es1" "event_alike e e'" "list_all2 event_alike es es1" by (auto simp: list_all2_Cons1)
  from step_alike [OF step.hyps(1) es'(2) step.prems(2)] obtain m1' where m1': "manager_step m' e' m1'" "manager_alike m1 m1'" by blast
  from step.IH [OF es'(3) m1'(2) step.prems(3)] obtain m2' where "logged_run c' options m1' es1 lines m2'" by blast
  with logged_run.step [OF m1'(1)] lines_alike [OF step.prems(3) es'(2) step.prems(2)] show ?case by (metis es'(1))
qed (auto intro: logged_run.stop)

definition clean_line :: "log_line \<Rightarrow> bool" where
  "clean_line l \<longleftrightarrow> \<not> hasSensitiveFieldName (line_meta l)"

lemma write_line_clean [simp]: "clean_line (write_line logPrefix lvl message meta)"
  by (simp add: clean_line_def write_line_def sanitize_no_sensitive)

lemma manager_lines_clean: "list_all clean_line (manager_lines config options e m)"
  by (cases e) (auto simp: manager_line_def abort_lines_def list_all_iff Let_def)

lemma run_clean: "logged_run config options m es lines m' \<Longrightarrow> list_all clean_line lines"
  by (induction rule: logged_run.induct) (simp_all add: manager_lines_clean)

text \<open>For an execution: what the command prints, and messages that redaction makes equal.\<close>

definition exec_alike :: "exec_event \<Rightarrow> exec_event \<Rightarrow> bool" where
  "exec_alike e e' \<longleftrightarrow> e = e' \<or> (\<exists>out out'. e = StdoutData out \<and> e' = StdoutData out') \<or>
     (\<exists>msg msg'. e = OpenFailed msg \<and> e' = OpenFailed msg' \<and> redactPotentialSecrets msg = redactPotentialSecrets msg')"

definition exec_state_alike :: "exec_state \<Rightarrow> exec_state \<Rightarrow> bool" where
  "exec_state_alike st st' \<longleftrightarrow> (\<exists>out r. st' = st\<lparr>ex_stdout := out, ex_outcome := r\<rparr> \<and> (r = None \<longleftrightarrow> ex_outcome st = None))"

lemma exec_step_alike:
  assumes "exec_alike e e'" and "exec_state_alike st st'"
  shows "exec_state_alike (exec_event_step e st) (exec_event_step e' st')"
proof -
  from assms(2) obtain out r where st': "st' = st\<lparr>ex_stdout := out, ex_outcome := r\<rparr>" "r = None \<longleftrightarrow> ex_outcome st = None"
    by (auto simp: exec_state_alike_def)
  with assms(1) show ?thesis
    by (cases st; cases e) (auto simp: exec_alike_def exec_state_alike_def exec_handlers)
qed

lemma exec_lines_alike: "exec_alike e e' \<Longrightarrow> exec_state_alike st st' \<Longrightarrow> exec_lines timeoutMs e st = exec_lines timeoutMs e' st'"
  by (cases e) (auto simp: exec_alike_def exec_state_alike_def executor_line_def write_line_def)

lemma exec_log_alike:
  "list_all2 exec_alike es es' \<Longrightarrow> exec_state_alike st st' \<Longrightarrow> exec_log timeoutMs st es = exec_log timeoutMs st' es'"
proof (induction es es' arbitrary: st st' rule: list_all2_induct)
  case (Cons e es e' es')
  then show ?case using exec_lines_alike [OF Cons.hyps(1) Cons.prems] exec_step_alike [OF Cons.hyps(1) Cons.prems] by simp
qed simp

text \<open>Logging does not change what the loop does.\<close>

lemma executor_line_clean [simp]: "clean_line (executor_line lvl message meta)"
  by (simp add: executor_line_def)

definition extends_log :: "log_line list \<Rightarrow> log_line list \<Rightarrow> bool" where
  "extends_log l l' \<longleftrightarrow> (\<exists>new. l' = l @ new \<and> list_all clean_line new)"

lemma extends_log_simps [simp]: "extends_log l l" "list_all clean_line new \<Longrightarrow> extends_log l (l @ new)"
  by (auto simp: extends_log_def)

lemma extends_log_trans: "extends_log l l' \<Longrightarrow> extends_log l' l'' \<Longrightarrow> extends_log l l''"
  by (auto simp: extends_log_def)

lemma logged_again:
  assumes "attempt < totalAttempts" and "run s = (Inl e, s1)" and "shouldRetry e (attempt + 1) totalAttempts"
    and "wait (base * 2 ^ nat attempt) s1 = (Inr x, s2)"
  shows "\<exists>l3. retry_logged name base run wait totalAttempts attempt lastError (s, l) =
    retry_logged name base run wait totalAttempts (attempt + 1) (Some e) (s2, l3) \<and> extends_log l l3"
  unfolding retry_logged.simps [of name base run wait totalAttempts attempt lastError s l] using assms
  by (simp add: Let_def) (intro exI conjI, rule refl, simp)

lemma retry_logged_loop:
  assumes "retry_logged name base run wait totalAttempts attempt lastError (s, l) = (r, s', l')"
  shows "retry_loop base run wait totalAttempts attempt lastError s = (r, s') \<and> extends_log l l'"
  using assms
proof (induction "nat (totalAttempts - attempt)" arbitrary: attempt lastError s l rule: less_induct)
  case less
  note unfolded = less.prems [unfolded retry_logged.simps [of _ _ _ _ _ attempt]] retry_loop.simps [of base run wait totalAttempts attempt lastError s]
  show ?case
  proof (cases "attempt < totalAttempts")
    case False
    with unfolded show ?thesis by simp
  next
    case more_left: True
    then have m: "nat (totalAttempts - (attempt + 1)) < nat (totalAttempts - attempt)" by simp
    obtain o1 s1 where run: "run s = (o1, s1)" by fastforce
    show ?thesis
    proof (cases o1)
      case (Inr printed)
      with unfolded more_left run show ?thesis by (auto simp: Let_def)
    next
      case (Inl e)
      obtain o2 s2 where wait: "wait (base * 2 ^ nat attempt) s1 = (o2, s2)" by fastforce
      show ?thesis
      proof (cases "shouldRetry e (attempt + 1) totalAttempts \<and> \<not> isl o2")
        case False
        with unfolded more_left run wait Inl show ?thesis by (cases o2) (auto simp: Let_def split: if_splits)
      next
        case True
        then obtain x where "shouldRetry e (attempt + 1) totalAttempts" "o2 = Inr x" by (cases o2) auto
        note again = more_left run [unfolded Inl] this(1) wait [unfolded this(2)]
        from logged_again [where run = run and wait = wait and base = base and s = s and l = l and name = name and lastError = lastError, OF again] obtain l3 where
          l3: "retry_logged name base run wait totalAttempts (attempt + 1) (Some e) (s2, l3) = (r, s', l')" "extends_log l l3"
          using less.prems by auto
        have "retry_loop base run wait totalAttempts attempt lastError s = retry_loop base run wait totalAttempts (attempt + 1) (Some e) s2"
          using again by (simp add: retry_loop.simps [of base run wait totalAttempts attempt])
        with less.hyps [OF m l3(1)] extends_log_trans [OF l3(2)] show ?thesis by simp
      qed
    qed
  qed
qed

definition execWithRetry_logged ::
  "string \<Rightarrow> int \<Rightarrow> int \<Rightarrow> ('s, js_error, nat) io \<Rightarrow> (nat \<Rightarrow> string \<Rightarrow> ('s, js_error, string) io) \<Rightarrow> (int \<Rightarrow> ('s, js_error, unit) io) \<Rightarrow>
   string \<Rightarrow> ('s \<times> log_line list, js_error, string) io" where
  "execWithRetry_logged name max_retries base connection exec wait command =
     retry_logged name base (bind connection (\<lambda>client. exec client command)) wait (max_retries + 1) 0 None"

text \<open>The commands, with what they write themselves.\<close>

definition log_first :: "log_line \<Rightarrow> ('s \<times> log_line list, js_error, 'a) io \<Rightarrow> ('s \<times> log_line list, js_error, 'a) io" where
  "log_first x m = (\<lambda>(s, l). m (s, l @ [x]))"

definition ssh_execute_logged ::
  "ssh_executor \<Rightarrow> ('s, js_error, nat) io \<Rightarrow> (nat \<Rightarrow> string \<Rightarrow> ('s, js_error, string) io) \<Rightarrow> (int \<Rightarrow> ('s, js_error, unit) io) \<Rightarrow>
   string \<Rightarrow> js \<Rightarrow> js \<Rightarrow> ('s \<times> log_line list, js_error, js) io" where
  "ssh_execute_logged x connection exec wait command payload timeoutMs =
     log_first (executor_line LogInfo ''Preparing remote command execution''
         (JObj [(''command'', JStr command), (''timeoutMs'', or_else timeoutMs (jint 10000))]))
       (case remoteCommand (cliPath x) command payload of
          None \<Rightarrow> throw (Error ''The first argument must be of type string or an instance of Buffer'')
        | Some line \<Rightarrow>
            bind (execWithRetry_logged command (maxRetries x) (retryBaseDelayMs x) connection exec wait line)
              (\<lambda>out. case JSON_parse out of
                 None \<Rightarrow> throw (RemoteExecutionError ''Invalid JSON from SSH target'' ''BAD_REMOTE_PAYLOAD'')
               | Some v \<Rightarrow> log_first (executor_line LogInfo ''Remote command execution completed'' (JObj [(''command'', JStr command)])) (ret v)))"

definition runShell_logged ::
  "ssh_executor \<Rightarrow> ('s, js_error, nat) io \<Rightarrow> (nat \<Rightarrow> string \<Rightarrow> ('s, js_error, string) io) \<Rightarrow> (int \<Rightarrow> ('s, js_error, unit) io) \<Rightarrow>
   string \<Rightarrow> js \<Rightarrow> ('s \<times> log_line list, js_error, string) io" where
  "runShell_logged x connection exec wait command timeoutMs =
     log_first (executor_line LogInfo ''Executing bootstrap shell command'' (JObj [(''timeoutMs'', or_else timeoutMs (jint 30000))]))
       (execWithRetry_logged ''shell'' (maxRetries x) (retryBaseDelayMs x) connection exec wait command)"

definition unlogged :: "('s, js_error, 'a) io \<Rightarrow> ('s \<times> log_line list, js_error, 'a) io" where
  "unlogged m = (\<lambda>(s, l). case m s of (r, s') \<Rightarrow> (r, (s', l)))"

definition checkConnection_logged ::
  "('s, js_error, nat) io \<Rightarrow> (nat \<Rightarrow> string \<Rightarrow> ('s, js_error, string) io) \<Rightarrow> ('s \<times> log_line list, js_error, unit) io" where
  "checkConnection_logged connection exec =
     bind (unlogged connection) (\<lambda>client. bind (unlogged (exec client (''echo '' @ ssh_marker))) (\<lambda>out.
       if out \<noteq> ssh_marker then throw (RemoteExecutionError (''Unexpected SSH health-check output: '' @ out) ''SSH_HEALTHCHECK_FAILED'')
       else log_first (executor_line LogInfo ''SSH health check completed successfully'' JUndef) (ret ())))"

text \<open>\<open>logs_only m m'\<close>: \<open>m\<close> does what \<open>m'\<close> does and adds clean lines to the log.\<close>

definition logs_only :: "('s \<times> log_line list, js_error, 'a) io \<Rightarrow> ('s, js_error, 'a) io \<Rightarrow> bool" where
  "logs_only m m' \<longleftrightarrow> (\<forall>s l. case m (s, l) of (r, s', l') \<Rightarrow> m' s = (r, s') \<and> extends_log l l')"

lemma logs_onlyD: "logs_only m m' \<Longrightarrow> m (s, l) = (r, s', l') \<Longrightarrow> m' s = (r, s') \<and> extends_log l l'"
  unfolding logs_only_def by (metis (mono_tags, lifting) case_prod_conv)

lemma logs_onlyI: "(\<And>s l r s' l'. m (s, l) = (r, s', l') \<Longrightarrow> m' s = (r, s') \<and> extends_log l l') \<Longrightarrow> logs_only m m'"
  unfolding logs_only_def by (simp split: prod.split)

lemma logs_only_execWithRetry:
  "logs_only (execWithRetry_logged name max_retries base connection exec wait command) (execWithRetry max_retries base connection exec wait command)"
  by (rule logs_onlyI) (simp add: execWithRetry_logged_def execWithRetry_def retry_logged_loop)

lemma logs_only_ret [intro]: "logs_only (ret v) (ret v)" and logs_only_throw [intro]: "logs_only (throw e) (throw e)"
  by (auto simp: ret_def throw_def intro!: logs_onlyI)

lemma logs_only_first [intro]: "clean_line x \<Longrightarrow> logs_only m m' \<Longrightarrow> logs_only (log_first x m) m'"
  by (rule logs_onlyI) (auto simp: log_first_def extends_log_def dest!: logs_onlyD)

lemma logs_only_unlogged [intro]: "logs_only (unlogged m) m"
  by (rule logs_onlyI) (auto simp: unlogged_def split: prod.splits)

lemma logs_only_if [intro]: "logs_only m m' \<Longrightarrow> logs_only n n' \<Longrightarrow> logs_only (if b then m else n) (if b then m' else n')"
  by simp

lemma logs_only_option [intro]:
  "logs_only n n' \<Longrightarrow> (\<And>v. logs_only (f v) (f' v)) \<Longrightarrow> logs_only (case x of None \<Rightarrow> n | Some v \<Rightarrow> f v) (case x of None \<Rightarrow> n' | Some v \<Rightarrow> f' v)"
  by (simp split: option.split)

lemma logs_only_bind [intro]:
  assumes "logs_only m m'" and "\<And>v. logs_only (f v) (f' v)"
  shows "logs_only (bind m f) (bind m' f')"
proof (rule logs_onlyI)
  fix s l r s' l'
  assume b: "bind m f (s, l) = (r, s', l')"
  obtain r1 s1 l1 where m: "m (s, l) = (r1, s1, l1)" by (rule prod_cases3)
  note m' = logs_onlyD [OF assms(1) m]
  show "bind m' f' s = (r, s') \<and> extends_log l l'"
  proof (cases r1)
    case (Inl e)
    with b m m' show ?thesis by (simp add: bind_def)
  next
    case (Inr v)
    with b m have "f v (s1, l1) = (r, s', l')" by (simp add: bind_def)
    from logs_onlyD [OF assms(2) this] m' Inr show ?thesis by (auto simp: bind_def intro: extends_log_trans)
  qed
qed

lemma logs_only_commands:
  "logs_only (ssh_execute_logged x connection exec wait command payload timeoutMs) (ssh_execute x connection exec wait command payload)"
  "logs_only (runShell_logged x connection exec wait command timeoutMs) (runShell x connection exec wait command)"
  "logs_only (checkConnection_logged connection exec) (checkConnection connection exec)"
  unfolding ssh_execute_logged_def ssh_execute_def runShell_logged_def runShell_def checkConnection_logged_def checkConnection_def
  by (intro logs_only_first logs_only_option logs_only_bind logs_only_unlogged logs_only_if logs_only_execWithRetry logs_only_ret logs_only_throw executor_line_clean)+

subsection \<open>Properties\<close>

text \<open>Runtimes that differ in the credentials only, and not in which kinds of them there are.\<close>

definition same_but_secrets :: "ssh_runtime \<Rightarrow> ssh_runtime \<Rightarrow> bool" where
  "same_but_secrets r r' \<longleftrightarrow> rt_host r = rt_host r' \<and> rt_port r = rt_port r' \<and> rt_executor r = rt_executor r' \<and>
     rt_metadata r = rt_metadata r' \<and> hasAuth r = hasAuth r' \<and>
     truthy (rt_password r) = truthy (rt_password r') \<and> truthy (rt_privateKey r) = truthy (rt_privateKey r')"

text \<open>
  C15: the credentials of a host never reach the log. Two runtimes for the same host, with any two sets
  of user names, passwords, keys and passphrases of the same kinds, and two runs of the connection
  manager with the same events, except that the errors of the client may carry any messages that
  redaction makes equal, write line for line the same log: at the start, over every sequence of
  connections, aborts, errors and shutdowns, and for the health check. No line of the manager has a
  field with a sensitive name.
\<close>

theorem ssh_log_hides_secrets:
  assumes "same_but_secrets r r'" and "list_all2 event_alike es es'" and "logged_run (ssh_config r) ssh_options initial_manager es lines m"
  shows "(\<exists>m'. logged_run (ssh_config r') ssh_options initial_manager es' lines m') \<and> list_all clean_line lines \<and>
    init_lines r = init_lines r' \<and> health_lines r x = health_lines r' x"
proof -
  from assms(1) have "meta_alike ssh_options (ssh_config r) (ssh_config r')"
    by (simp add: same_but_secrets_def meta_alike_def getConnectionMeta_def keepalive_def ssh_config_def)
  moreover have "manager_alike initial_manager initial_manager" unfolding manager_alike_def by (rule exI [of _ "[]"]) (simp add: initial_manager_def)
  ultimately have "\<exists>m'. logged_run (ssh_config r') ssh_options initial_manager es' lines m'" using run_alike [OF assms(3, 2)] by blast
  with assms(1) run_clean [OF assms(3)] show ?thesis by (simp add: same_but_secrets_def init_lines_def health_lines_def)
qed

definition demo_runtime :: "string \<Rightarrow> ssh_runtime" where
  "demo_runtime pw = \<lparr>rt_host = ''h'', rt_username = JStr ''root'', rt_port = Fin 22, rt_password = JStr (CHR ''p'' # pw), rt_privateKey = JUndef,
     rt_passphrase = JUndef, rt_executor = new_SSHExecutor ''cli'' None None, hasAuth = True, rt_metadata = JObj []\<rparr>"

lemma demo_urls_redacted:
  "redactPotentialSecrets (''https'' @ ''://'' @ ''user:pw'' @ ''@'' @ ''h'') = redactPotentialSecrets (''https'' @ ''://'' @ ''a:b'' @ ''@'' @ ''h'')"
proof -
  have ok: "scheme_ok ''https''" "credentials_ok ''user:pw''" "credentials_ok ''a:b''" "CHR ''@'' \<notin> set ''h''"
    by (simp_all add: scheme_ok_def scheme_char_def credentials_ok_def credentials_char_def is_upper_def
        is_lower_def is_alnum_def is_digit_def is_space_def in_range_def code_of_def)
  from redact_url_credentials [OF ok(1, 2, 4)] redact_url_credentials [OF ok(1, 3, 4)] show ?thesis
    by (simp add: redactPotentialSecrets_def)
qed

theorem ssh_log_hides_secrets_witness:
  "\<exists>lines m m'. lines \<noteq> [] \<and>
     logged_run (ssh_config (demo_runtime ''1'')) ssh_options initial_manager [GetClient None, ClientError 0 ''https://user:pw@h''] lines m \<and>
     logged_run (ssh_config (demo_runtime ''2'')) ssh_options initial_manager [GetClient None, ClientError 0 ''https://a:b@h''] lines m'"
proof -
  have alike: "list_all2 event_alike [GetClient None, ClientError 0 ''https://user:pw@h''] [GetClient None, ClientError 0 ''https://a:b@h'']"
    using demo_urls_redacted by (simp add: event_alike_def)
  have "manager_step (getClient None initial_manager) (ClientError 0 ''https://user:pw@h'') (emit_error 0 ''https://user:pw@h'' (getClient None initial_manager))"
    by (rule manager_step.ClientError) (simp add: manager_handlers initial_manager_def)
  from logged_run.step [OF manager_step.GetClient logged_run.step [OF this logged_run.stop]] obtain lines m where
    run: "logged_run (ssh_config (demo_runtime ''1'')) ssh_options initial_manager [GetClient None, ClientError 0 ''https://user:pw@h''] lines m" "lines \<noteq> []"
    by (auto simp: initial_manager_def)
  have "same_but_secrets (demo_runtime ''1'') (demo_runtime ''2'')" by (simp add: same_but_secrets_def demo_runtime_def)
  from ssh_log_hides_secrets [OF this alike run(1)] run show ?thesis by blast
qed



end
