(* ===== verification/Spec2Isabelle.thy ===== *)
theory Spec2Isabelle
  imports Config_Generator Compositions Page_Session Desktop_App Preload Bootstrap_Session Ssh_Log
begin

text \<open>
  This development models nginx-admin, a control panel for nginx hosts, and proves what its parts
  promise. The program is written in TypeScript: a domain package (\<open>packages/core\<close>), stores and
  factories shared by the front ends (\<open>packages/shared\<close>), repositories (\<open>packages/infra\<close>), the
  process that drives the front ends (\<open>packages/app\<close>), a web application (\<open>apps/web\<close>) and a
  desktop application (\<open>apps/desktop\<close>) that reaches a host over SSH.

  \<^bold>\<open>How the parts interact.\<close> A route is edited in a form, validated by a schema, rendered as an nginx
  configuration and kept in a repository (browser storage, a bridge to the desktop, or the client
  store). A second path, with commands, leads from the process over a gateway to an executor. The
  desktop's main process reads its environment, moves SSH credentials from it into the keyring,
  keeps one SSH connection, and answers the bootstrap page, which checks a host and installs the
  daemon on it. Everything that is stored, shown or logged passes the functions that remove secrets.

  \<^bold>\<open>The theories.\<close>
  \<^item> \<open>Prelude\<close>: characters, the string methods the sources use, insertion-ordered maps, the
    operations with state and errors, and the shared lemmas.
  \<^item> \<open>Js_Value\<close>: the values the sources compute with, conversions of numbers and dates, what JSON
    keeps of a value, the errors that are thrown.
  \<^item> \<open>Json\<close>: \<open>JSON.stringify\<close> and \<open>JSON.parse\<close> on texts, a printer, a tokenizer and a reader with a
    stack, and that reading undoes printing.
  \<^item> \<open>Js_Regex\<close>: regular expressions with the backtracking order of ECMAScript; replacing.
  \<^item> \<open>Secrets\<close>: \<open>core/security/secrets.ts\<close>, which field names and texts count as secret, redaction,
    sanitising.
  \<^item> \<open>Zod\<close>: schemas as data; what the zod package does with them is a parameter, constrained by a
    locale of documented laws, with a reference evaluator that satisfies them.
  \<^item> \<open>Entities\<close>: \<open>core/entities/types.ts\<close> and \<open>core/utils/validators.ts\<close>, every schema with its
    refinements.
  \<^item> \<open>Config_Generator\<close>: \<open>core/services/ConfigGenerator.ts\<close>, the configuration preview.
  \<^item> \<open>Route_Repository\<close>: the repository interface as locales, its implementations over browser
    storage, the bridge and the client store.
  \<^item> \<open>Route_Use_Cases\<close>: \<open>core/useCases/routes.ts\<close>, \<open>routeForm.ts\<close> and the factories of
    \<open>shared/lib\<close>.
  \<^item> \<open>Logs_Server\<close>: logs, server state, sidebar and the integrations between them.
  \<^item> \<open>Route_Stores\<close>: the client stores of routes and of the form, the hooks that wrap them, the
    subscriptions and the autosave.
  \<^item> \<open>Routes_Process\<close>: executors, gateway, projection store, \<open>RoutesProcess.ts\<close>.
  \<^item> \<open>Ssh_Connection\<close>: \<open>SSHConnectionManager.ts\<close> as a step relation over the interleaved events.
  \<^item> \<open>Ssh_Executor\<close>: \<open>SSHExecutor.ts\<close>, one execution, the retry loop, the commands.
  \<^item> \<open>Desktop_Env\<close>: the process environment and the \<open>.env\<close> file.
  \<^item> \<open>Secrets_Repository\<close>: host credentials in the keyring and their migration.
  \<^item> \<open>Bootstrap\<close>: the start of the main process and the handlers of the bootstrap channels.
  \<^item> \<open>Desktop_App\<close>: the rest of \<open>apps/desktop/src/main/main.ts\<close>, windows and the events of Electron,
    as a transition system over the operations of \<open>Bootstrap\<close>.
  \<^item> \<open>Web_Pages\<close>: the handlers of the routes page and of the bootstrap page.
  \<^item> \<open>Views\<close>: what a component renders as a tree of elements with their handlers, what a browser
    offers of it (clicks, fields, the Enter key), and the form kit of \<open>shared/ui-kit\<close>.
  \<^item> \<open>Route_Views\<close>: every component of the routes page, the bootstrap page and \<open>App.tsx\<close> as such
    trees, with the specification of what they offer.
  \<^item> \<open>Page_Session\<close>: a user's session with the routes page, in which clicks and keys start the
    handlers of \<open>Web_Pages\<close> and each handler waits its three seconds while others run.
  \<^item> \<open>Compositions\<close>: the composition roots of both front ends, and the operations of the process
    when they overlap.
  \<^item> \<open>Contracts\<close>: the interfaces of \<open>packages/transport\<close>, of \<open>core/domain/Route.ts\<close> and of
    \<open>SecretsRepository.ts\<close> as types with a relation to values, and which answers have them.
  \<^item> \<open>Preload\<close>: the channels between page and main process, the table of handlers, the preload script
    and what a page finds on its window; Electron's message passing is a locale.
  \<^item> \<open>Bootstrap_Session\<close>: a user's session with the bootstrap page inside the application, in which
    calls of the main process wait while the user works on, leaves and comes back.
  \<^item> \<open>Ssh_Log\<close>: every line the connection manager, the executor and the main process write about
    SSH, given to the steps of their models.

  \<^bold>\<open>How code becomes definitions.\<close> Definitions have the names of the sources where that is possible;
  a prefix tells apart the functions of one name (\<open>ls_save\<close> and \<open>br_save\<close> of two repositories, the
  store's \<open>store_addRoute\<close>). An object is a value of type \<open>js\<close> or, where its shape is fixed and its
  fields are updated one by one, a record. Asynchronous functions that run alone are functions from a
  state to an error or a result and a new state; the steps of functions that interleave are rules of
  a step relation. Exceptions are values. Clocks, random ids and everything the environment decides
  are arguments. Texts are sequences of Latin-1 characters, and the Cyrillic messages of the sources
  are transliterated. No fuel is used: every loop ends by the structure of its data or by a measure,
  the retry loop by the number of attempts left.

  \<^bold>\<open>What the lemmas show.\<close> Schema, preview: accepted routes are well formed, and their preview has
  exactly the blocks and directives that were written. Secrets: what leaves through serialisation,
  the form store and the log store has no sensitive field. Repositories: they refine maps from ids to
  routes, and give back what was put in, dates included where the code revives them. Stores, process
  and pages: every operation ends with its flags off and errors recorded redacted; the routes shown
  are those the executor keeps. SSH: one connection attempt at a time, every caller and every
  execution is settled, retries are bounded and back off, payloads cannot become shell syntax, and
  payload and answer cross the connection unchanged.
  Desktop: the migration runs once and never removes what it has not stored, no secret variable
  outlives the start, only trusted pages reach the host and none can choose what runs there; every
  window is isolated and shows one of the program's own pages. Components: when the page renders and
  when it throws, and that it offers exactly the actions its state allows. Sessions: in every
  interleaving of clicks and waiting handlers at most one removal of each kind is under way.
  Compositions: both front ends show the same routes after the same operations, and overlapping
  operations whose answers arrive in order end like sequential ones. Contracts: routes, answers of
  commands and answers of the bootstrap handlers have the types the compiler only assumes; the
  bootstrap page reaches the handlers through the preload script, renders in every session and
  disables each button exactly while its call waits. Log: runs that differ in credentials only write
  the same lines, and logging changes nothing else.
  Several theorems state behaviour the authors can hardly intend, such as a shutdown that misses a
  connection in flight, a button that saves twice, a pending deletion that hits the next route, a
  second installation beside the first, or a page that reports success after a failure; they are the facts to turn around when the code is
  repaired.

  \<^bold>\<open>Assumptions.\<close> The zod package, the keytar package, the ssh2 library, \<open>fetch\<close>, \<open>Date.parse\<close>, URL
  origins, Electron's message passing and the form library are parameters; the laws asked of zod,
  keytar and Electron are locales, and each has a concrete instance. Writing to browser storage and to existing files succeeds. Stored
  texts are kept up to what \<open>JSON.parse\<close> makes of them, which loses nothing (\<open>seen_text_print\<close> of
  \<open>Json\<close>).

  \<^bold>\<open>Not modelled.\<close> Styling and animation; the wrappers of the UI kit that only pass their properties
  on with a class name (\<open>card.tsx\<close>, \<open>input.tsx\<close>, \<open>label.tsx\<close>, and \<open>select.tsx\<close>, which no page
  uses); \<open>apps/web/src/design.tsx\<close>, which is commented out as a whole; \<open>main.tsx\<close>, which
  mounts the application; \<open>ControlPlaneState.ts\<close>, types no code uses; the two log lines about the
  \<open>.env\<close> file; the daemon, a separate program in Rust.
\<close>

section \<open>Properties that span components\<close>

lemma onInstall_desktop:
  "\<exists>answer s' b'. installDaemon True d shell now (JObj [(''options'', JObj
      [(''installScriptUrl'', get values ''installScriptUrl''), (''serviceName'', get values ''serviceName''),
       (''healthCommand'', get values ''healthCommand''), (''timeoutMs'', JNum (to_number (get values ''timeoutMs'')))])]) s = (answer, s') \<and>
     onInstall (Some (desktop_bridge True d md check shell t0 now)) values (b, s) = (b', s') \<and> \<not> isInstalling b' \<and>
     (installError b' = JNull \<longleftrightarrow> get answer ''ok'' = JBool True)"
proof -
  let ?req = "JObj [(''options'', JObj
      [(''installScriptUrl'', get values ''installScriptUrl''), (''serviceName'', get values ''serviceName''),
       (''healthCommand'', get values ''healthCommand''), (''timeoutMs'', JNum (to_number (get values ''timeoutMs'')))])]"
  obtain answer s' where a: "installDaemon True d shell now ?req s = (answer, s')" by fastforce
  have "(get answer ''ok'' = JBool True \<longleftrightarrow> truthy (get answer ''ok'')) \<and> (\<not> truthy (get answer ''ok'') \<longrightarrow> fail_message answer \<noteq> JNull)"
    using installDaemon_answer [OF a]
  proof
    assume "\<exists>ps. answer = ipc_success (JObj ps)"
    then show ?thesis by (auto simp: ipc_success_def)
  next
    assume "\<exists>e. answer = toIpcError e"
    then obtain e where e: "answer = toIpcError e" by blast
    with toIpcError_message [of e] show ?thesis by (auto simp: toIpcError_fails fail_message_def)
  qed
  with a show ?thesis
    by (auto simp: onInstall_def installBootstrapDaemon_def desktop_bridge_def Let_def)
qed

text \<open>
  C11: from the page to the host. When the bootstrap page asks for an installation, the commands that
  run on the host are the configured ones: of everything typed into the form only the timeout has
  an effect, the script address, the service name and the health command have none. They run in
  order up to the first failure, and the page shows an error exactly when one of them failed.
\<close>

theorem page_cannot_choose_commands:
  assumes "length rs = 4"
  shows "\<exists>b' rest. onInstall (Some (desktop_bridge True d md check scripted_shell t0 now)) values (b, (rs, [])) =
      (b', (rest, take (answers_read rs) (install_commands d (JObj [(''options'', JObj [(''timeoutMs'', JNum (to_number (get values ''timeoutMs'')))])])))) \<and>
    \<not> isInstalling b' \<and> (installError b' = JNull \<longleftrightarrow> list_all (\<lambda>r. \<not> isl r) rs)"
  using onInstall_desktop [of d scripted_shell now "values" "(rs, [])" md check t0 b]
    install_scripted [OF assms, of d now "JObj [(''options'', JObj
      [(''installScriptUrl'', get values ''installScriptUrl''), (''serviceName'', get values ''serviceName''),
       (''healthCommand'', get values ''healthCommand''), (''timeoutMs'', JNum (to_number (get values ''timeoutMs'')))])]"]
  by (auto simp: install_commands_timeout)

theorem page_cannot_choose_commands_witness:
  "\<exists>b' rest. onInstall (Some (desktop_bridge True (read_defaults Map.empty) (JObj []) (ret ()) scripted_shell 0 0))
       (JObj [(''serviceName'', JStr ''sshd''), (''timeoutMs'', jint 10)]) (initial_bootstrap, ([Inr [], Inr ''active'', Inr ''enabled'', Inr ''ok''], [])) =
      (b', (rest, install_commands (read_defaults Map.empty) (JObj [(''options'', JObj [(''timeoutMs'', jint 10)])]))) \<and>
    installError b' = JNull"
proof -
  have "take (Suc (Suc (Suc (Suc 0)))) (install_commands d req) = install_commands d req" for d req by (simp add: install_commands_def)
  then show ?thesis
    using page_cannot_choose_commands [of "[Inr [], Inr ''active'', Inr ''enabled'', Inr ''ok'']" "read_defaults Map.empty" "JObj []" "ret ()" 0 0
      "JObj [(''serviceName'', JStr ''sshd''), (''timeoutMs'', jint 10)]" initial_bootstrap]
    by (simp add: jint_def del: take_all_iff take_all) blast
qed

text \<open>
  From the start of the program to the page. What the bootstrap page is shown of the host the
  program was started for has no sensitive field at any depth, and the form is filled with the
  defaults the program was started with.
\<close>

theorem page_shows_no_secrets:
  assumes "start_main repository resolved w = (Inr (d, runtime), w')"
    and "load_context (Some (desktop_bridge True d (rt_metadata runtime) check shell t0 now)) True (initial_bootstrap, s) = (b, s')"
  shows "\<not> hasSensitiveFieldName (b_context b) \<and> contextError b = JNull \<and> s' = s \<and>
    get (install_form b) ''serviceName'' = JStr (serviceName d)"
proof -
  have "\<not> hasSensitiveFieldName (fst (getContext True d (rt_metadata runtime) s))"
    by (rule context_has_no_secrets) (rule assms(1))
  then show ?thesis using assms(2)
    by (auto simp: load_context_def getBootstrapContext_def desktop_bridge_def getContext_def ipc_success_def initial_bootstrap_def Let_def)
qed

theorem page_shows_no_secrets_witness:
  "\<exists>d runtime w' b s'. start_main (KeytarSecretsRepository DEFAULT_SERVICE (Inr memory_keytar)) [] quiet_desktop = (Inr (d, runtime), w') \<and>
     load_context (Some (desktop_bridge True d (rt_metadata runtime) (ret ()) (\<lambda>_ _. ret []) 0 0)) True (initial_bootstrap, ()) = (b, s') \<and>
     \<not> hasSensitiveFieldName (b_context b)"
proof -
  obtain d runtime w' where s: "start_main (KeytarSecretsRepository DEFAULT_SERVICE (Inr memory_keytar)) [] quiet_desktop = (Inr (d, runtime), w')"
    using quiet_start by blast
  obtain b s' where l: "load_context (Some (desktop_bridge True d (rt_metadata runtime) (ret ()) (\<lambda>_ _. ret []) 0 0)) True (initial_bootstrap, ()) = (b, s')"
    by (rule prod.exhaust)
  from page_shows_no_secrets [OF s l] s l show ?thesis by blast
qed

end
